(* ===== verification/Go_Prelude.thy ===== *)
theory Go_Prelude
  imports Main "HOL-Library.AList" "HOL-Library.Multiset" "HOL-Library.Char_ord"
    "HOL-Library.List_Lexorder"
begin

text \<open>
  What every component of the daemon uses of the Go language and its standard library: 64-bit
  integers, instants of time, maps and their unspecified iteration order, and
  \<open>sort.Slice\<close>. The theory also declares the theorem collections of the development.

  A Go map is an association list with distinct keys. The order of the list is an artefact of the
  representation: wherever the source ranges over a map, the model visits \<open>permute ord m\<close>
  for an order \<open>ord\<close> the operation takes as an argument. \<open>permute_complete\<close> shows
  that every visiting order is \<open>permute ord\<close> for some \<open>ord\<close>, so a theorem for all
  \<open>ord\<close> speaks of every run of the Go program.
\<close>

named_theorems go_str \<open>evaluation of the string library\<close>
named_theorems store_frame \<open>the fields an operation of the store leaves alone\<close>
named_theorems store_inv_intros \<open>operations keep the store's invariant\<close>
named_theorems api_simps \<open>the handler's helpers\<close>

section \<open>Integers and time\<close>

type_synonym time = int

text \<open>
  A \<open>time.Time\<close> is the number of nanoseconds since Go's zero time, 1 January of year 1 UTC;
  \<open>IsZero\<close>, \<open>After\<close> and \<open>Before\<close> are comparisons of instants.
\<close>

definition IsZero :: "time \<Rightarrow> bool" where
  "IsZero t \<longleftrightarrow> t = 0"

definition After :: "time \<Rightarrow> time \<Rightarrow> bool" where
  "After t u \<longleftrightarrow> u < t"

definition Before :: "time \<Rightarrow> time \<Rightarrow> bool" where
  "Before t u \<longleftrightarrow> t < u"

text \<open>\<open>if v == "" { v = d }\<close> and \<open>if t.IsZero() { t = d }\<close>.\<close>

definition or_default :: "string \<Rightarrow> string \<Rightarrow> string" where
  "or_default v d = (if v = '''' then d else v)"

definition or_time :: "time \<Rightarrow> time \<Rightarrow> time" where
  "or_time t d = (if IsZero t then d else t)"

lemma or_default_simps [simp]:
  "or_default '''' d = d" "v \<noteq> '''' \<Longrightarrow> or_default v d = v"
  "d \<noteq> '''' \<Longrightarrow> or_default v d \<noteq> ''''" "or_default v d = '''' \<longleftrightarrow> v = '''' \<and> d = ''''"
  by (auto simp: or_default_def)

lemma or_time_simps [simp]:
  "or_time 0 d = d" "t \<noteq> 0 \<Longrightarrow> or_time t d = t" "or_time t d = 0 \<longleftrightarrow> t = 0 \<and> d = 0"
  by (auto simp: or_time_def IsZero_def)

lemmas time_defs = IsZero_def After_def Before_def

text \<open>The two's complement value of an \<open>int64\<close> (and of \<open>int\<close> on 64-bit hosts).\<close>

definition wrap64 :: "int \<Rightarrow> int" where
  "wrap64 n = (n + 2 ^ 63) mod 2 ^ 64 - 2 ^ 63"

definition max_int64 :: int where
  "max_int64 = 2 ^ 63 - 1"

definition min_int64 :: int where
  "min_int64 = - (2 ^ 63)"

lemma wrap64_id: "min_int64 \<le> n \<Longrightarrow> n \<le> max_int64 \<Longrightarrow> wrap64 n = n"
  by (simp add: wrap64_def min_int64_def max_int64_def)

lemma wrap64_range: "min_int64 \<le> wrap64 n \<and> wrap64 n \<le> max_int64"
  using pos_mod_bound [of "2 ^ 64" "n + 2 ^ 63"]
  by (simp add: wrap64_def min_int64_def max_int64_def)

lemma wrap64_Suc: "0 \<le> n \<Longrightarrow> n < max_int64 \<Longrightarrow> wrap64 (n + 1) = n + 1"
  by (rule wrap64_id) (auto simp: min_int64_def max_int64_def)

section \<open>Iteration order of maps\<close>

text \<open>
  \<open>permute ord xs\<close> draws the elements of \<open>xs\<close> one by one, the index of each draw
  taken from \<open>ord\<close>; what \<open>ord\<close> does not mention comes last, in the given order.
\<close>

fun permute :: "nat list \<Rightarrow> 'a list \<Rightarrow> 'a list" where
  "permute ord [] = []"
| "permute [] (x # xs) = x # xs"
| "permute (n # ns) (x # xs) =
     (let ys = x # xs; i = n mod length ys
      in ys ! i # permute ns (take i ys @ drop (Suc i) ys))"

lemma mset_take_drop_nth:
  assumes "i < length xs"
  shows "add_mset (xs ! i) (mset (take i xs @ drop (Suc i) xs)) = mset xs"
proof -
  have "mset xs = mset (take i xs @ xs ! i # drop (Suc i) xs)"
    using assms by (simp add: Cons_nth_drop_Suc)
  then show ?thesis by simp
qed

lemma mset_permute [simp]: "mset (permute ord xs) = mset xs"
proof (induction ord xs rule: permute.induct)
  case (3 n ns x xs)
  define i where "i = n mod length (x # xs)"
  have i: "i < length (x # xs)"
    unfolding i_def by (rule mod_less_divisor) simp
  have "mset (permute (n # ns) (x # xs)) =
      add_mset ((x # xs) ! i) (mset (permute ns (take i (x # xs) @ drop (Suc i) (x # xs))))"
    by (simp add: i_def Let_def del: take_Suc_Cons drop_Suc_Cons)
  also have "\<dots> = add_mset ((x # xs) ! i) (mset (take i (x # xs) @ drop (Suc i) (x # xs)))"
    using "3.IH" [OF refl i_def] by simp
  also have "\<dots> = mset (x # xs)"
    by (rule mset_take_drop_nth [OF i])
  finally show ?case .
qed simp_all

lemma set_permute [simp]: "set (permute ord xs) = set xs"
  by (metis mset_permute set_mset_mset)

lemma length_permute [simp]: "length (permute ord xs) = length xs"
  by (metis mset_permute size_mset)

lemma distinct_permute [simp]: "distinct (permute ord xs) \<longleftrightarrow> distinct xs"
  by (metis distinct_count_atmost_1 mset_permute set_permute)

lemma distinct_map_permute [simp]: "distinct (map f (permute ord xs)) \<longleftrightarrow> distinct (map f xs)"
proof -
  have "mset (map f (permute ord xs)) = mset (map f xs)"
    by simp
  then show ?thesis
    by (metis mset_eq_imp_distinct_iff)
qed

lemma permute_Nil_order [simp]: "permute [] xs = xs"
  by (cases xs) simp_all

text \<open>Every rearrangement of the elements is some iteration order.\<close>

lemma permute_complete: "mset ys = mset xs \<Longrightarrow> \<exists>ord. permute ord xs = ys"
proof (induction ys arbitrary: xs)
  case Nil
  then show ?case by simp
next
  case (Cons y ys)
  have "y \<in> set xs"
    using Cons.prems by (metis list.set_intros(1) set_mset_mset)
  then obtain i where i: "i < length xs" "xs ! i = y"
    by (auto simp: in_set_conv_nth)
  obtain z zs where xs: "xs = z # zs"
    using i(1) by (cases xs) auto
  have "add_mset y (mset ys) = add_mset y (mset (take i xs @ drop (Suc i) xs))"
    using mset_take_drop_nth [OF i(1)] Cons.prems i(2) by simp
  then have "mset ys = mset (take i xs @ drop (Suc i) xs)"
    by (simp only: add_mset_add_mset_same_iff)
  from Cons.IH [OF this] obtain ord where
    "permute ord (take i xs @ drop (Suc i) xs) = ys" by blast
  then have "permute (i # ord) xs = y # ys"
    using i xs by (simp add: Let_def del: take_Suc_Cons drop_Suc_Cons)
  then show ?case by blast
qed

section \<open>sort.Slice\<close>

text \<open>
  \<open>sort.Slice\<close> orders a slice by a comparator and leaves the order of equal elements open.
  The model is a stable insertion sort: the source only sorts slices it has just filled from a map,
  so the iteration order already makes every order of equal elements possible
  (\<open>sort_slice_complete\<close> below).
\<close>

fun insert_slice :: "('a \<Rightarrow> 'a \<Rightarrow> bool) \<Rightarrow> 'a \<Rightarrow> 'a list \<Rightarrow> 'a list" where
  "insert_slice lt x [] = [x]"
| "insert_slice lt x (y # ys) =
     (if lt y x then y # insert_slice lt x ys else x # y # ys)"

definition sort_slice :: "('a \<Rightarrow> 'a \<Rightarrow> bool) \<Rightarrow> 'a list \<Rightarrow> 'a list" where
  "sort_slice lt xs = foldr (insert_slice lt) xs []"

lemma sort_slice_simps [simp]:
  "sort_slice lt [] = []"
  "sort_slice lt (x # xs) = insert_slice lt x (sort_slice lt xs)"
  by (simp_all add: sort_slice_def)

lemma mset_insert_slice [simp]: "mset (insert_slice lt x xs) = add_mset x (mset xs)"
  by (induction xs) auto

lemma mset_sort_slice [simp]: "mset (sort_slice lt xs) = mset xs"
  by (induction xs) simp_all

lemma set_insert_slice [simp]: "set (insert_slice lt x xs) = insert x (set xs)"
  by (metis mset_insert_slice set_mset_add_mset_insert set_mset_mset)

lemma set_sort_slice [simp]: "set (sort_slice lt xs) = set xs"
  by (metis mset_sort_slice set_mset_mset)

lemma length_sort_slice [simp]: "length (sort_slice lt xs) = length xs"
  by (metis mset_sort_slice size_mset)

lemma distinct_map_sort_slice [simp]:
  "distinct (map f (sort_slice lt xs)) \<longleftrightarrow> distinct (map f xs)"
proof -
  have "mset (map f (sort_slice lt xs)) = mset (map f xs)"
    by simp
  then show ?thesis
    by (metis mset_eq_imp_distinct_iff)
qed

text \<open>
  The contract of \<open>sort.Slice\<close> on its comparator: a strict weak order. Every comparator the
  store passes is shown to be one, and the slices it returns are then in order.
\<close>

locale strict_weak_order =
  fixes lt :: "'a \<Rightarrow> 'a \<Rightarrow> bool"
  assumes lt_irrefl: "\<not> lt x x"
    and lt_trans: "lt x y \<Longrightarrow> lt y z \<Longrightarrow> lt x z"
    and not_lt_trans: "\<not> lt x y \<Longrightarrow> \<not> lt y z \<Longrightarrow> \<not> lt x z"
begin

definition in_order :: "'a list \<Rightarrow> bool" where
  "in_order xs \<longleftrightarrow> sorted_wrt (\<lambda>x y. \<not> lt y x) xs"

lemma lt_asym: "lt x y \<Longrightarrow> \<not> lt y x"
  using lt_irrefl lt_trans by blast

lemma in_order_insert: "in_order xs \<Longrightarrow> in_order (insert_slice lt x xs)"
proof (induction xs)
  case Nil
  then show ?case by (simp add: in_order_def)
next
  case (Cons y ys)
  then have ys: "in_order ys" and y: "\<forall>z \<in> set ys. \<not> lt z y"
    by (auto simp: in_order_def)
  show ?case
  proof (cases "lt y x")
    case True
    with Cons.IH [OF ys] y show ?thesis
      by (auto simp: in_order_def dest: lt_asym)
  next
    case False
    with Cons.prems y show ?thesis
      by (auto simp: in_order_def dest: not_lt_trans)
  qed
qed

lemma in_order_sort: "in_order (sort_slice lt xs)"
  by (induction xs) (simp_all add: in_order_def [of "[]"] in_order_insert)

lemma sorted_sort: "sorted_wrt (\<lambda>x y. \<not> lt y x) (sort_slice lt xs)"
  using in_order_sort by (simp add: in_order_def)

lemma insert_slice_front: "\<forall>y \<in> set ys. \<not> lt y x \<Longrightarrow> insert_slice lt x ys = x # ys"
  by (cases ys) simp_all

lemma sort_slice_id: "sorted_wrt (\<lambda>x y. \<not> lt y x) xs \<Longrightarrow> sort_slice lt xs = xs"
  by (induction xs) (simp_all add: insert_slice_front)

text \<open>Every answer \<open>sort.Slice\<close> may give is the model's answer for some iteration order.\<close>

lemma sort_slice_complete:
  assumes "mset ys = mset xs" and "sorted_wrt (\<lambda>x y. \<not> lt y x) ys"
  shows "\<exists>ord. sort_slice lt (permute ord xs) = ys"
  using permute_complete [OF assms(1)] sort_slice_id [OF assms(2)] by metis

end

section \<open>Maps\<close>

type_synonym ('k, 'v) gomap = "('k \<times> 'v) list"

text \<open>\<open>v, ok := m[k]\<close>, \<open>m[k] = v\<close>, \<open>delete(m, k)\<close> and \<open>range m\<close>.\<close>

definition gm_get :: "('k, 'v) gomap \<Rightarrow> 'k \<Rightarrow> 'v option" where
  "gm_get m k = map_of m k"

definition gm_put :: "'k \<Rightarrow> 'v \<Rightarrow> ('k, 'v) gomap \<Rightarrow> ('k, 'v) gomap" where
  "gm_put k v m = AList.update k v m"

definition gm_del :: "'k \<Rightarrow> ('k, 'v) gomap \<Rightarrow> ('k, 'v) gomap" where
  "gm_del k m = AList.delete k m"

definition gm_range :: "nat list \<Rightarrow> ('k, 'v) gomap \<Rightarrow> 'v list" where
  "gm_range ord m = map snd (permute ord m)"

definition gm_inv :: "('k, 'v) gomap \<Rightarrow> bool" where
  "gm_inv m \<longleftrightarrow> distinct (map fst m)"

lemmas gm_defs = gm_get_def gm_put_def gm_del_def

lemma gm_get_Nil [simp]: "gm_get [] k = None"
  by (simp add: gm_get_def)

lemma gm_get_put: "gm_get (gm_put k v m) = (gm_get m)(k \<mapsto> v)"
  by (simp add: fun_eq_iff gm_defs update_conv)

lemma gm_get_del: "gm_get (gm_del k m) = (gm_get m)(k := None)"
  by (simp add: fun_eq_iff gm_defs delete_conv)

lemma gm_get_put_apply [simp]: "gm_get (gm_put k v m) j = (if j = k then Some v else gm_get m j)"
  by (simp add: gm_get_put)

lemma gm_get_del_apply [simp]: "gm_get (gm_del k m) j = (if j = k then None else gm_get m j)"
  by (simp add: gm_get_del)

lemma gm_inv_Nil [simp]: "gm_inv []"
  by (simp add: gm_inv_def)

lemma gm_inv_put [simp]: "gm_inv m \<Longrightarrow> gm_inv (gm_put k v m)"
  by (simp add: gm_inv_def gm_put_def distinct_update)

lemma gm_inv_del [simp]: "gm_inv m \<Longrightarrow> gm_inv (gm_del k m)"
  by (simp add: gm_inv_def gm_del_def distinct_delete)

lemma set_gm_range:
  assumes "gm_inv m"
  shows "set (gm_range ord m) = ran (gm_get m)"
proof -
  have "set (gm_range ord m) = snd ` set m"
    by (simp add: gm_range_def)
  also have "\<dots> = ran (map_of m)"
    using assms by (simp add: gm_inv_def ran_distinct)
  finally show ?thesis
    by (simp add: gm_get_def [abs_def])
qed

lemma in_gm_range:
  "gm_inv m \<Longrightarrow> v \<in> set (gm_range ord m) \<longleftrightarrow> (\<exists>k. gm_get m k = Some v)"
  by (simp add: set_gm_range ran_def)

lemma length_gm_range [simp]: "length (gm_range ord m) = length m"
  by (simp add: gm_range_def)

text \<open>A table whose records carry their own key.\<close>

definition gm_keyed :: "('v \<Rightarrow> 'k) \<Rightarrow> ('k, 'v) gomap \<Rightarrow> bool" where
  "gm_keyed key m \<longleftrightarrow> gm_inv m \<and> (\<forall>p \<in> set m. key (snd p) = fst p)"

lemma gm_keyed_get: "gm_keyed key m \<Longrightarrow> gm_get m k = Some v \<Longrightarrow> key v = k"
  by (fastforce simp: gm_keyed_def gm_get_def dest: map_of_SomeD)

lemma gm_keyed_inv: "gm_keyed key m \<Longrightarrow> gm_inv m"
  by (simp add: gm_keyed_def)

lemma gm_keyed_iff:
  "gm_keyed key m \<longleftrightarrow> gm_inv m \<and> (\<forall>k v. gm_get m k = Some v \<longrightarrow> key v = k)"
proof -
  have "key (snd p) = fst p"
    if "gm_inv m" "\<forall>k v. gm_get m k = Some v \<longrightarrow> key v = k" "p \<in> set m" for p
  proof -
    have "gm_get m (fst p) = Some (snd p)"
      using that(1,3) by (simp add: gm_inv_def gm_get_def)
    with that(2) show ?thesis by blast
  qed
  then show ?thesis
    by (meson gm_keyed_def gm_keyed_get)
qed

lemma gm_keyed_Nil [simp]: "gm_keyed key []"
  by (simp add: gm_keyed_def)

lemma gm_keyed_put [simp]: "gm_keyed key m \<Longrightarrow> key v = k \<Longrightarrow> gm_keyed key (gm_put k v m)"
  by (simp add: gm_keyed_iff)

lemma gm_keyed_del [simp]: "gm_keyed key m \<Longrightarrow> gm_keyed key (gm_del k m)"
  by (simp add: gm_keyed_iff)

text \<open>Such a table lists each key once, whatever the iteration order.\<close>

lemma distinct_keys_range:
  assumes "gm_keyed key m"
  shows "distinct (map key (gm_range ord m))"
proof -
  have "map key (gm_range ord m) = map fst (permute ord m)"
    using assms by (simp add: gm_range_def gm_keyed_def)
  then show ?thesis
    using assms by (simp add: gm_keyed_def gm_inv_def)
qed

section \<open>Transition systems\<close>

text \<open>A property of the start states that every step keeps holds in every reachable state.\<close>

locale invariant_system =
  fixes start :: "'s \<Rightarrow> bool"
    and step :: "'s \<Rightarrow> 's \<Rightarrow> bool"
    and inv :: "'s \<Rightarrow> bool"
  assumes inv_start: "start s \<Longrightarrow> inv s"
    and inv_step: "inv s \<Longrightarrow> step s t \<Longrightarrow> inv t"
begin

lemma inv_steps: "step\<^sup>*\<^sup>* s t \<Longrightarrow> inv s \<Longrightarrow> inv t"
  by (induction rule: rtranclp_induct) (auto intro: inv_step)

lemma inv_reach: "start s \<Longrightarrow> step\<^sup>*\<^sup>* s t \<Longrightarrow> inv t"
  using inv_start inv_steps by blast

end

text \<open>
  A functional refinement: each concrete operation, on a state that satisfies the invariant, is the
  abstract one on the abstracted state. Runs then agree.
\<close>

locale functional_refinement =
  fixes cstep :: "'op \<Rightarrow> 'c \<Rightarrow> 'c"
    and astep :: "'op \<Rightarrow> 'a \<Rightarrow> 'a"
    and absf :: "'c \<Rightarrow> 'a"
    and cinv :: "'c \<Rightarrow> bool"
  assumes refines: "cinv s \<Longrightarrow> absf (cstep x s) = astep x (absf s)"
    and keeps: "cinv s \<Longrightarrow> cinv (cstep x s)"
begin

lemma keeps_run: "cinv s \<Longrightarrow> cinv (fold cstep xs s)"
  by (induction xs arbitrary: s) (simp_all add: keeps)

lemma refines_run: "cinv s \<Longrightarrow> absf (fold cstep xs s) = fold astep xs (absf s)"
  by (induction xs arbitrary: s) (simp_all add: refines keeps)

end

end
