(* ===== verification/Go_Strings.thy ===== *)
theory Go_Strings
  imports Go_Prelude
begin

text \<open>
  The part of Go's \<open>strings\<close>, \<open>strconv\<close> and \<open>path/filepath\<close> the program calls, on
  strings as byte lists, and the \<open>host\<close> record: what the program asks of the machine it runs
  on. Of Unicode, white space is modelled exactly (its few multi-byte encodings are recognised where
  they start, which is always a rune boundary); lower-casing is exact on ASCII strings and a parameter
  of the host on strings with other bytes.
\<close>

section \<open>The host\<close>

text \<open>A JSON document as \<open>encoding/json\<close> parses it; a number is kept as its literal.\<close>

datatype json =
    JNull
  | JBool bool
  | JNum string
  | JStr string
  | JArr "json list"
  | JObj "(string \<times> json) list"

datatype goos = Linux | Darwin | Windows | OtherOS

record host =
  runtime_GOOS :: goos
  unicode_lower :: "string \<Rightarrow> string" \<comment> \<open>\<open>strings.ToLower\<close> where a byte is not ASCII\<close>
  volume_len :: "string \<Rightarrow> nat"       \<comment> \<open>length of \<open>filepath.VolumeName\<close> on Windows\<close>
  stat_ok :: "string \<Rightarrow> bool"         \<comment> \<open>\<open>os.Stat\<close> finds the path\<close>
  readlink :: "string \<Rightarrow> string option" \<comment> \<open>\<open>os.Readlink\<close>\<close>
  lsof_output :: "string \<Rightarrow> string \<Rightarrow> string option"
    \<comment> \<open>standard output of \<open>lsof -a -p PID -d cwd -Fn\<close> by command name and pid\<close>
  parse_time :: "string \<Rightarrow> time option" \<comment> \<open>\<open>time.Time.UnmarshalJSON\<close> on a JSON string\<close>
  unmarshal_error :: "string \<Rightarrow> json \<Rightarrow> string"
    \<comment> \<open>text of the error \<open>json.Unmarshal\<close> gives for a method's parameters\<close>
  getpid :: int                       \<comment> \<open>\<open>os.Getpid\<close>\<close>
  format_time :: "time \<Rightarrow> string"     \<comment> \<open>\<open>time.Time.MarshalJSON\<close>, without its quotes\<close>
  coerce_text :: "string \<Rightarrow> string"   \<comment> \<open>invalid UTF-8 replaced, as \<open>json.Marshal\<close> does\<close>
  float_text :: "string \<Rightarrow> string"
    \<comment> \<open>text \<open>json.Marshal\<close> gives for the \<open>float64\<close> a number literal was decoded to\<close>

text \<open>A Linux host on which no file is found and texts and numbers pass through JSON unchanged.\<close>

definition bareHost :: host where
  "bareHost = \<lparr>runtime_GOOS = Linux, unicode_lower = (\<lambda>s. s), volume_len = (\<lambda>_. 0),
     stat_ok = (\<lambda>_. False), readlink = (\<lambda>_. None), lsof_output = (\<lambda>_ _. None),
     parse_time = (\<lambda>_. None), unmarshal_error = (\<lambda>_ _. ''bad params''), getpid = 1,
     format_time = (\<lambda>_. ''0''), coerce_text = (\<lambda>s. s), float_text = (\<lambda>s. s)\<rparr>"

section \<open>Searching and splitting\<close>

fun HasPrefix :: "string \<Rightarrow> string \<Rightarrow> bool" where
  "HasPrefix s [] = True"
| "HasPrefix [] (p # ps) = False"
| "HasPrefix (c # cs) (p # ps) = (c = p \<and> HasPrefix cs ps)"

lemma HasPrefix_iff: "HasPrefix s p \<longleftrightarrow> (\<exists>r. s = p @ r)"
  by (induction s p rule: HasPrefix.induct) auto

lemma HasPrefix_append [simp]: "HasPrefix (p @ r) p"
  by (auto simp: HasPrefix_iff)

definition HasSuffix :: "string \<Rightarrow> string \<Rightarrow> bool" where
  "HasSuffix s p = HasPrefix (rev s) (rev p)"

lemma HasSuffix_iff: "HasSuffix s p \<longleftrightarrow> (\<exists>r. s = r @ p)"
proof
  assume "HasSuffix s p"
  then obtain r where "rev s = rev p @ r"
    by (auto simp: HasSuffix_def HasPrefix_iff)
  then have "s = rev r @ p"
    by (metis rev_append rev_rev_ident)
  then show "\<exists>r. s = r @ p" by blast
qed (auto simp: HasSuffix_def)

definition TrimSuffix :: "string \<Rightarrow> string \<Rightarrow> string" where
  "TrimSuffix s p = (if HasSuffix s p then take (length s - length p) s else s)"

lemma TrimSuffix_append [simp]: "TrimSuffix (r @ p) p = r"
  by (auto simp: TrimSuffix_def HasSuffix_iff)

fun Contains :: "string \<Rightarrow> string \<Rightarrow> bool" where
  "Contains [] q = (q = [])"
| "Contains (c # cs) q = (HasPrefix (c # cs) q \<or> Contains cs q)"

lemma Contains_iff: "Contains s q \<longleftrightarrow> (\<exists>a b. s = a @ q @ b)"
proof (induction s)
  case (Cons c cs)
  have "(\<exists>a b. c # cs = a @ q @ b) \<longleftrightarrow> (\<exists>b. c # cs = q @ b) \<or> (\<exists>a b. cs = a @ q @ b)"
    by (auto simp: Cons_eq_append_conv)
  with Cons.IH show ?case by (simp add: HasPrefix_iff)
qed simp

text \<open>\<open>strings.Split\<close> (and \<open>bytes.Split\<close>) at a one-byte separator.\<close>

fun Split :: "char \<Rightarrow> string \<Rightarrow> string list" where
  "Split sep [] = [[]]"
| "Split sep (c # cs) =
     (if c = sep then [] # Split sep cs
      else (case Split sep cs of [] \<Rightarrow> [[c]] | p # ps \<Rightarrow> (c # p) # ps))"

fun Join :: "string list \<Rightarrow> string \<Rightarrow> string" where
  "Join [] sep = []"
| "Join [p] sep = p"
| "Join (p # q # ps) sep = p @ sep @ Join (q # ps) sep"

lemma Split_not_Nil [simp]: "Split sep s \<noteq> []"
  by (induction s) (auto split: list.splits)

lemma Join_Split: "Join (Split sep s) [sep] = s"
proof (induction s)
  case (Cons c cs)
  then show ?case
    by (cases "Split sep cs"; cases "tl (Split sep cs)") auto
qed simp

lemma Split_clean: "sep \<notin> set p \<Longrightarrow> Split sep p = [p]"
  by (induction p) auto

lemma Split_append: "sep \<notin> set p \<Longrightarrow> Split sep (p @ sep # s) = p # Split sep s"
  by (induction p) auto

lemma Split_Join:
  "ps \<noteq> [] \<Longrightarrow> \<forall>p \<in> set ps. sep \<notin> set p \<Longrightarrow> Split sep (Join ps [sep]) = ps"
  by (induction ps "[sep]" rule: Join.induct) (auto simp: Split_clean Split_append)

section \<open>White space\<close>

definition ascii_space :: "char \<Rightarrow> bool" where
  "ascii_space c \<longleftrightarrow> c \<in> {CHR 0x09, CHR 0x0A, CHR 0x0B, CHR 0x0C, CHR 0x0D, CHR 0x20}"

text \<open>
  The bytes of the space rune a string starts with, 0 when it starts with another rune:
  \<open>unicode.IsSpace\<close> holds of the ASCII spaces, U+0085, U+00A0, U+1680, U+2000 to U+200A,
  U+2028, U+2029, U+202F, U+205F and U+3000.
\<close>

definition space2 :: "char \<Rightarrow> char \<Rightarrow> bool" where
  "space2 a b \<longleftrightarrow> a = CHR 0xC2 \<and> (b = CHR 0x85 \<or> b = CHR 0xA0)"

definition space3 :: "char \<Rightarrow> char \<Rightarrow> char \<Rightarrow> bool" where
  "space3 a b c \<longleftrightarrow>
     (a = CHR 0xE1 \<and> b = CHR 0x9A \<and> c = CHR 0x80) \<or>
     (a = CHR 0xE2 \<and> b = CHR 0x80 \<and>
       (c \<in> {CHR 0xA8, CHR 0xA9, CHR 0xAF} \<or>
        (128 \<le> (of_char c :: nat) \<and> (of_char c :: nat) \<le> 138))) \<or>
     (a = CHR 0xE2 \<and> b = CHR 0x81 \<and> c = CHR 0x9F) \<or>
     (a = CHR 0xE3 \<and> b = CHR 0x80 \<and> c = CHR 0x80)"

fun space_len :: "string \<Rightarrow> nat" where
  "space_len [] = 0"
| "space_len [a] = (if ascii_space a then 1 else 0)"
| "space_len [a, b] = (if ascii_space a then 1 else if space2 a b then 2 else 0)"
| "space_len (a # b # c # s) =
     (if ascii_space a then 1 else if space2 a b then 2 else if space3 a b c then 3 else 0)"

fun fields_from :: "string \<Rightarrow> string \<Rightarrow> string list" where
  "fields_from cur [] = (if cur = [] then [] else [cur])"
| "fields_from cur (c # cs) =
     (let n = space_len (c # cs)
      in if n = 0 then fields_from (cur @ [c]) cs
         else if cur = [] then fields_from [] (drop (n - 1) cs)
         else cur # fields_from [] (drop (n - 1) cs))"

definition Fields :: "string \<Rightarrow> string list" where
  "Fields s = fields_from [] s"

fun trim_left :: "string \<Rightarrow> string" where
  "trim_left [] = []"
| "trim_left (c # cs) =
     (let n = space_len (c # cs) in if n = 0 then c # cs else trim_left (drop (n - 1) cs))"

text \<open>The same from the right: the space rune a string ends with, on the reversed bytes.\<close>

definition last_space_len :: "string \<Rightarrow> nat" where
  "last_space_len r =
     (if space_len (take 1 r) = 1 then 1
      else if length r \<ge> 2 \<and> space_len (rev (take 2 r)) = 2 then 2
      else if length r \<ge> 3 \<and> space_len (rev (take 3 r)) = 3 then 3
      else 0)"

fun trim_left_rev :: "string \<Rightarrow> string" where
  "trim_left_rev [] = []"
| "trim_left_rev (c # cs) =
     (let n = last_space_len (c # cs)
      in if n = 0 then c # cs else trim_left_rev (drop (n - 1) cs))"

definition TrimSpace :: "string \<Rightarrow> string" where
  "TrimSpace s = rev (trim_left_rev (rev (trim_left s)))"

text \<open>\<open>strings.Trim\<close> with a set of ASCII bytes.\<close>

definition Trim :: "string \<Rightarrow> string \<Rightarrow> string" where
  "Trim s cutset =
     rev (dropWhile (\<lambda>c. c \<in> set cutset) (rev (dropWhile (\<lambda>c. c \<in> set cutset) s)))"

section \<open>Letters and numbers\<close>

definition ascii_char :: "char \<Rightarrow> bool" where
  "ascii_char c \<longleftrightarrow> (of_char c :: nat) < 128"

definition lower_char :: "char \<Rightarrow> char" where
  "lower_char c =
     (if 65 \<le> (of_char c :: nat) \<and> (of_char c :: nat) \<le> 90
      then char_of ((of_char c :: nat) + 32) else c)"

definition ToLower :: "host \<Rightarrow> string \<Rightarrow> string" where
  "ToLower h s = (if list_all ascii_char s then map lower_char s else unicode_lower h s)"

definition digit_char :: "nat \<Rightarrow> char" where
  "digit_char d = char_of (48 + d)"

definition char_digit :: "char \<Rightarrow> nat option" where
  "char_digit c =
     (let n = (of_char c :: nat) in if 48 \<le> n \<and> n \<le> 57 then Some (n - 48) else None)"

fun nat_string :: "nat \<Rightarrow> string" where
  "nat_string n =
     (if n < 10 then [digit_char n] else nat_string (n div 10) @ [digit_char (n mod 10)])"

declare nat_string.simps [simp del]

definition Itoa :: "int \<Rightarrow> string" where
  "Itoa n = (if n < 0 then CHR ''-'' # nat_string (nat (- n)) else nat_string (nat n))"

fun digits_value :: "nat \<Rightarrow> string \<Rightarrow> nat option" where
  "digits_value acc [] = Some acc"
| "digits_value acc (c # cs) =
     (case char_digit c of None \<Rightarrow> None | Some d \<Rightarrow> digits_value (10 * acc + d) cs)"

text \<open>
  \<open>strconv.Atoi\<close> returns a value and an error: 0 on a syntax error, the nearest bound of
  \<open>int64\<close> on a range error. The flag says whether the error is nil.
\<close>

definition Atoi :: "string \<Rightarrow> int \<times> bool" where
  "Atoi s =
     (let neg = (s \<noteq> [] \<and> hd s = CHR ''-'');
          ds = (if s \<noteq> [] \<and> (hd s = CHR ''-'' \<or> hd s = CHR ''+'') then tl s else s)
      in if ds = [] then (0, False)
         else case digits_value 0 ds of
           None \<Rightarrow> (0, False)
         | Some v \<Rightarrow>
             (let n = (if neg then - int v else int v)
              in if n < min_int64 then (min_int64, False)
                 else if n > max_int64 then (max_int64, False)
                 else (n, True)))"

section \<open>Paths\<close>

definition IsPathSeparator :: "host \<Rightarrow> char \<Rightarrow> bool" where
  "IsPathSeparator h c \<longleftrightarrow>
     c = CHR ''/'' \<or> (runtime_GOOS h = Windows \<and> c = CHR 0x5C)"

definition Separator :: "host \<Rightarrow> char" where
  "Separator h = (if runtime_GOOS h = Windows then CHR 0x5C else CHR ''/'')"

definition Base :: "host \<Rightarrow> string \<Rightarrow> string" where
  "Base h path =
     (if path = [] then ''.''
      else let path = rev (dropWhile (IsPathSeparator h) (rev path));
               path = (if runtime_GOOS h = Windows then drop (volume_len h path) path else path);
               path = rev (takeWhile (\<lambda>c. \<not> IsPathSeparator h c) (rev path))
           in if path = [] then [Separator h] else path)"

section \<open>Numbers round-trip\<close>

lemma char_digit_digit_char [simp]: "d < 10 \<Longrightarrow> char_digit (digit_char d) = Some d"
  by (simp add: char_digit_def digit_char_def Let_def of_char_of)

lemma digits_value_append:
  "digits_value acc (s @ [c]) =
     (case digits_value acc s of None \<Rightarrow> None
      | Some v \<Rightarrow> (case char_digit c of None \<Rightarrow> None | Some d \<Rightarrow> Some (10 * v + d)))"
  by (induction s arbitrary: acc) (auto split: option.splits)

lemma digits_value_nat_string: "digits_value 0 (nat_string n) = Some n"
proof (induction n rule: nat_string.induct)
  case (1 n)
  show ?case
  proof (cases "n < 10")
    case True
    then show ?thesis by (simp add: nat_string.simps [of n])
  next
    case False
    with 1 have "digits_value 0 (nat_string (n div 10)) = Some (n div 10)" by blast
    with False show ?thesis
      by (simp add: nat_string.simps [of n] digits_value_append)
  qed
qed

lemma nat_string_not_Nil [simp]: "nat_string n \<noteq> []"
  by (subst nat_string.simps) simp

lemma nat_string_digits: "c \<in> set (nat_string n) \<Longrightarrow> char_digit c \<noteq> None"
proof (induction n rule: nat_string.induct)
  case (1 n)
  show ?case
  proof (cases "n < 10")
    case True
    with "1.prems" show ?thesis by (simp add: nat_string.simps [of n])
  next
    case False
    with "1.prems" "1.IH" show ?thesis by (auto simp: nat_string.simps [of n])
  qed
qed

lemma char_digit_sign [simp]: "char_digit (CHR ''-'') = None" "char_digit (CHR ''+'') = None"
  by (simp_all add: char_digit_def Let_def)

lemma hd_nat_string: "hd (nat_string n) \<noteq> CHR ''-''" "hd (nat_string n) \<noteq> CHR ''+''"
  using nat_string_digits [OF hd_in_set [OF nat_string_not_Nil]] char_digit_sign by metis+

lemma Atoi_nonneg: "int v \<le> max_int64 \<Longrightarrow> Atoi (nat_string v) = (int v, True)"
  by (simp add: Atoi_def Let_def digits_value_nat_string min_int64_def hd_nat_string)

text \<open>\<open>strconv.Atoi\<close> reads back what \<open>strconv.Itoa\<close> prints.\<close>

lemma Atoi_Itoa:
  assumes "min_int64 \<le> n" and "n \<le> max_int64"
  shows "Atoi (Itoa n) = (n, True)"
proof (cases "n < 0")
  case True
  with assms show ?thesis
    by (auto simp: Itoa_def Atoi_def Let_def digits_value_nat_string)
next
  case False
  with assms Atoi_nonneg [of "nat n"] show ?thesis
    by (simp add: Itoa_def)
qed

lemma nat_string_inject: "nat_string m = nat_string n \<Longrightarrow> m = n"
  using digits_value_nat_string by (metis option.inject)

lemma Itoa_inject: "Itoa m = Itoa n \<Longrightarrow> m = n"
  using hd_nat_string(1) [of "nat m"] hd_nat_string(1) [of "nat n"]
  by (auto simp: Itoa_def split: if_splits dest!: nat_string_inject) (metis list.sel(1))+

lemma Itoa_not_Nil [simp]: "Itoa n \<noteq> []"
  by (simp add: Itoa_def)

lemma Itoa_chars: "c \<in> set (Itoa n) \<Longrightarrow> c = CHR ''-'' \<or> char_digit c \<noteq> None"
  using nat_string_digits [of c] by (auto simp: Itoa_def split: if_splits)

section \<open>Fields round-trip\<close>

text \<open>A word has no space rune starting at any of its bytes.\<close>

fun word_ok :: "string \<Rightarrow> bool" where
  "word_ok [] = True"
| "word_ok (c # cs) = (space_len (c # cs) = 0 \<and> word_ok cs)"

lemma space_len_blank [simp]: "space_len (CHR '' '' # s) = 1"
  by (cases "CHR '' '' # s" rule: space_len.cases) (auto simp: ascii_space_def)

lemma not_space_blank [simp]:
  "\<not> space2 a (CHR '' '')" "\<not> space3 a (CHR '' '') c" "\<not> space3 a b (CHR '' '')"
  by (simp_all add: space2_def space3_def)

lemma space_len_append_blank:
  "space_len (c # cs) = 0 \<Longrightarrow> space_len (c # cs @ CHR '' '' # s) = 0"
  by (cases s; cases "c # cs" rule: space_len.cases) (auto split: if_splits)

lemma fields_from_word:
  "word_ok w \<Longrightarrow> cur @ w \<noteq> [] \<Longrightarrow>
     fields_from cur (w @ CHR '' '' # s) = (cur @ w) # fields_from [] s"
proof (induction w arbitrary: cur)
  case Nil
  then show ?case by (simp add: Let_def del: space_len.simps)
next
  case (Cons c w)
  then have "space_len ((c # w) @ CHR '' '' # s) = 0"
    by (simp add: space_len_append_blank del: space_len.simps)
  with Cons show ?case by (simp add: Let_def del: space_len.simps)
qed

lemma fields_from_last: "word_ok w \<Longrightarrow> cur @ w \<noteq> [] \<Longrightarrow> fields_from cur w = [cur @ w]"
  by (induction w arbitrary: cur) (simp_all add: Let_def del: space_len.simps)

lemma Fields_word: "word_ok w \<Longrightarrow> w \<noteq> [] \<Longrightarrow> Fields (w @ CHR '' '' # s) = w # Fields s"
  using fields_from_word [of w "[]"] by (simp add: Fields_def)

text \<open>Words joined with blanks are read back by \<open>strings.Fields\<close>.\<close>

lemma Fields_Join:
  "\<forall>w \<in> set ws. word_ok w \<and> w \<noteq> [] \<Longrightarrow> Fields (Join ws '' '') = ws"
proof (induction ws "'' ''" rule: Join.induct)
  case 1
  show ?case by (simp add: Fields_def)
next
  case (2 w)
  then show ?case using fields_from_last [of w "[]"] by (simp add: Fields_def)
next
  case (3 w v ws)
  then show ?case by (simp add: Fields_word)
qed

lemma fields_from_nonempty: "[] \<notin> set (fields_from cur s)"
  by (induction cur s rule: fields_from.induct) (auto simp: Let_def simp del: space_len.simps)

lemma Fields_nonempty: "w \<in> set (Fields s) \<Longrightarrow> w \<noteq> []"
  using fields_from_nonempty [of "[]" s] by (auto simp: Fields_def)

section \<open>Trimming ASCII text\<close>

lemma ascii_not_space:
  assumes "ascii_char c"
  shows "\<not> space2 c b" "\<not> space3 c b d" "\<not> space2 a c" "\<not> space3 a b c"
proof -
  have *: "c \<noteq> CHR 0xC2" "c \<noteq> CHR 0xE1" "c \<noteq> CHR 0xE2" "c \<noteq> CHR 0xE3" "c \<noteq> CHR 0x85"
    "c \<noteq> CHR 0xA0" "c \<noteq> CHR 0x80" "c \<noteq> CHR 0xA8" "c \<noteq> CHR 0xA9" "c \<noteq> CHR 0xAF" "c \<noteq> CHR 0x9F"
    "\<not> 128 \<le> (of_char c :: nat)"
    using assms by (auto simp: ascii_char_def)
  show "\<not> space2 c b" "\<not> space2 a c"
    by (simp_all add: space2_def *)
  show "\<not> space3 c b d" "\<not> space3 a b c"
    by (simp_all add: space3_def *)
qed

lemma space_len_ascii: "ascii_char c \<Longrightarrow> space_len (c # s) = (if ascii_space c then 1 else 0)"
  by (cases "c # s" rule: space_len.cases) (simp_all add: ascii_not_space)

lemma last_space_len_ascii:
  assumes "ascii_char c"
  shows "last_space_len (c # r) = (if ascii_space c then 1 else 0)"
proof -
  have "space_len [a, c] \<noteq> 2" "space_len [a, b, c] \<noteq> 3" for a b
    using assms by (simp_all add: ascii_not_space)
  then show ?thesis
    by (cases r; cases "tl r") (simp_all add: last_space_len_def numeral_2_eq_2 numeral_3_eq_3)
qed

text \<open>A text that starts and ends with visible ASCII characters survives with its line end removed.\<close>

lemma TrimSpace_newline:
  assumes "s \<noteq> []" and "ascii_char (hd s)" and "ascii_char (last s)"
    and "\<not> ascii_space (hd s)" and "\<not> ascii_space (last s)"
  shows "TrimSpace (s @ [CHR 0x0A]) = s"
proof -
  obtain c cs where c: "s = c # cs" using assms(1) by (cases s) auto
  obtain z zs where z: "rev s = z # zs" "last s = z"
    using assms(1) by (cases "rev s") (auto simp: last_rev dest: arg_cong [of _ _ last] simp flip: hd_rev)
  have "trim_left (s @ [CHR 0x0A]) = s @ [CHR 0x0A]"
    using assms c by (simp add: space_len_ascii del: space_len.simps)
  moreover have "trim_left_rev (rev (s @ [CHR 0x0A])) = rev s"
    using assms(3,5) z by (simp add: last_space_len_ascii ascii_char_def ascii_space_def)
  ultimately show ?thesis
    by (simp only: TrimSpace_def rev_rev_ident)
qed

lemma TrimSpace_Itoa_line: "TrimSpace (Itoa n @ [CHR 0x0A]) = Itoa n"
proof -
  have "ascii_char c \<and> \<not> ascii_space c" if "c \<in> set (Itoa n)" for c
    using Itoa_chars [OF that] by (auto simp: char_digit_def ascii_char_def ascii_space_def Let_def split: if_splits)
  then show ?thesis
    by (intro TrimSpace_newline) simp_all
qed

end
