(* ===== verification/Model.thy ===== *)
theory Model
  imports Go_Strings
begin

text \<open>
  The daemon's data model, \<open>internal/model/model.go\<close>: one record per struct, fields in the
  source's order with a prefix that names the struct (\<open>s_\<close> for \<open>Session\<close>,
  \<open>p_\<close> for \<open>Process\<close>, and so on). The string enumerations \<open>Status\<close>,
  \<open>Confidence\<close> and \<open>Attention\<close> stay strings: a client may report any value.
  The fields of type \<open>map[string]interface{}\<close> hold dynamic values \<open>goval\<close>;
  a nil map and an empty one are both \<open>[]\<close>, as are a nil slice and an empty one.
\<close>

section \<open>Enumerations\<close>

type_synonym Status = string
type_synonym Confidence = string
type_synonym Attention = string

definition StatusIdle :: Status where "StatusIdle = ''idle''"
definition StatusWorking :: Status where "StatusWorking = ''working''"
definition StatusBlocked :: Status where "StatusBlocked = ''blocked''"
definition StatusReviewable :: Status where "StatusReviewable = ''reviewable''"
definition StatusCompleted :: Status where "StatusCompleted = ''completed''"
definition StatusFailed :: Status where "StatusFailed = ''failed''"
definition StatusStopped :: Status where "StatusStopped = ''stopped''"
definition StatusDisconnected :: Status where "StatusDisconnected = ''disconnected''"
definition StatusUnknown :: Status where "StatusUnknown = ''unknown''"

definition ConfidenceHigh :: Confidence where "ConfidenceHigh = ''high''"
definition ConfidenceMedium :: Confidence where "ConfidenceMedium = ''medium''"
definition ConfidenceLow :: Confidence where "ConfidenceLow = ''low''"
definition ConfidenceUnknown :: Confidence where "ConfidenceUnknown = ''unknown''"

definition AttentionNone :: Attention where "AttentionNone = ''none''"
definition AttentionInput :: Attention where "AttentionInput = ''input''"
definition AttentionReview :: Attention where "AttentionReview = ''review''"
definition AttentionError :: Attention where "AttentionError = ''error''"

lemmas status_defs = StatusIdle_def StatusWorking_def StatusBlocked_def StatusReviewable_def
  StatusCompleted_def StatusFailed_def StatusStopped_def StatusDisconnected_def StatusUnknown_def

lemmas confidence_defs = ConfidenceHigh_def ConfidenceMedium_def ConfidenceLow_def
  ConfidenceUnknown_def

lemmas attention_defs = AttentionNone_def AttentionInput_def AttentionReview_def
  AttentionError_def

lemmas enum_defs = status_defs confidence_defs attention_defs

section \<open>Dynamic values\<close>

text \<open>
  The values an \<open>interface{}\<close> of the program holds: what \<open>encoding/json\<close> decodes
  (nil, booleans, numbers, strings, slices, maps; a number is kept as its literal) and what the
  program stores itself (integers, named strings, slices of strings, maps).
\<close>

datatype goval =
    GNil
  | GBool bool
  | GNumber string
  | GInt int
  | GString string
  | GSlice "goval list"
  | GMap "(string \<times> goval) list"

type_synonym gometa = "(string \<times> goval) list"

section \<open>Structs\<close>

record Agent =
  a_Name :: string
  a_Vendor :: string
  a_Adapter :: string

record Capabilities =
  c_Logs :: bool
  c_Children :: bool
  c_Attach :: bool
  c_Stop :: bool
  c_SendPrompt :: bool
  c_Approvals :: bool

record Session =
  s_ID :: string
  s_Kind :: string
  s_Agent :: Agent
  s_Title :: string
  s_Summary :: string
  s_Status :: Status
  s_Attention :: Attention
  s_StatusDetail :: string
  s_Confidence :: Confidence
  s_Source :: string
  s_CWD :: string
  s_WorkspaceRoots :: "string list"
  s_StartedAt :: time
  s_LastActivityAt :: time
  s_EndedAt :: "time option"
  s_ParentSessionID :: string
  s_RootSessionID :: string
  s_RuntimeIDs :: "string list"
  s_WorkspaceIDs :: "string list"
  s_ArtifactIDs :: "string list"
  s_Capabilities :: Capabilities
  s_Meta :: gometa

record Process =
  p_ID :: string
  p_Kind :: string
  p_PID :: int
  p_PPID :: int
  p_Command :: string
  p_Args :: string
  p_CWD :: string
  p_SessionIDs :: "string list"
  p_Liveness :: string
  p_Source :: string
  p_Confidence :: Confidence
  p_ObservedAt :: time
  p_Meta :: gometa

record Workspace =
  w_ID :: string
  w_Kind :: string
  w_Path :: string
  w_RepoRoot :: string
  w_Branch :: string
  w_SessionIDs :: "string list"
  w_Source :: string
  w_Confidence :: Confidence
  w_ObservedAt :: time
  w_Meta :: gometa

record Edge =
  e_ID :: string
  e_From :: string
  e_To :: string
  e_Type :: string
  e_Source :: string
  e_Confidence :: Confidence
  e_ObservedAt :: time

record Event =
  v_Seq :: int
  v_Type :: string
  v_SessionID :: string
  v_ProcessID :: string
  v_WorkspaceID :: string
  v_EdgeID :: string
  v_Summary :: string
  v_Source :: string
  v_ObservedAt :: time
  v_Data :: gometa

record Source =
  o_ID :: string
  o_Name :: string
  o_Kind :: string
  o_Enabled :: bool
  o_Status :: string
  o_SupportLevel :: string
  o_DetectedVersion :: string
  o_DetectedPath :: string
  o_Capabilities :: "string list"
  o_Diagnostics :: "string list"
  o_ObservedAt :: time
  o_Meta :: gometa

record Lineage =
  l_RootSessionID :: string
  l_Sessions :: "Session list"
  l_Processes :: "Process list"
  l_Workspaces :: "Workspace list"
  l_Edges :: "Edge list"

section \<open>Zero values\<close>

text \<open>The zero value of each struct: what \<open>model.Session{}\<close> or an omitted field holds.\<close>

definition zeroAgent :: Agent where
  "zeroAgent = \<lparr>a_Name = '''', a_Vendor = '''', a_Adapter = ''''\<rparr>"

definition zeroCapabilities :: Capabilities where
  "zeroCapabilities = \<lparr>c_Logs = False, c_Children = False, c_Attach = False, c_Stop = False,
     c_SendPrompt = False, c_Approvals = False\<rparr>"

definition zeroSession :: Session where
  "zeroSession = \<lparr>s_ID = '''', s_Kind = '''', s_Agent = zeroAgent, s_Title = '''', s_Summary = '''',
     s_Status = '''', s_Attention = '''', s_StatusDetail = '''', s_Confidence = '''', s_Source = '''',
     s_CWD = '''', s_WorkspaceRoots = [], s_StartedAt = 0, s_LastActivityAt = 0, s_EndedAt = None,
     s_ParentSessionID = '''', s_RootSessionID = '''', s_RuntimeIDs = [], s_WorkspaceIDs = [],
     s_ArtifactIDs = [], s_Capabilities = zeroCapabilities, s_Meta = []\<rparr>"

definition zeroProcess :: Process where
  "zeroProcess = \<lparr>p_ID = '''', p_Kind = '''', p_PID = 0, p_PPID = 0, p_Command = '''', p_Args = '''',
     p_CWD = '''', p_SessionIDs = [], p_Liveness = '''', p_Source = '''', p_Confidence = '''',
     p_ObservedAt = 0, p_Meta = []\<rparr>"

definition zeroWorkspace :: Workspace where
  "zeroWorkspace = \<lparr>w_ID = '''', w_Kind = '''', w_Path = '''', w_RepoRoot = '''', w_Branch = '''',
     w_SessionIDs = [], w_Source = '''', w_Confidence = '''', w_ObservedAt = 0, w_Meta = []\<rparr>"

definition zeroEdge :: Edge where
  "zeroEdge = \<lparr>e_ID = '''', e_From = '''', e_To = '''', e_Type = '''', e_Source = '''',
     e_Confidence = '''', e_ObservedAt = 0\<rparr>"

definition zeroEvent :: Event where
  "zeroEvent = \<lparr>v_Seq = 0, v_Type = '''', v_SessionID = '''', v_ProcessID = '''',
     v_WorkspaceID = '''', v_EdgeID = '''', v_Summary = '''', v_Source = '''', v_ObservedAt = 0,
     v_Data = []\<rparr>"

definition zeroSource :: Source where
  "zeroSource = \<lparr>o_ID = '''', o_Name = '''', o_Kind = '''', o_Enabled = False, o_Status = '''',
     o_SupportLevel = '''', o_DetectedVersion = '''', o_DetectedPath = '''', o_Capabilities = [],
     o_Diagnostics = [], o_ObservedAt = 0, o_Meta = []\<rparr>"

lemmas zero_defs = zeroAgent_def zeroCapabilities_def zeroSession_def zeroProcess_def
  zeroWorkspace_def zeroEdge_def zeroEvent_def zeroSource_def

end
