(* ===== verification/Store.thy ===== *)
theory Store
  imports Model
begin

text \<open>
  The in-memory store, \<open>internal/store/store.go\<close>. A \<open>Store\<close> is the Go struct with the
  lock left out (each operation below is one goroutine running alone; the theory \<open>Pubsub\<close>
  splits \<open>appendEvent\<close>, \<open>Subscribe\<close> and \<open>cancel\<close> at the lock and interleaves
  them) and the heap of channels made explicit: \<open>subscribers\<close> maps a subscription to the
  address of its channel in \<open>chans\<close>. A send on a closed channel panics, which the flag
  \<open>panicked\<close> records.

  \<open>time.Now()\<close> is an argument: \<open>now\<close> for the reading an operation takes itself and
  \<open>now'\<close> for the one \<open>appendEvent\<close> takes. An operation that ranges over a map takes
  the iteration order \<open>ord\<close>.
\<close>

section \<open>State\<close>

record channel =
  ch_buf :: "Event list"
  ch_closed :: bool

definition channel_cap :: nat where
  "channel_cap = 128"

record Store =
  sessions :: "(string, Session) gomap"
  workspaces :: "(string, Workspace) gomap"
  edges :: "(string, Edge) gomap"
  sources :: "(string, Source) gomap"
  events :: "Event list"
  nextSeq :: int
  subscribers :: "(int, nat) gomap"
  nextSubID :: int
  maxEvents :: nat
  chans :: "channel list"
  panicked :: bool

definition New :: Store where
  "New = \<lparr>sessions = [], workspaces = [], edges = [], sources = [], events = [], nextSeq = 0,
     subscribers = [], nextSubID = 0, maxEvents = 5000, chans = [], panicked = False\<rparr>"

section \<open>Events and subscribers\<close>

text \<open>The critical section of \<open>appendEvent\<close>: number, append, trim, copy the channels.\<close>

definition appendEvent_locked :: "Event \<Rightarrow> Store \<Rightarrow> Event \<times> nat list \<times> Store" where
  "appendEvent_locked event s =
     (let seq = wrap64 (nextSeq s + 1);
          event = event\<lparr>v_Seq := seq\<rparr>;
          es = events s @ [event];
          es = (if length es > maxEvents s then drop (length es - maxEvents s) es else es)
      in (event, map snd (subscribers s), s\<lparr>nextSeq := seq, events := es\<rparr>))"

text \<open>\<open>select { case ch <- event: default: }\<close>\<close>

definition trySend :: "Event \<Rightarrow> nat \<Rightarrow> Store \<Rightarrow> Store" where
  "trySend event ch s =
     (if panicked s \<or> length (chans s) \<le> ch then s
      else let c = chans s ! ch
           in if ch_closed c then s\<lparr>panicked := True\<rparr>
              else if length (ch_buf c) < channel_cap
              then s\<lparr>chans := (chans s)[ch := c\<lparr>ch_buf := ch_buf c @ [event]\<rparr>]\<rparr>
              else s)"

definition stampEvent :: "time \<Rightarrow> Event \<Rightarrow> Event" where
  "stampEvent now event = event\<lparr>v_ObservedAt := or_time (v_ObservedAt event) now\<rparr>"

definition appendEvent :: "time \<Rightarrow> Event \<Rightarrow> Store \<Rightarrow> Event \<times> Store" where
  "appendEvent now event s =
     (case appendEvent_locked (stampEvent now event) s of
        (event', subs, s') \<Rightarrow> (event', fold (trySend event') subs s'))"

definition AppendEvent :: "time \<Rightarrow> Event \<Rightarrow> Store \<Rightarrow> Event \<times> Store" where
  "AppendEvent now event s = appendEvent now event s"

definition ListEvents :: "int \<Rightarrow> int \<Rightarrow> Store \<Rightarrow> Event list" where
  "ListEvents since limit s =
     (let out = filter (\<lambda>e. v_Seq e > since) (events s)
      in if limit > 0 \<and> int (length out) > limit
         then drop (length out - nat limit) out else out)"

text \<open>
  \<open>Subscribe\<close> returns the subscription, its channel and the backlog that the goroutine it
  starts sends into the channel; \<open>cancel\<close> is the closure it returns.
\<close>

definition Subscribe :: "int \<Rightarrow> Store \<Rightarrow> int \<times> nat \<times> Event list \<times> Store" where
  "Subscribe since s =
     (let ch = length (chans s);
          id' = nextSubID s;
          backlog = filter (\<lambda>e. v_Seq e > since) (events s)
      in (id', ch, backlog,
          s\<lparr>chans := chans s @ [\<lparr>ch_buf = [], ch_closed = False\<rparr>],
            nextSubID := wrap64 (id' + 1),
            subscribers := gm_put id' ch (subscribers s)\<rparr>))"

definition cancel :: "int \<Rightarrow> Store \<Rightarrow> Store" where
  "cancel id' s =
     (case gm_get (subscribers s) id' of
        None \<Rightarrow> s
      | Some ch \<Rightarrow>
          s\<lparr>subscribers := gm_del id' (subscribers s),
            chans := (chans s)[ch := (chans s ! ch)\<lparr>ch_closed := True\<rparr>]\<rparr>)"

text \<open>A receive \<open>event, ok := <-ch\<close> by the subscriber that finds an event in the buffer.\<close>

definition recvEvent :: "nat \<Rightarrow> Store \<Rightarrow> Event option \<times> Store" where
  "recvEvent ch s =
     (if length (chans s) \<le> ch then (None, s)
      else case ch_buf (chans s ! ch) of
        [] \<Rightarrow> (None, s)
      | e # es \<Rightarrow> (Some e, s\<lparr>chans := (chans s)[ch := (chans s ! ch)\<lparr>ch_buf := es\<rparr>]\<rparr>))"

section \<open>Sessions\<close>

definition deriveAttention :: "Status \<Rightarrow> Attention" where
  "deriveAttention status =
     (if status = StatusBlocked then AttentionInput
      else if status = StatusReviewable then AttentionReview
      else if status = StatusFailed \<or> status = StatusDisconnected then AttentionError
      else AttentionNone)"

definition isTerminal :: "Status \<Rightarrow> bool" where
  "isTerminal status \<longleftrightarrow>
     status = StatusCompleted \<or> status = StatusFailed \<or> status = StatusStopped"

definition attentionRank :: "Session \<Rightarrow> nat" where
  "attentionRank session =
     (if s_Attention session = AttentionInput \<or> s_Attention session = AttentionError then 0
      else if s_Attention session = AttentionReview then 1
      else if s_Status session = StatusWorking then 2
      else if s_Status session = StatusIdle then 3
      else 4)"

definition sessionMatchesWorkspace :: "Session \<Rightarrow> string \<Rightarrow> bool" where
  "sessionMatchesWorkspace session query \<longleftrightarrow>
     Contains (s_CWD session) query \<or>
     list_ex (\<lambda>root. Contains root query) (s_WorkspaceRoots session) \<or>
     list_ex (\<lambda>id'. Contains id' query) (s_WorkspaceIDs session)"

text \<open>The defaults \<open>UpsertSession\<close> fills in, in the order of the source; \<open>or_default v d\<close>
  is \<open>if v == "" { v = d }\<close>.\<close>

definition defaultSession :: "time \<Rightarrow> Session \<Rightarrow> Session" where
  "defaultSession now session =
     (let session = session\<lparr>s_Kind := or_default (s_Kind session) ''session''\<rparr>;
          session = session\<lparr>s_Status := or_default (s_Status session) StatusUnknown\<rparr>;
          session = session\<lparr>s_Attention :=
            or_default (s_Attention session) (deriveAttention (s_Status session))\<rparr>;
          session = session\<lparr>s_Confidence := or_default (s_Confidence session) ConfidenceUnknown\<rparr>;
          session = session\<lparr>s_Source := or_default (s_Source session) ''native''\<rparr>;
          session = session\<lparr>s_LastActivityAt := or_time (s_LastActivityAt session) now\<rparr>;
          session = session\<lparr>s_StartedAt :=
            or_time (s_StartedAt session) (s_LastActivityAt session)\<rparr>
      in session\<lparr>s_RootSessionID :=
           or_default (s_RootSessionID session)
             (if s_ParentSessionID session \<noteq> '''' then s_ParentSessionID session
              else s_ID session)\<rparr>)"

definition sessionEvent :: "Session option \<Rightarrow> Session \<Rightarrow> Event" where
  "sessionEvent old session =
     (let (eventType, summary) =
        (case old of
           None \<Rightarrow> (''session.started'', ''session started'')
         | Some o' \<Rightarrow>
             if s_Status o' \<noteq> s_Status session
             then (''status.changed'', s_Status o' @ '' -> '' @ s_Status session)
             else (''session.upserted'', ''session upserted''))
      in zeroEvent\<lparr>v_Type := eventType, v_SessionID := s_ID session, v_Summary := summary,
           v_Source := s_Source session,
           v_Data := [(''status'', GString (s_Status session)),
                      (''attention'', GString (s_Attention session))]\<rparr>)"

definition UpsertSession :: "time \<Rightarrow> time \<Rightarrow> Session \<Rightarrow> Store \<Rightarrow> Session \<times> Store" where
  "UpsertSession now now' session s =
     (if s_ID session = '''' then (session, s)
      else let session = defaultSession now session;
               old = gm_get (sessions s) (s_ID session);
               s = s\<lparr>sessions := gm_put (s_ID session) session (sessions s)\<rparr>
           in (session, snd (appendEvent now' (sessionEvent old session) s)))"

definition RemoveSession :: "time \<Rightarrow> string \<Rightarrow> Store \<Rightarrow> bool \<times> Store" where
  "RemoveSession now' id' s =
     (let existed = gm_get (sessions s) id' \<noteq> None
      in if existed
         then (True, snd (appendEvent now'
                (zeroEvent\<lparr>v_Type := ''session.removed'', v_SessionID := id',
                   v_Summary := ''session removed'', v_Source := ''native''\<rparr>)
                (s\<lparr>sessions := gm_del id' (sessions s)\<rparr>)))
         else (False, s))"

text \<open>A lookup that misses returns \<open>ErrNotFound\<close>, here \<open>None\<close>.\<close>

definition GetSession :: "string \<Rightarrow> Store \<Rightarrow> Session option" where
  "GetSession id' s = gm_get (sessions s) id'"

record SessionFilter =
  f_All :: bool
  f_Status :: "string list"
  f_Workspace :: string
  f_Source :: string

definition keepSession :: "SessionFilter \<Rightarrow> Session \<Rightarrow> bool" where
  "keepSession flt session =
     (let statuses = filter (\<lambda>x. x \<noteq> '''') (f_Status flt)
      in if \<not> f_All flt \<and> isTerminal (s_Status session) then False
         else if statuses \<noteq> [] \<and> s_Status session \<notin> set statuses then False
         else if f_Source flt \<noteq> '''' \<and> s_Source session \<noteq> f_Source flt \<and>
           a_Adapter (s_Agent session) \<noteq> f_Source flt then False
         else if f_Workspace flt \<noteq> '''' \<and> \<not> sessionMatchesWorkspace session (f_Workspace flt)
         then False
         else True)"

definition sessionLess :: "Session \<Rightarrow> Session \<Rightarrow> bool" where
  "sessionLess x y =
     (let ai = attentionRank x; aj = attentionRank y
      in if ai \<noteq> aj then ai < aj else After (s_LastActivityAt x) (s_LastActivityAt y))"

definition ListSessions :: "nat list \<Rightarrow> SessionFilter \<Rightarrow> Store \<Rightarrow> Session list" where
  "ListSessions ord flt s =
     sort_slice sessionLess (filter (keepSession flt) (gm_range ord (sessions s)))"

section \<open>Workspaces\<close>

definition defaultWorkspace :: "time \<Rightarrow> Workspace \<Rightarrow> Workspace" where
  "defaultWorkspace now workspace =
     (let workspace = workspace\<lparr>w_ID :=
            or_default (w_ID workspace) (''workspace:'' @ w_Path workspace)\<rparr>;
          workspace = workspace\<lparr>w_Kind := or_default (w_Kind workspace) ''workspace''\<rparr>;
          workspace = workspace\<lparr>w_Source := or_default (w_Source workspace) ''native''\<rparr>;
          workspace = workspace\<lparr>w_Confidence :=
            or_default (w_Confidence workspace) ConfidenceUnknown\<rparr>
      in workspace\<lparr>w_ObservedAt := or_time (w_ObservedAt workspace) now\<rparr>)"

definition UpsertWorkspace :: "time \<Rightarrow> time \<Rightarrow> Workspace \<Rightarrow> Store \<Rightarrow> Workspace \<times> Store" where
  "UpsertWorkspace now now' workspace s =
     (let workspace = defaultWorkspace now workspace;
          existed = gm_get (workspaces s) (w_ID workspace) \<noteq> None;
          s = s\<lparr>workspaces := gm_put (w_ID workspace) workspace (workspaces s)\<rparr>;
          eventType = (if existed then ''workspace.upserted'' else ''workspace.discovered'')
      in (workspace, snd (appendEvent now'
            (zeroEvent\<lparr>v_Type := eventType, v_WorkspaceID := w_ID workspace,
               v_Summary := w_Path workspace, v_Source := w_Source workspace\<rparr>) s)))"

definition GetWorkspace :: "string \<Rightarrow> Store \<Rightarrow> Workspace option" where
  "GetWorkspace id' s = gm_get (workspaces s) id'"

definition workspaceLess :: "Workspace \<Rightarrow> Workspace \<Rightarrow> bool" where
  "workspaceLess x y \<longleftrightarrow> w_Path x < w_Path y"

definition ListWorkspaces :: "nat list \<Rightarrow> Store \<Rightarrow> Workspace list" where
  "ListWorkspaces ord s = sort_slice workspaceLess (gm_range ord (workspaces s))"

section \<open>Edges\<close>

definition defaultEdge :: "time \<Rightarrow> Edge \<Rightarrow> Edge" where
  "defaultEdge now edge =
     (let edge = edge\<lparr>e_ID := or_default (e_ID edge)
            (e_Type edge @ '':'' @ e_From edge @ ''->'' @ e_To edge)\<rparr>;
          edge = edge\<lparr>e_Source := or_default (e_Source edge) ''native''\<rparr>;
          edge = edge\<lparr>e_Confidence := or_default (e_Confidence edge) ConfidenceUnknown\<rparr>
      in edge\<lparr>e_ObservedAt := or_time (e_ObservedAt edge) now\<rparr>)"

definition UpsertEdge :: "time \<Rightarrow> time \<Rightarrow> Edge \<Rightarrow> Store \<Rightarrow> Edge \<times> Store" where
  "UpsertEdge now now' edge s =
     (let edge = defaultEdge now edge;
          existed = gm_get (edges s) (e_ID edge) \<noteq> None;
          s = s\<lparr>edges := gm_put (e_ID edge) edge (edges s)\<rparr>;
          eventType = (if \<not> existed \<and> (e_Type edge = ''spawned_by'' \<or> e_Type edge = ''delegated_by'')
                       then ''child.spawned'' else ''graph.edge_upserted'')
      in (edge, snd (appendEvent now'
            (zeroEvent\<lparr>v_Type := eventType, v_EdgeID := e_ID edge,
               v_Summary := e_Type edge @ '' '' @ e_From edge @ '' -> '' @ e_To edge,
               v_Source := e_Source edge\<rparr>) s)))"

definition edgeLess :: "Edge \<Rightarrow> Edge \<Rightarrow> bool" where
  "edgeLess x y \<longleftrightarrow> Before (e_ObservedAt x) (e_ObservedAt y)"

definition ListEdges :: "nat list \<Rightarrow> Store \<Rightarrow> Edge list" where
  "ListEdges ord s = sort_slice edgeLess (gm_range ord (edges s))"

definition RemoveEdge :: "time \<Rightarrow> string \<Rightarrow> Store \<Rightarrow> bool \<times> Store" where
  "RemoveEdge now' id' s =
     (let existed = gm_get (edges s) id' \<noteq> None
      in if existed
         then (True, snd (appendEvent now'
                (zeroEvent\<lparr>v_Type := ''graph.edge_removed'', v_EdgeID := id',
                   v_Summary := ''edge removed'', v_Source := ''native''\<rparr>)
                (s\<lparr>edges := gm_del id' (edges s)\<rparr>)))
         else (False, s))"

section \<open>Lineage\<close>

definition startedLess :: "Session \<Rightarrow> Session \<Rightarrow> bool" where
  "startedLess x y \<longleftrightarrow> Before (s_StartedAt x) (s_StartedAt y)"

definition inLineage :: "string \<Rightarrow> Session \<Rightarrow> bool" where
  "inLineage rootID session \<longleftrightarrow>
     rootID = '''' \<or> s_ID session = rootID \<or> s_RootSessionID session = rootID \<or>
     s_ParentSessionID session = rootID"

text \<open>
  The three orders are those of the iterations over sessions, edges and workspaces. The source reads
  \<open>sessions\<close> for its two sets before it sorts it.
\<close>

definition LineageOf :: "nat list \<Rightarrow> nat list \<Rightarrow> nat list \<Rightarrow> string \<Rightarrow> Store \<Rightarrow> Lineage" where
  "LineageOf ord1 ord2 ord3 rootID s =
     (let includeAll = (rootID = '''');
          ss = filter (inLineage rootID) (gm_range ord1 (sessions s));
          sessionSet = map s_ID ss;
          es = filter (\<lambda>e. includeAll \<or> e_From e \<in> set sessionSet \<or> e_To e \<in> set sessionSet)
                 (gm_range ord2 (edges s));
          workspaceSet = concat (map s_WorkspaceIDs ss);
          ws = map snd (filter (\<lambda>(id', w). id' \<in> set workspaceSet) (permute ord3 (workspaces s)))
      in \<lparr>l_RootSessionID = rootID, l_Sessions = sort_slice startedLess ss, l_Processes = [],
          l_Workspaces = ws, l_Edges = es\<rparr>)"

section \<open>Sources\<close>

definition defaultSource :: "time \<Rightarrow> Source \<Rightarrow> Source" where
  "defaultSource now source = source\<lparr>o_ObservedAt := or_time (o_ObservedAt source) now\<rparr>"

definition UpsertSource :: "time \<Rightarrow> Source \<Rightarrow> Store \<Rightarrow> Source \<times> Store" where
  "UpsertSource now source s =
     (if o_ID source = '''' then (source, s)
      else let source = defaultSource now source
           in (source, s\<lparr>sources := gm_put (o_ID source) source (sources s)\<rparr>))"

definition GetSource :: "string \<Rightarrow> Store \<Rightarrow> Source option" where
  "GetSource id' s = gm_get (sources s) id'"

definition sourceLess :: "Source \<Rightarrow> Source \<Rightarrow> bool" where
  "sourceLess x y \<longleftrightarrow> o_ID x < o_ID y"

definition ListSources :: "nat list \<Rightarrow> Store \<Rightarrow> Source list" where
  "ListSources ord s = sort_slice sourceLess (gm_range ord (sources s))"

end
