(* ===== verification/Store_Laws.thy ===== *)
theory Store_Laws
  imports Store
begin

text \<open>
  What each operation of the store does to each field. The four tables have one contract, stated as
  the locale \<open>keyed_table\<close> with extensions for removal and listing, and interpreted for the
  sessions, workspaces, edges and sources of the store.
\<close>

section \<open>Frames\<close>

lemma trySend_frame [store_frame]:
  "sessions (trySend e ch s) = sessions s"
  "workspaces (trySend e ch s) = workspaces s"
  "edges (trySend e ch s) = edges s"
  "sources (trySend e ch s) = sources s"
  "events (trySend e ch s) = events s"
  "nextSeq (trySend e ch s) = nextSeq s"
  "subscribers (trySend e ch s) = subscribers s"
  "nextSubID (trySend e ch s) = nextSubID s"
  "maxEvents (trySend e ch s) = maxEvents s"
  "length (chans (trySend e ch s)) = length (chans s)"
  by (simp_all add: trySend_def Let_def)

lemma fold_trySend_frame [store_frame]:
  "sessions (fold (trySend e) chs s) = sessions s"
  "workspaces (fold (trySend e) chs s) = workspaces s"
  "edges (fold (trySend e) chs s) = edges s"
  "sources (fold (trySend e) chs s) = sources s"
  "events (fold (trySend e) chs s) = events s"
  "nextSeq (fold (trySend e) chs s) = nextSeq s"
  "subscribers (fold (trySend e) chs s) = subscribers s"
  "nextSubID (fold (trySend e) chs s) = nextSubID s"
  "maxEvents (fold (trySend e) chs s) = maxEvents s"
  "length (chans (fold (trySend e) chs s)) = length (chans s)"
  by (induction chs arbitrary: s) (simp_all add: store_frame)

text \<open>The log after one more event: the newest \<open>maxEvents\<close> entries.\<close>

definition trimEvents :: "nat \<Rightarrow> Event list \<Rightarrow> Event list" where
  "trimEvents n es = drop (length es - n) es"

lemma trimEvents_eq: "trimEvents n es = (if length es > n then drop (length es - n) es else es)"
  by (simp add: trimEvents_def)

definition numbered :: "time \<Rightarrow> Event \<Rightarrow> Store \<Rightarrow> Event" where
  "numbered now event s = (stampEvent now event)\<lparr>v_Seq := wrap64 (nextSeq s + 1)\<rparr>"

lemma appendEvent_frame [store_frame]:
  "sessions (snd (appendEvent now e s)) = sessions s"
  "workspaces (snd (appendEvent now e s)) = workspaces s"
  "edges (snd (appendEvent now e s)) = edges s"
  "sources (snd (appendEvent now e s)) = sources s"
  "subscribers (snd (appendEvent now e s)) = subscribers s"
  "nextSubID (snd (appendEvent now e s)) = nextSubID s"
  "maxEvents (snd (appendEvent now e s)) = maxEvents s"
  "length (chans (snd (appendEvent now e s))) = length (chans s)"
  by (simp_all add: appendEvent_def appendEvent_locked_def Let_def store_frame)

lemma appendEvent_result [store_frame]: "fst (appendEvent now e s) = numbered now e s"
  by (simp add: appendEvent_def appendEvent_locked_def numbered_def Let_def)

lemma appendEvent_log [store_frame]:
  "events (snd (appendEvent now e s)) = trimEvents (maxEvents s) (events s @ [numbered now e s])"
  "nextSeq (snd (appendEvent now e s)) = wrap64 (nextSeq s + 1)"
  by (simp_all add: appendEvent_def appendEvent_locked_def numbered_def trimEvents_eq Let_def
      store_frame)

lemma UpsertSession_frame [store_frame]:
  "workspaces (snd (UpsertSession n m x s)) = workspaces s"
  "edges (snd (UpsertSession n m x s)) = edges s"
  "sources (snd (UpsertSession n m x s)) = sources s"
  "subscribers (snd (UpsertSession n m x s)) = subscribers s"
  "maxEvents (snd (UpsertSession n m x s)) = maxEvents s"
  by (simp_all add: UpsertSession_def Let_def store_frame)

lemma RemoveSession_frame [store_frame]:
  "workspaces (snd (RemoveSession m k s)) = workspaces s"
  "edges (snd (RemoveSession m k s)) = edges s"
  "sources (snd (RemoveSession m k s)) = sources s"
  "subscribers (snd (RemoveSession m k s)) = subscribers s"
  "maxEvents (snd (RemoveSession m k s)) = maxEvents s"
  by (simp_all add: RemoveSession_def Let_def store_frame)

lemma UpsertWorkspace_frame [store_frame]:
  "sessions (snd (UpsertWorkspace n m x s)) = sessions s"
  "edges (snd (UpsertWorkspace n m x s)) = edges s"
  "sources (snd (UpsertWorkspace n m x s)) = sources s"
  "subscribers (snd (UpsertWorkspace n m x s)) = subscribers s"
  "maxEvents (snd (UpsertWorkspace n m x s)) = maxEvents s"
  by (simp_all add: UpsertWorkspace_def Let_def store_frame)

lemma UpsertEdge_frame [store_frame]:
  "sessions (snd (UpsertEdge n m x s)) = sessions s"
  "workspaces (snd (UpsertEdge n m x s)) = workspaces s"
  "sources (snd (UpsertEdge n m x s)) = sources s"
  "subscribers (snd (UpsertEdge n m x s)) = subscribers s"
  "maxEvents (snd (UpsertEdge n m x s)) = maxEvents s"
  by (simp_all add: UpsertEdge_def Let_def store_frame)

lemma RemoveEdge_frame [store_frame]:
  "sessions (snd (RemoveEdge m k s)) = sessions s"
  "workspaces (snd (RemoveEdge m k s)) = workspaces s"
  "sources (snd (RemoveEdge m k s)) = sources s"
  "subscribers (snd (RemoveEdge m k s)) = subscribers s"
  "maxEvents (snd (RemoveEdge m k s)) = maxEvents s"
  by (simp_all add: RemoveEdge_def Let_def store_frame)

lemma UpsertSource_frame [store_frame]:
  "sessions (snd (UpsertSource n x s)) = sessions s"
  "workspaces (snd (UpsertSource n x s)) = workspaces s"
  "edges (snd (UpsertSource n x s)) = edges s"
  "events (snd (UpsertSource n x s)) = events s"
  "nextSeq (snd (UpsertSource n x s)) = nextSeq s"
  "subscribers (snd (UpsertSource n x s)) = subscribers s"
  "nextSubID (snd (UpsertSource n x s)) = nextSubID s"
  "maxEvents (snd (UpsertSource n x s)) = maxEvents s"
  "chans (snd (UpsertSource n x s)) = chans s"
  "panicked (snd (UpsertSource n x s)) = panicked s"
  by (simp_all add: UpsertSource_def Let_def)

lemma Subscribe_frame [store_frame]:
  assumes "Subscribe since s = (i, ch, backlog, s')"
  shows "sessions s' = sessions s" "workspaces s' = workspaces s" "edges s' = edges s"
    "sources s' = sources s" "events s' = events s" "nextSeq s' = nextSeq s"
    "maxEvents s' = maxEvents s" "panicked s' = panicked s"
  using assms by (auto simp: Subscribe_def Let_def)

lemma cancel_frame [store_frame]:
  "sessions (cancel i s) = sessions s" "workspaces (cancel i s) = workspaces s"
  "edges (cancel i s) = edges s" "sources (cancel i s) = sources s"
  "events (cancel i s) = events s" "nextSeq (cancel i s) = nextSeq s"
  "maxEvents (cancel i s) = maxEvents s" "panicked (cancel i s) = panicked s"
  by (simp_all add: cancel_def split: option.splits)

section \<open>Defaults\<close>

lemma defaultSession_ID [simp]: "s_ID (defaultSession now x) = s_ID x"
  by (simp add: defaultSession_def Let_def)

lemma defaultSession_fields:
  "s_Kind (defaultSession now x) = or_default (s_Kind x) ''session''"
  "s_Status (defaultSession now x) = or_default (s_Status x) StatusUnknown"
  "s_Attention (defaultSession now x) =
     or_default (s_Attention x) (deriveAttention (or_default (s_Status x) StatusUnknown))"
  "s_Confidence (defaultSession now x) = or_default (s_Confidence x) ConfidenceUnknown"
  "s_Source (defaultSession now x) = or_default (s_Source x) ''native''"
  "s_LastActivityAt (defaultSession now x) = or_time (s_LastActivityAt x) now"
  "s_StartedAt (defaultSession now x) = or_time (s_StartedAt x) (or_time (s_LastActivityAt x) now)"
  "s_RootSessionID (defaultSession now x) = or_default (s_RootSessionID x)
     (if s_ParentSessionID x \<noteq> '''' then s_ParentSessionID x else s_ID x)"
  "s_ParentSessionID (defaultSession now x) = s_ParentSessionID x"
  "s_WorkspaceIDs (defaultSession now x) = s_WorkspaceIDs x"
  "s_CWD (defaultSession now x) = s_CWD x"
  "s_Meta (defaultSession now x) = s_Meta x"
  "s_RuntimeIDs (defaultSession now x) = s_RuntimeIDs x"
  by (simp_all add: defaultSession_def Let_def)

lemma deriveAttention_nonempty [simp]: "deriveAttention st \<noteq> ''''"
  by (simp add: deriveAttention_def attention_defs)

text \<open>The fields a stored session always has.\<close>

definition session_complete :: "Session \<Rightarrow> bool" where
  "session_complete x \<longleftrightarrow>
     s_ID x \<noteq> '''' \<and> s_Kind x \<noteq> '''' \<and> s_Status x \<noteq> '''' \<and> s_Attention x \<noteq> '''' \<and>
     s_Confidence x \<noteq> '''' \<and> s_Source x \<noteq> '''' \<and> s_RootSessionID x \<noteq> ''''"

lemma defaultSession_complete: "s_ID x \<noteq> '''' \<Longrightarrow> session_complete (defaultSession now x)"
  by (simp add: session_complete_def defaultSession_fields StatusUnknown_def
      ConfidenceUnknown_def)

lemma defaultSession_id:
  "session_complete x \<Longrightarrow> s_LastActivityAt x \<noteq> 0 \<Longrightarrow> s_StartedAt x \<noteq> 0 \<Longrightarrow>
     defaultSession now x = x"
  by (simp add: session_complete_def defaultSession_def Let_def)

lemma defaultSession_idem:
  assumes "now \<noteq> 0" and "s_ID x \<noteq> ''''"
  shows "defaultSession now' (defaultSession now x) = defaultSession now x"
proof (rule defaultSession_id)
  show "session_complete (defaultSession now x)"
    by (rule defaultSession_complete [OF assms(2)])
  show "s_LastActivityAt (defaultSession now x) \<noteq> 0" "s_StartedAt (defaultSession now x) \<noteq> 0"
    using assms(1) by (simp_all add: defaultSession_fields)
qed

lemma defaultWorkspace_fields:
  "w_ID (defaultWorkspace now x) = or_default (w_ID x) (''workspace:'' @ w_Path x)"
  "w_Path (defaultWorkspace now x) = w_Path x"
  by (simp_all add: defaultWorkspace_def Let_def)

lemma defaultWorkspace_idem:
  "now \<noteq> 0 \<Longrightarrow> defaultWorkspace now' (defaultWorkspace now x) = defaultWorkspace now x"
  by (simp add: defaultWorkspace_def Let_def ConfidenceUnknown_def)

lemma defaultEdge_fields:
  "e_ID (defaultEdge now x) =
     or_default (e_ID x) (e_Type x @ '':'' @ e_From x @ ''->'' @ e_To x)"
  "e_From (defaultEdge now x) = e_From x"
  "e_To (defaultEdge now x) = e_To x"
  "e_Type (defaultEdge now x) = e_Type x"
  by (simp_all add: defaultEdge_def Let_def)

lemma defaultEdge_idem:
  "now \<noteq> 0 \<Longrightarrow> defaultEdge now' (defaultEdge now x) = defaultEdge now x"
  by (simp add: defaultEdge_def Let_def ConfidenceUnknown_def)

lemma defaultSource_ID [simp]: "o_ID (defaultSource now x) = o_ID x"
  by (simp add: defaultSource_def)

lemma defaultSource_idem:
  "now \<noteq> 0 \<Longrightarrow> defaultSource now' (defaultSource now x) = defaultSource now x"
  by (simp add: defaultSource_def)

section \<open>The contract of a table\<close>

text \<open>
  A table of the store: records under their own key, an \<open>upsert\<close> that fills in defaults
  (\<open>norm\<close>) and stores the result, for the records it accepts.
\<close>

locale keyed_table =
  fixes table :: "'s \<Rightarrow> (string, 'r) gomap"
    and key :: "'r \<Rightarrow> string"
    and accepted :: "'r \<Rightarrow> bool"
    and norm :: "time \<Rightarrow> 'r \<Rightarrow> 'r"
    and upsert :: "time \<Rightarrow> time \<Rightarrow> 'r \<Rightarrow> 's \<Rightarrow> 'r \<times> 's"
  assumes upsert_table: "accepted r \<Longrightarrow>
      table (snd (upsert n m r s)) = gm_put (key (norm n r)) (norm n r) (table s)"
    and upsert_result: "accepted r \<Longrightarrow> fst (upsert n m r s) = norm n r"
    and upsert_rejected: "\<not> accepted r \<Longrightarrow> upsert n m r s = (r, s)"
    and norm_accepted: "accepted r \<Longrightarrow> accepted (norm n r)"
    and norm_idem: "n \<noteq> 0 \<Longrightarrow> accepted r \<Longrightarrow> norm n' (norm n r) = norm n r"
begin

lemma keyed_upsert: "gm_keyed key (table s) \<Longrightarrow> gm_keyed key (table (snd (upsert n m r s)))"
  by (cases "accepted r") (simp_all add: upsert_table upsert_rejected)

lemma get_upsert:
  "accepted r \<Longrightarrow> gm_get (table (snd (upsert n m r s))) k =
     (if k = key (norm n r) then Some (norm n r) else gm_get (table s) k)"
  by (simp add: upsert_table)

lemma get_upsert_same:
  "accepted r \<Longrightarrow> upsert n m r s = (r', s') \<Longrightarrow> gm_get (table s') (key r') = Some r'"
  using get_upsert [of r n m s] upsert_result [of r n m s] by (metis fst_conv snd_conv)

lemma get_upsert_other:
  "accepted r \<Longrightarrow> upsert n m r s = (r', s') \<Longrightarrow> k \<noteq> key r' \<Longrightarrow>
     gm_get (table s') k = gm_get (table s) k"
  using get_upsert [of r n m s k] upsert_result [of r n m s] by (metis fst_conv snd_conv)

text \<open>Upserting the answer of an upsert changes no record.\<close>

lemma upsert_again:
  assumes "accepted r" and "n \<noteq> 0" and "upsert n m r s = (r', s')"
  shows "gm_get (table (snd (upsert n2 m2 r' s'))) = gm_get (table s')"
proof -
  have r': "r' = norm n r"
    using upsert_result [OF assms(1), of n m s] assms(3) by simp
  have "gm_get (table s') (key r') = Some r'"
    by (rule get_upsert_same [OF assms(1,3)])
  moreover have "norm n2 r' = r'"
    using norm_idem [OF assms(2,1)] r' by simp
  ultimately show ?thesis
    using upsert_table [OF norm_accepted [OF assms(1), of n], of n2 m2 s'] r'
    by (auto simp: fun_eq_iff)
qed

lemma keys_upsert:
  "accepted r \<Longrightarrow> dom (gm_get (table (snd (upsert n m r s)))) =
     insert (key (norm n r)) (dom (gm_get (table s)))"
  by (auto simp: upsert_table dom_def)

end

text \<open>A table whose records can be deleted.\<close>

locale removable_table = keyed_table table key accepted norm upsert
  for table :: "'s \<Rightarrow> (string, 'r) gomap" and key accepted norm upsert +
  fixes remove :: "time \<Rightarrow> string \<Rightarrow> 's \<Rightarrow> bool \<times> 's"
  assumes remove_table: "gm_get (table (snd (remove m k s))) = (gm_get (table s))(k := None)"
    and remove_result: "fst (remove m k s) \<longleftrightarrow> gm_get (table s) k \<noteq> None"
    and remove_absent: "gm_get (table s) k = None \<Longrightarrow> remove m k s = (False, s)"
    and remove_inv: "gm_inv (table s) \<Longrightarrow> gm_inv (table (snd (remove m k s)))"
begin

lemma keyed_remove: "gm_keyed key (table s) \<Longrightarrow> gm_keyed key (table (snd (remove m k s)))"
  by (simp add: gm_keyed_iff remove_inv remove_table)

lemma remove_upsert:
  assumes "accepted r" and "gm_get (table s) (key (norm n r)) = None"
  shows "gm_get (table (snd (remove m2 (key (norm n r)) (snd (upsert n m r s))))) = gm_get (table s)"
  using assms by (auto simp: remove_table get_upsert fun_eq_iff)

end

text \<open>A table with a sorted listing of the records that pass a filter.\<close>

locale listed_table = keyed_table table key accepted norm upsert + strict_weak_order lt
  for table :: "'s \<Rightarrow> (string, 'r) gomap" and key accepted norm upsert
    and lt :: "'r \<Rightarrow> 'r \<Rightarrow> bool" +
  fixes keep :: "'f \<Rightarrow> 'r \<Rightarrow> bool"
    and listing :: "nat list \<Rightarrow> 'f \<Rightarrow> 's \<Rightarrow> 'r list"
  assumes listing_eq: "listing ord f s = sort_slice lt (filter (keep f) (gm_range ord (table s)))"
begin

lemma listing_set:
  "gm_keyed key (table s) \<Longrightarrow> set (listing ord f s) = {r. (\<exists>k. gm_get (table s) k = Some r) \<and> keep f r}"
  by (auto simp: listing_eq gm_keyed_inv in_gm_range)

lemma listing_distinct: "gm_keyed key (table s) \<Longrightarrow> distinct (map key (listing ord f s))"
  using distinct_keys_range [of key "table s" ord]
  by (simp add: listing_eq distinct_map_filter)

lemma listing_sorted: "sorted_wrt (\<lambda>x y. \<not> lt y x) (listing ord f s)"
  by (simp add: listing_eq sorted_sort)

lemma listing_lookup:
  "gm_keyed key (table s) \<Longrightarrow> r \<in> set (listing ord f s) \<longleftrightarrow> gm_get (table s) (key r) = Some r \<and> keep f r"
  by (auto simp: listing_set dest: gm_keyed_get)

end

section \<open>The store's tables\<close>

lemma sessionLess_order: "sessionLess x y \<longleftrightarrow>
    attentionRank x < attentionRank y \<or>
    attentionRank x = attentionRank y \<and> s_LastActivityAt y < s_LastActivityAt x"
  by (auto simp: sessionLess_def Let_def After_def)

interpretation session_order: strict_weak_order sessionLess
  by unfold_locales (auto simp: sessionLess_order)

interpretation workspace_order: strict_weak_order workspaceLess
  by unfold_locales (auto simp: workspaceLess_def)

interpretation edge_order: strict_weak_order edgeLess
  by unfold_locales (auto simp: edgeLess_def Before_def)

interpretation started_order: strict_weak_order startedLess
  by unfold_locales (auto simp: startedLess_def Before_def)

interpretation source_order: strict_weak_order sourceLess
  by unfold_locales (auto simp: sourceLess_def)

interpretation session_table: removable_table sessions s_ID "\<lambda>x. s_ID x \<noteq> ''''" defaultSession
  UpsertSession RemoveSession
  by unfold_locales
    (auto simp: UpsertSession_def RemoveSession_def Let_def store_frame defaultSession_idem
      gm_get_del fun_eq_iff)

interpretation session_list: listed_table sessions s_ID "\<lambda>x. s_ID x \<noteq> ''''" defaultSession
  UpsertSession sessionLess keepSession ListSessions
  by unfold_locales (simp add: ListSessions_def)

interpretation workspace_list: listed_table workspaces w_ID "\<lambda>_. True" defaultWorkspace
  UpsertWorkspace workspaceLess "\<lambda>_ _. True" "\<lambda>ord (_::unit). ListWorkspaces ord"
  by unfold_locales
    (auto simp: UpsertWorkspace_def ListWorkspaces_def Let_def store_frame defaultWorkspace_idem)

interpretation edge_table: removable_table edges e_ID "\<lambda>_. True" defaultEdge
  UpsertEdge RemoveEdge
  by unfold_locales
    (auto simp: UpsertEdge_def RemoveEdge_def Let_def store_frame defaultEdge_idem
      gm_get_del fun_eq_iff)

interpretation edge_list: listed_table edges e_ID "\<lambda>_. True" defaultEdge
  UpsertEdge edgeLess "\<lambda>_ _. True" "\<lambda>ord (_::unit). ListEdges ord"
  by unfold_locales (simp add: ListEdges_def)

interpretation source_list: listed_table sources o_ID "\<lambda>x. o_ID x \<noteq> ''''" defaultSource
  "\<lambda>n m. UpsertSource n" sourceLess "\<lambda>_ _. True" "\<lambda>ord (_::unit). ListSources ord"
  by unfold_locales
    (auto simp: UpsertSource_def ListSources_def Let_def defaultSource_idem)

end
