(* ===== verification/Store_Inv.thy ===== *)
theory Store_Inv
  imports Store_Laws
begin

text \<open>
  The store's invariant and the runs that keep it. \<open>store_op\<close> lists every operation another
  package can call on a \<open>Store\<close>, \<open>apply_op\<close> runs one, and \<open>reachable\<close> are
  the stores of all finite sequences of calls from \<open>New()\<close>. \<open>Graph\<close> is the abstract
  specification: four finite maps and a log, without association lists and channels.
\<close>

section \<open>The event log\<close>

definition log_inv :: "Store \<Rightarrow> bool" where
  "log_inv s \<longleftrightarrow>
     length (events s) \<le> maxEvents s \<and>
     map v_Seq (events s) =
       map (\<lambda>k. wrap64 (nextSeq s - int k)) (rev [0..<length (events s)])"

lemma wrap64_add_wrap64: "wrap64 (wrap64 a + b) = wrap64 (a + b)"
proof -
  have "(a + 2 ^ 63) mod 2 ^ 64 - 2 ^ 63 + b + 2 ^ 63 = (a + 2 ^ 63) mod 2 ^ 64 + b"
    by simp
  then have "wrap64 (wrap64 a + b) = ((a + 2 ^ 63) mod 2 ^ 64 + b) mod 2 ^ 64 - 2 ^ 63"
    by (simp only: wrap64_def)
  also have "\<dots> = (a + 2 ^ 63 + b) mod 2 ^ 64 - 2 ^ 63"
    by (simp only: mod_add_left_eq)
  also have "\<dots> = wrap64 (a + b)"
    by (simp only: wrap64_def ac_simps)
  finally show ?thesis .
qed

lemma wrap64_wrap64 [simp]: "wrap64 (wrap64 a) = wrap64 a"
  using wrap64_add_wrap64 [of a 0] by simp

lemma length_trimEvents [simp]: "length (trimEvents n es) = min n (length es)"
  by (simp add: trimEvents_def)

lemma drop_rev_upt: "drop k (rev [0..<n]) = rev [0..<n - k]"
  by (simp add: drop_rev take_upt)

lemma rev_upt_Suc: "map f (rev [0..<Suc n]) = map (\<lambda>k. f (Suc k)) (rev [0..<n]) @ [f 0]"
  by (induction n) simp_all

lemma log_inv_append [store_inv_intros]:
  assumes "log_inv s"
  shows "log_inv (snd (appendEvent now e s))"
proof -
  let ?n = "length (events s)" and ?seq = "wrap64 (nextSeq s + 1)"
  have shift: "wrap64 (nextSeq s - int k) = wrap64 (?seq - int (Suc k))" for k
    using wrap64_add_wrap64 [of "nextSeq s + 1" "- int (Suc k)"] by (simp add: algebra_simps)
  have "map v_Seq (events s @ [numbered now e s]) =
      map (\<lambda>k. wrap64 (?seq - int (Suc k))) (rev [0..<?n]) @ [?seq]"
    using assms by (simp add: log_inv_def numbered_def shift)
  also have "\<dots> = map (\<lambda>k. wrap64 (?seq - int k)) (rev [0..<Suc ?n])"
    by (simp only: rev_upt_Suc of_nat_0 diff_zero wrap64_wrap64)
  finally have "map v_Seq (events s @ [numbered now e s]) =
      map (\<lambda>k. wrap64 (?seq - int k)) (rev [0..<Suc ?n])" .
  then have "map v_Seq (trimEvents m (events s @ [numbered now e s])) =
      map (\<lambda>k. wrap64 (?seq - int k)) (rev [0..<min m (Suc ?n)])" for m
    unfolding trimEvents_def drop_map [symmetric]
    by (simp add: drop_rev_upt drop_map del: upt_Suc) (simp add: min_def del: upt_Suc)
  then show ?thesis
    by (simp add: log_inv_def store_frame del: upt_Suc)
qed

text \<open>While the counter has not wrapped, the log is numbered consecutively and ends at the counter.\<close>

lemma log_inv_seqs:
  assumes "log_inv s" and "int (length (events s)) \<le> nextSeq s" and "nextSeq s \<le> max_int64"
    and "i < length (events s)"
  shows "v_Seq (events s ! i) = nextSeq s - int (length (events s) - Suc i)"
proof -
  let ?k = "length (events s) - Suc i"
  have "v_Seq (events s ! i) = map v_Seq (events s) ! i"
    using assms(4) by simp
  also have "\<dots> = wrap64 (nextSeq s - int ?k)"
    using assms(1,4) by (simp add: log_inv_def rev_nth)
  also have "\<dots> = nextSeq s - int ?k"
    using assms by (intro wrap64_id) (simp_all add: min_int64_def)
  finally show ?thesis .
qed

section \<open>The channels\<close>

definition chan_inv :: "Store \<Rightarrow> bool" where
  "chan_inv s \<longleftrightarrow>
     gm_inv (subscribers s) \<and> distinct (map snd (subscribers s)) \<and>
     (\<forall>ch \<in> snd ` set (subscribers s). ch < length (chans s) \<and> \<not> ch_closed (chans s ! ch)) \<and>
     (\<forall>c \<in> set (chans s). length (ch_buf c) \<le> channel_cap) \<and>
     \<not> panicked s"

definition push :: "Event \<Rightarrow> channel \<Rightarrow> channel" where
  "push e c = (if length (ch_buf c) < channel_cap then c\<lparr>ch_buf := ch_buf c @ [e]\<rparr> else c)"

lemma push_closed [simp]: "ch_closed (push e c) = ch_closed c"
  by (simp add: push_def)

lemma trySend_open:
  "\<not> panicked s \<Longrightarrow> ch < length (chans s) \<Longrightarrow> \<not> ch_closed (chans s ! ch) \<Longrightarrow>
     trySend e ch s = s\<lparr>chans := (chans s)[ch := push e (chans s ! ch)]\<rparr>"
  by (simp add: trySend_def push_def Let_def)

text \<open>Sends to distinct open channels: each gets the event once, in whatever order they are made.\<close>

lemma fold_trySend:
  assumes "\<not> panicked s" and "distinct chs"
    and "\<forall>ch \<in> set chs. ch < length (chans s) \<and> \<not> ch_closed (chans s ! ch)"
  shows "\<not> panicked (fold (trySend e) chs s) \<and>
    (\<forall>c < length (chans s). chans (fold (trySend e) chs s) ! c =
       (if c \<in> set chs then push e (chans s ! c) else chans s ! c))"
  using assms
proof (induction chs arbitrary: s)
  case (Cons ch chs)
  let ?s = "trySend e ch s"
  have s': "?s = s\<lparr>chans := (chans s)[ch := push e (chans s ! ch)]\<rparr>"
    using Cons.prems by (simp add: trySend_open)
  have "\<not> panicked ?s" "distinct chs"
    "\<forall>d \<in> set chs. d < length (chans ?s) \<and> \<not> ch_closed (chans ?s ! d)"
    using Cons.prems by (auto simp: s' nth_list_update)
  from Cons.IH [OF this] show ?case
    using Cons.prems by (auto simp: s' nth_list_update)
qed simp

lemma appendEvent_chans:
  assumes "chan_inv s"
  shows "\<not> panicked (snd (appendEvent now e s))"
    and "c < length (chans s) \<Longrightarrow> chans (snd (appendEvent now e s)) ! c =
      (if c \<in> snd ` set (subscribers s) then push (numbered now e s) (chans s ! c)
       else chans s ! c)"
proof -
  let ?s = "s\<lparr>nextSeq := wrap64 (nextSeq s + 1),
    events := trimEvents (maxEvents s) (events s @ [numbered now e s])\<rparr>"
  have eq: "snd (appendEvent now e s) =
      fold (trySend (numbered now e s)) (map snd (subscribers s)) ?s"
    by (simp add: appendEvent_def appendEvent_locked_def numbered_def trimEvents_eq Let_def)
  have "\<not> panicked ?s" "distinct (map snd (subscribers s))"
    "\<forall>ch \<in> set (map snd (subscribers s)). ch < length (chans ?s) \<and> \<not> ch_closed (chans ?s ! ch)"
    using assms by (auto simp: chan_inv_def)
  from fold_trySend [OF this, of "numbered now e s"]
  show "\<not> panicked (snd (appendEvent now e s))"
    and "c < length (chans s) \<Longrightarrow> chans (snd (appendEvent now e s)) ! c =
      (if c \<in> snd ` set (subscribers s) then push (numbered now e s) (chans s ! c)
       else chans s ! c)"
    unfolding eq by simp_all
qed

lemma chan_inv_append [store_inv_intros]:
  assumes "chan_inv s"
  shows "chan_inv (snd (appendEvent now e s))"
proof -
  let ?t = "snd (appendEvent now e s)"
  have len: "length (chans ?t) = length (chans s)"
    by (simp add: store_frame)
  have "length (ch_buf (chans ?t ! c)) \<le> channel_cap" if "c < length (chans s)" for c
    using assms that by (auto simp: appendEvent_chans [OF assms] push_def chan_inv_def)
  then have "\<forall>c \<in> set (chans ?t). length (ch_buf c) \<le> channel_cap"
    by (auto simp: in_set_conv_nth len)
  moreover have "\<not> ch_closed (chans ?t ! ch)" if "ch \<in> snd ` set (subscribers s)" for ch
  proof -
    have "ch < length (chans s)" "\<not> ch_closed (chans s ! ch)"
      using assms that by (auto simp: chan_inv_def)
    then show ?thesis by (simp add: appendEvent_chans(2) [OF assms])
  qed
  ultimately show ?thesis
    using assms appendEvent_chans(1) [OF assms]
    by (auto simp: chan_inv_def store_frame)
qed

lemma snd_set_update: "snd ` set (AList.update k v m) \<subseteq> insert v (snd ` set m)"
  by (induction m) auto

lemma distinct_snd_update:
  "distinct (map snd m) \<Longrightarrow> v \<notin> snd ` set m \<Longrightarrow> distinct (map snd (AList.update k v m))"
proof (induction m)
  case (Cons p m)
  then show ?case
    using snd_set_update [of k v m] by (cases p) auto
qed simp

lemma chan_inv_Subscribe [store_inv_intros]:
  assumes "chan_inv s" and "Subscribe since s = (i, ch, backlog, s')"
  shows "chan_inv s'"
proof -
  have fresh: "length (chans s) \<notin> snd ` set (subscribers s)"
    using assms(1) by (fastforce simp: chan_inv_def)
  have s': "subscribers s' = gm_put i (length (chans s)) (subscribers s)"
    "chans s' = chans s @ [\<lparr>ch_buf = [], ch_closed = False\<rparr>]" "panicked s' = panicked s"
    using assms(2) by (auto simp: Subscribe_def Let_def)
  have "snd ` set (subscribers s') \<subseteq> insert (length (chans s)) (snd ` set (subscribers s))"
    unfolding s' gm_put_def by (rule snd_set_update)
  moreover have "distinct (map snd (subscribers s'))"
    unfolding s' gm_put_def using assms(1) fresh
    by (intro distinct_snd_update) (auto simp: chan_inv_def)
  ultimately show ?thesis
    using assms(1) by (fastforce simp: chan_inv_def s' nth_append)
qed

lemma subscriber_unique:
  assumes "gm_inv m" and "distinct (map snd m)" and "gm_get m i = Some ch"
  shows "ch \<notin> snd ` set (gm_del i m)"
proof
  assume "ch \<in> snd ` set (gm_del i m)"
  then obtain j where j: "(j, ch) \<in> set m" "j \<noteq> i"
    by (auto simp: gm_del_def AList.delete_eq)
  moreover have "(i, ch) \<in> set m"
    using assms(3) by (simp add: gm_get_def map_of_SomeD)
  ultimately show False
    using assms(2) by (fastforce simp: distinct_map inj_on_def)
qed

lemma chan_inv_cancel [store_inv_intros]:
  assumes "chan_inv s"
  shows "chan_inv (cancel i s)"
proof (cases "gm_get (subscribers s) i")
  case (Some ch)
  have ch: "ch \<in> snd ` set (subscribers s)"
    using Some by (force simp: gm_get_def dest: map_of_SomeD)
  have sub: "set (gm_del i (subscribers s)) \<subseteq> set (subscribers s)"
    by (auto simp: gm_del_def AList.delete_eq)
  have "distinct (map snd (gm_del i (subscribers s)))"
    using assms by (simp add: gm_del_def AList.delete_eq chan_inv_def distinct_map_filter)
  moreover have "ch \<notin> snd ` set (gm_del i (subscribers s))"
    using assms Some by (intro subscriber_unique) (auto simp: chan_inv_def)
  moreover have "\<forall>c \<in> set ((chans s)[ch := (chans s ! ch)\<lparr>ch_closed := True\<rparr>]).
      length (ch_buf c) \<le> channel_cap"
    using assms ch by (auto simp: chan_inv_def dest!: set_update_subset_insert [THEN subsetD])
  moreover have "d < length (chans s) \<and> \<not> ch_closed ((chans s)[ch := c] ! d)"
    if "d \<in> snd ` set (gm_del i (subscribers s))" for c d
  proof -
    have "d \<in> snd ` set (subscribers s)" "d \<noteq> ch"
      using that sub calculation(2) by blast+
    with assms show ?thesis by (auto simp: chan_inv_def)
  qed
  ultimately show ?thesis
    using assms Some unfolding chan_inv_def cancel_def by simp
qed (use assms in \<open>simp add: cancel_def\<close>)

section \<open>The invariant\<close>

definition store_inv :: "Store \<Rightarrow> bool" where
  "store_inv s \<longleftrightarrow>
     gm_keyed s_ID (sessions s) \<and> gm_keyed w_ID (workspaces s) \<and>
     gm_keyed e_ID (edges s) \<and> gm_keyed o_ID (sources s) \<and>
     (\<forall>p \<in> set (sessions s). session_complete (snd p)) \<and>
     log_inv s \<and> chan_inv s"

lemma store_invD:
  assumes "store_inv s"
  shows "gm_keyed s_ID (sessions s)" "gm_keyed w_ID (workspaces s)" "gm_keyed e_ID (edges s)"
    "gm_keyed o_ID (sources s)" "log_inv s" "chan_inv s"
  using assms by (simp_all add: store_inv_def)

lemma store_inv_session:
  "store_inv s \<Longrightarrow> gm_get (sessions s) k = Some x \<Longrightarrow> session_complete x \<and> s_ID x = k"
  by (fastforce simp: store_inv_def gm_get_def gm_keyed_def dest: map_of_SomeD)

lemma store_inv_New [store_inv_intros]: "store_inv New"
  by (simp add: store_inv_def New_def log_inv_def chan_inv_def)

text \<open>The log and the channels depend on no table.\<close>

lemma log_chan_frame [simp]:
  "log_inv (s\<lparr>sessions := a\<rparr>) = log_inv s" "chan_inv (s\<lparr>sessions := a\<rparr>) = chan_inv s"
  "log_inv (s\<lparr>workspaces := b\<rparr>) = log_inv s" "chan_inv (s\<lparr>workspaces := b\<rparr>) = chan_inv s"
  "log_inv (s\<lparr>edges := c\<rparr>) = log_inv s" "chan_inv (s\<lparr>edges := c\<rparr>) = chan_inv s"
  "log_inv (s\<lparr>sources := d\<rparr>) = log_inv s" "chan_inv (s\<lparr>sources := d\<rparr>) = chan_inv s"
  by (simp_all add: log_inv_def chan_inv_def)

lemma store_inv_append [store_inv_intros]:
  "store_inv s \<Longrightarrow> store_inv (snd (appendEvent now e s))"
  by (simp add: store_inv_def store_frame log_inv_append chan_inv_append)

lemma set_gm_put: "set (gm_put k v m) \<subseteq> insert (k, v) (set m)"
  unfolding gm_put_def by (induction m) auto

lemma set_gm_del: "set (gm_del k m) \<subseteq> set m"
  by (auto simp: gm_del_def AList.delete_eq)

lemma store_inv_UpsertSession [store_inv_intros]:
  "store_inv s \<Longrightarrow> store_inv (snd (UpsertSession n m x s))"
  using defaultSession_complete [of x n] set_gm_put [of "s_ID x" "defaultSession n x" "sessions s"]
  by (auto simp: UpsertSession_def Let_def intro!: store_inv_append)
    (auto simp: store_inv_def)

lemma store_inv_RemoveSession [store_inv_intros]:
  "store_inv s \<Longrightarrow> store_inv (snd (RemoveSession m k s))"
  using set_gm_del [of k "sessions s"]
  by (auto simp: RemoveSession_def Let_def intro!: store_inv_append) (auto simp: store_inv_def)

lemma store_inv_UpsertWorkspace [store_inv_intros]:
  "store_inv s \<Longrightarrow> store_inv (snd (UpsertWorkspace n m x s))"
  by (auto simp: UpsertWorkspace_def Let_def intro!: store_inv_append) (auto simp: store_inv_def)

lemma store_inv_UpsertEdge [store_inv_intros]:
  "store_inv s \<Longrightarrow> store_inv (snd (UpsertEdge n m x s))"
  by (auto simp: UpsertEdge_def Let_def intro!: store_inv_append) (auto simp: store_inv_def)

lemma store_inv_RemoveEdge [store_inv_intros]:
  "store_inv s \<Longrightarrow> store_inv (snd (RemoveEdge m k s))"
  by (auto simp: RemoveEdge_def Let_def intro!: store_inv_append) (auto simp: store_inv_def)

lemma store_inv_UpsertSource [store_inv_intros]:
  "store_inv s \<Longrightarrow> store_inv (snd (UpsertSource n x s))"
  by (auto simp: UpsertSource_def Let_def store_inv_def)

lemma store_inv_Subscribe [store_inv_intros]:
  "store_inv s \<Longrightarrow> Subscribe since s = (i, ch, b, s') \<Longrightarrow> store_inv s'"
  using Subscribe_frame [of since s i ch b s']
  by (auto simp: store_inv_def log_inv_def intro: chan_inv_Subscribe)

lemma store_inv_cancel [store_inv_intros]: "store_inv s \<Longrightarrow> store_inv (cancel i s)"
  by (simp add: store_inv_def log_inv_def store_frame chan_inv_cancel)

lemma recvEvent_cases:
  obtains "snd (recvEvent ch s) = s"
  | es where "ch < length (chans s)" "length es < length (ch_buf (chans s ! ch))"
      "snd (recvEvent ch s) = s\<lparr>chans := (chans s)[ch := (chans s ! ch)\<lparr>ch_buf := es\<rparr>]\<rparr>"
  by (cases "length (chans s) \<le> ch"; cases "ch_buf (chans s ! ch)") (auto simp: recvEvent_def)

lemma chan_inv_recv [store_inv_intros]:
  assumes "chan_inv s"
  shows "chan_inv (snd (recvEvent ch s))"
proof (cases rule: recvEvent_cases [of ch s])
  case (2 es)
  have "length es \<le> channel_cap"
    using assms 2(1,2) unfolding chan_inv_def by (meson le_trans less_imp_le nth_mem)
  then have "\<forall>c \<in> set ((chans s)[ch := (chans s ! ch)\<lparr>ch_buf := es\<rparr>]).
      length (ch_buf c) \<le> channel_cap"
    using assms by (auto simp: chan_inv_def dest!: set_update_subset_insert [THEN subsetD])
  moreover have "ch_closed ((chans s)[ch := (chans s ! ch)\<lparr>ch_buf := es\<rparr>] ! d) = ch_closed (chans s ! d)"
    for d
    by (cases "d = ch") (use 2 in auto)
  ultimately show ?thesis
    using assms unfolding 2(3) chan_inv_def by simp
qed (use assms in simp)

lemma store_inv_recv [store_inv_intros]: "store_inv s \<Longrightarrow> store_inv (snd (recvEvent ch s))"
  using chan_inv_recv [of s ch]
  by (cases rule: recvEvent_cases [of ch s]) (auto simp: store_inv_def log_inv_def)

section \<open>Operations and runs\<close>

datatype store_op =
    OUpsertSession time time Session
  | ORemoveSession time string
  | OUpsertWorkspace time time Workspace
  | OUpsertEdge time time Edge
  | ORemoveEdge time string
  | OUpsertSource time Source
  | OAppendEvent time Event
  | OSubscribe int
  | OCancel int
  | ORecv nat

fun apply_op :: "store_op \<Rightarrow> Store \<Rightarrow> Store" where
  "apply_op (OUpsertSession n m x) s = snd (UpsertSession n m x s)"
| "apply_op (ORemoveSession m k) s = snd (RemoveSession m k s)"
| "apply_op (OUpsertWorkspace n m x) s = snd (UpsertWorkspace n m x s)"
| "apply_op (OUpsertEdge n m x) s = snd (UpsertEdge n m x s)"
| "apply_op (ORemoveEdge m k) s = snd (RemoveEdge m k s)"
| "apply_op (OUpsertSource n x) s = snd (UpsertSource n x s)"
| "apply_op (OAppendEvent m e) s = snd (AppendEvent m e s)"
| "apply_op (OSubscribe since) s = (case Subscribe since s of (_, _, _, s') \<Rightarrow> s')"
| "apply_op (OCancel i) s = cancel i s"
| "apply_op (ORecv ch) s = snd (recvEvent ch s)"

inductive store_step :: "Store \<Rightarrow> Store \<Rightarrow> bool" where
  "store_step s (apply_op x s)"

inductive_cases store_stepE: "store_step s t"

lemma store_inv_apply_op [store_inv_intros]: "store_inv s \<Longrightarrow> store_inv (apply_op x s)"
  by (cases x) (auto simp: AppendEvent_def intro: store_inv_intros split: prod.splits)

interpretation store_system: invariant_system "\<lambda>s. s = New" store_step store_inv
  by unfold_locales (auto elim: store_stepE intro: store_inv_intros)

section \<open>The abstract specification\<close>

record Graph =
  g_sessions :: "string \<rightharpoonup> Session"
  g_workspaces :: "string \<rightharpoonup> Workspace"
  g_edges :: "string \<rightharpoonup> Edge"
  g_sources :: "string \<rightharpoonup> Source"
  g_log :: "Event list"
  g_seq :: int
  g_cap :: nat

definition graph_of :: "Store \<Rightarrow> Graph" where
  "graph_of s = \<lparr>g_sessions = gm_get (sessions s), g_workspaces = gm_get (workspaces s),
     g_edges = gm_get (edges s), g_sources = gm_get (sources s), g_log = events s,
     g_seq = nextSeq s, g_cap = maxEvents s\<rparr>"

text \<open>Recording an event: it gets the next number and the log keeps its newest entries.\<close>

definition g_record :: "time \<Rightarrow> Event \<Rightarrow> Graph \<Rightarrow> Graph" where
  "g_record now e g =
     (let seq = wrap64 (g_seq g + 1);
          e' = e\<lparr>v_ObservedAt := or_time (v_ObservedAt e) now, v_Seq := seq\<rparr>
      in g\<lparr>g_log := trimEvents (g_cap g) (g_log g @ [e']), g_seq := seq\<rparr>)"

definition removedEvent :: "string \<Rightarrow> Event" where
  "removedEvent k = zeroEvent\<lparr>v_Type := ''session.removed'', v_SessionID := k,
     v_Summary := ''session removed'', v_Source := ''native''\<rparr>"

definition workspaceEvent :: "bool \<Rightarrow> Workspace \<Rightarrow> Event" where
  "workspaceEvent existed w = zeroEvent\<lparr>
     v_Type := (if existed then ''workspace.upserted'' else ''workspace.discovered''),
     v_WorkspaceID := w_ID w, v_Summary := w_Path w, v_Source := w_Source w\<rparr>"

definition edgeEvent :: "bool \<Rightarrow> Edge \<Rightarrow> Event" where
  "edgeEvent existed e = zeroEvent\<lparr>
     v_Type := (if \<not> existed \<and> e_Type e \<in> {''spawned_by'', ''delegated_by''}
                then ''child.spawned'' else ''graph.edge_upserted''),
     v_EdgeID := e_ID e, v_Summary := e_Type e @ '' '' @ e_From e @ '' -> '' @ e_To e,
     v_Source := e_Source e\<rparr>"

definition edgeRemovedEvent :: "string \<Rightarrow> Event" where
  "edgeRemovedEvent k = zeroEvent\<lparr>v_Type := ''graph.edge_removed'', v_EdgeID := k,
     v_Summary := ''edge removed'', v_Source := ''native''\<rparr>"

fun graph_op :: "store_op \<Rightarrow> Graph \<Rightarrow> Graph" where
  "graph_op (OUpsertSession n m x) g =
     (if s_ID x = '''' then g
      else let x' = defaultSession n x
           in g_record m (sessionEvent (g_sessions g (s_ID x)) x')
                (g\<lparr>g_sessions := (g_sessions g)(s_ID x \<mapsto> x')\<rparr>))"
| "graph_op (ORemoveSession m k) g =
     (if g_sessions g k = None then g
      else g_record m (removedEvent k) (g\<lparr>g_sessions := (g_sessions g)(k := None)\<rparr>))"
| "graph_op (OUpsertWorkspace n m x) g =
     (let x' = defaultWorkspace n x
      in g_record m (workspaceEvent (g_workspaces g (w_ID x') \<noteq> None) x')
           (g\<lparr>g_workspaces := (g_workspaces g)(w_ID x' \<mapsto> x')\<rparr>))"
| "graph_op (OUpsertEdge n m x) g =
     (let x' = defaultEdge n x
      in g_record m (edgeEvent (g_edges g (e_ID x') \<noteq> None) x')
           (g\<lparr>g_edges := (g_edges g)(e_ID x' \<mapsto> x')\<rparr>))"
| "graph_op (ORemoveEdge m k) g =
     (if g_edges g k = None then g
      else g_record m (edgeRemovedEvent k) (g\<lparr>g_edges := (g_edges g)(k := None)\<rparr>))"
| "graph_op (OUpsertSource n x) g =
     (if o_ID x = '''' then g
      else g\<lparr>g_sources := (g_sources g)(o_ID x \<mapsto> defaultSource n x)\<rparr>)"
| "graph_op (OAppendEvent m e) g = g_record m e g"
| "graph_op (OSubscribe since) g = g"
| "graph_op (OCancel i) g = g"
| "graph_op (ORecv ch) g = g"

lemma graph_of_append: "graph_of (snd (appendEvent now e s)) = g_record now e (graph_of s)"
  by (simp add: graph_of_def g_record_def store_frame numbered_def stampEvent_def Let_def)

lemma graph_of_recv: "graph_of (snd (recvEvent ch s)) = graph_of s"
  by (cases rule: recvEvent_cases [of ch s]) (auto simp: graph_of_def)

lemma graph_of_update:
  "graph_of (s\<lparr>sessions := a\<rparr>) = (graph_of s)\<lparr>g_sessions := gm_get a\<rparr>"
  "graph_of (s\<lparr>workspaces := b\<rparr>) = (graph_of s)\<lparr>g_workspaces := gm_get b\<rparr>"
  "graph_of (s\<lparr>edges := c\<rparr>) = (graph_of s)\<lparr>g_edges := gm_get c\<rparr>"
  "graph_of (s\<lparr>sources := d\<rparr>) = (graph_of s)\<lparr>g_sources := gm_get d\<rparr>"
  by (simp_all add: graph_of_def)

lemma graph_of_get:
  "g_sessions (graph_of s) = gm_get (sessions s)"
  "g_workspaces (graph_of s) = gm_get (workspaces s)"
  "g_edges (graph_of s) = gm_get (edges s)"
  "g_sources (graph_of s) = gm_get (sources s)"
  by (simp_all add: graph_of_def)

lemma graph_of_cancel: "graph_of (cancel i s) = graph_of s"
  by (simp add: graph_of_def store_frame)

lemmas graph_event_defs = removedEvent_def workspaceEvent_def edgeEvent_def edgeRemovedEvent_def

lemmas store_op_defs = UpsertSession_def RemoveSession_def UpsertWorkspace_def UpsertEdge_def
  RemoveEdge_def UpsertSource_def AppendEvent_def

lemma graph_of_apply_op: "graph_of (apply_op x s) = graph_op x (graph_of s)"
proof (cases x)
  case (OSubscribe since)
  obtain i ch b s' where s': "Subscribe since s = (i, ch, b, s')"
    by (metis prod_cases4)
  from Subscribe_frame [OF s'] show ?thesis
    by (simp add: OSubscribe s' graph_of_def)
qed (simp_all add: store_op_defs Let_def graph_of_append graph_of_recv graph_of_cancel
    graph_of_update graph_of_get graph_event_defs gm_get_put gm_get_del)

interpretation store_refines: functional_refinement apply_op graph_op graph_of store_inv
  by unfold_locales (auto simp: graph_of_apply_op intro: store_inv_intros)

end
