(* ===== verification/Store_Props.thy ===== *)
theory Store_Props
  imports Store_Inv
begin

text \<open>
  The properties of the store: every reachable store satisfies the invariant, runs refine the
  abstract graph, and each operation returns and records what its callers rely on.
\<close>

section \<open>Runs\<close>



text \<open>
  C4. The store refines its specification: after any sequence of calls, the four tables as finite
  maps, the event log and its counter are those the abstract operations give; subscribing,
  cancelling and receiving change nothing of it.
\<close>

theorem store_runs_refine_graph:
  "graph_of (fold apply_op ops New) = fold graph_op ops (graph_of New)"
  by (rule store_refines.refines_run) (rule store_inv_New)

section \<open>Sessions\<close>



text \<open>
  Reporting back the session that an upsert returned changes no stored session, whatever the
  clock reads the second time, provided the clock did not read the zero time the first time.
\<close>

theorem upsert_session_idempotent:
  assumes "s_ID x \<noteq> ''''" and "now \<noteq> 0" and "UpsertSession now now' x s = (x', s')"
  shows "gm_get (sessions (snd (UpsertSession now2 now2' x' s'))) = gm_get (sessions s')"
  using assms by (rule session_table.upsert_again)

theorem upsert_session_idempotent_witness:
  "let (x', s') = UpsertSession 5 6 (zeroSession\<lparr>s_ID := ''a''\<rparr>) New
   in gm_get (sessions (snd (UpsertSession 9 10 x' s'))) = gm_get (sessions s')"
  using upsert_session_idempotent [of "zeroSession\<lparr>s_ID := ''a''\<rparr>" 5 6 New]
  by (simp split: prod.splits)

text \<open>
  The event an upsert logs says what happened: \<open>session.started\<close> for a new ID,
  \<open>status.changed\<close> with old and new status when the stored status differs,
  \<open>session.upserted\<close> otherwise; it is the newest entry and names the session.
\<close>

theorem upsert_session_event:
  assumes "s_ID x \<noteq> ''''" and "0 < maxEvents s" and "UpsertSession now now' x s = (x', s')"
  shows "events s' \<noteq> [] \<and> v_SessionID (last (events s')) = s_ID x \<and>
    v_Seq (last (events s')) = nextSeq s' \<and>
    (v_Type (last (events s')), v_Summary (last (events s'))) =
      (case GetSession (s_ID x) s of
         None \<Rightarrow> (''session.started'', ''session started'')
       | Some old \<Rightarrow>
           if s_Status old = s_Status x' then (''session.upserted'', ''session upserted'')
           else (''status.changed'', s_Status old @ '' -> '' @ s_Status x'))"
proof -
  have last: "last (trimEvents n (es @ [e])) = e" "trimEvents n (es @ [e]) \<noteq> []" if "0 < n" for n e es
    using that by (simp_all add: trimEvents_def last_drop)
  show ?thesis
    using assms
    by (auto simp: UpsertSession_def Let_def store_frame last numbered_def stampEvent_def
        sessionEvent_def GetSession_def split: option.splits)
qed

theorem upsert_session_event_witness:
  "let s = snd (UpsertSession 5 6 (zeroSession\<lparr>s_ID := ''a'', s_Status := StatusIdle\<rparr>) New);
       s' = snd (UpsertSession 7 8 (zeroSession\<lparr>s_ID := ''a'', s_Status := StatusBlocked\<rparr>) s)
   in v_Type (last (events s')) = ''status.changed'' \<and>
      v_Summary (last (events s')) = ''idle -> blocked''"
proof -
  let ?s = "snd (UpsertSession 5 6 (zeroSession\<lparr>s_ID := ''a'', s_Status := StatusIdle\<rparr>) New)"
  let ?x = "zeroSession\<lparr>s_ID := ''a'', s_Status := StatusBlocked\<rparr>"
  have cap: "0 < maxEvents ?s" by (simp add: store_frame New_def)
  have x: "s_ID ?x \<noteq> ''''" by simp
  have old: "GetSession (s_ID ?x) ?s =
      Some (defaultSession 5 (zeroSession\<lparr>s_ID := ''a'', s_Status := StatusIdle\<rparr>))"
    by (simp add: GetSession_def session_table.get_upsert)
  have new: "fst (UpsertSession 7 8 ?x ?s) = defaultSession 7 ?x"
    by (simp add: session_table.upsert_result)
  show ?thesis
    using upsert_session_event [OF x cap surjective_pairing, of 7 8] unfolding old new
    by (simp add: defaultSession_fields status_defs Let_def)
qed

text \<open>
  Removing a session reports whether it was there, leaves no session under that ID and every
  other session alone, logs \<open>session.removed\<close> exactly when it removed something, and does
  nothing at all otherwise.
\<close>

theorem remove_session_spec:
  assumes "RemoveSession now' k s = (existed, s')"
  shows "(existed \<longleftrightarrow> GetSession k s \<noteq> None) \<and> GetSession k s' = None \<and>
    (\<forall>j. j \<noteq> k \<longrightarrow> GetSession j s' = GetSession j s) \<and>
    (if existed then nextSeq s' = wrap64 (nextSeq s + 1) \<and>
       events s' = trimEvents (maxEvents s) (events s @ [numbered now' (removedEvent k) s])
     else s' = s)"
  using assms
  by (auto simp: RemoveSession_def Let_def GetSession_def store_frame removedEvent_def numbered_def
      split: if_splits)

theorem remove_session_spec_witness:
  "GetSession ''a'' (snd (RemoveSession 9 ''a''
     (snd (UpsertSession 5 6 (zeroSession\<lparr>s_ID := ''a''\<rparr>) New)))) = None"
  using remove_session_spec [of 9 "''a''" "snd (UpsertSession 5 6 (zeroSession\<lparr>s_ID := ''a''\<rparr>) New)"]
  by (metis prod.collapse)





section \<open>Events\<close>

text \<open>
  C27. While the 64-bit counter has not wrapped, an appended event gets the next number and the log
  holds consecutive numbers ending there, at most \<open>maxEvents\<close> of them: the newest.
\<close>

theorem append_event_log:
  assumes "store_inv s" and "int (length (events s)) \<le> nextSeq s" and "nextSeq s < max_int64"
    and "appendEvent now e s = (e', s')"
  shows "v_Seq e' = nextSeq s + 1 \<and> nextSeq s' = nextSeq s + 1 \<and>
    length (events s') = min (maxEvents s) (Suc (length (events s))) \<and>
    map v_Seq (events s') = [nextSeq s' - int (length (events s')) + 1..nextSeq s']"
proof -
  have s': "s' = snd (appendEvent now e s)" and e': "e' = numbered now e s"
    using assms(4) appendEvent_result [of now e s] by simp_all
  have seq: "nextSeq s' = nextSeq s + 1"
    using assms(2,3) wrap64_Suc [of "nextSeq s"] by (simp add: s' store_frame)
  have len: "length (events s') = min (maxEvents s) (Suc (length (events s)))"
    by (simp add: s' store_frame)
  have inv: "log_inv s'"
    unfolding s' using assms(1) by (intro log_inv_append store_invD)
  have bound: "int (length (events s')) \<le> nextSeq s'" "nextSeq s' \<le> max_int64"
    using assms(2,3) by (simp_all add: len seq)
  have "map v_Seq (events s') = [nextSeq s' - int (length (events s')) + 1..nextSeq s']"
  proof (rule nth_equalityI)
    fix i assume "i < length (map v_Seq (events s'))"
    then show "map v_Seq (events s') ! i = [nextSeq s' - int (length (events s')) + 1..nextSeq s'] ! i"
      using log_inv_seqs [OF inv bound, of i] by simp
  qed simp
  then show ?thesis
    using seq len wrap64_Suc [of "nextSeq s"] assms(2,3) by (simp add: e' numbered_def)
qed

theorem append_event_log_witness:
  "v_Seq (fst (appendEvent 7 zeroEvent New)) = 1"
  using append_event_log [OF store_inv_New, of 7 zeroEvent "fst (appendEvent 7 zeroEvent New)"
      "snd (appendEvent 7 zeroEvent New)"]
  by (simp add: New_def max_int64_def)

text \<open>
  Listing events gives those numbered above \<open>since\<close> in log order; a positive
  \<open>limit\<close> keeps that many of the newest: whatever it leaves out comes before everything it
  keeps.
\<close>

theorem list_events_newest:
  "\<exists>dropped. filter (\<lambda>e. since < v_Seq e) (events s) = dropped @ ListEvents since limit s \<and>
     (limit \<le> 0 \<longrightarrow> dropped = []) \<and>
     (0 < limit \<longrightarrow> length (ListEvents since limit s) =
        min (nat limit) (length (filter (\<lambda>e. since < v_Seq e) (events s))))"
proof -
  let ?out = "filter (\<lambda>e. since < v_Seq e) (events s)"
  show ?thesis
  proof (cases "0 < limit \<and> int (length ?out) > limit")
    case True
    then show ?thesis
      by (intro exI [of _ "take (length ?out - nat limit) ?out"])
        (auto simp: ListEvents_def Let_def min_def)
  next
    case False
    then show ?thesis
      by (intro exI [of _ "[]"]) (auto simp: ListEvents_def Let_def min_def)
  qed
qed

theorem list_events_newest_witness:
  "length (ListEvents 0 1 (snd (appendEvent 7 zeroEvent New))) = 1"
proof -
  have "length (filter (\<lambda>e. 0 < v_Seq e) (events (snd (appendEvent 7 zeroEvent New)))) = 1"
    by (simp add: store_frame New_def trimEvents_def numbered_def wrap64_def)
  with list_events_newest [of 0 "snd (appendEvent 7 zeroEvent New)" 1] show ?thesis
    by auto
qed

text \<open>
  A published event reaches every current subscriber whose buffer has room, once and last in
  line, and no other channel; a full buffer loses the event and keeps what it holds; publishing
  never panics while operations run one at a time.
\<close>

theorem publish_delivers:
  assumes "store_inv s" and "appendEvent now e s = (e', s')" and "c < length (chans s)"
  shows "\<not> panicked s' \<and>
    ch_buf (chans s' ! c) =
      (if (\<exists>i. gm_get (subscribers s) i = Some c) \<and> length (ch_buf (chans s ! c)) < 128
       then ch_buf (chans s ! c) @ [e'] else ch_buf (chans s ! c))"
proof -
  have inv: "chan_inv s"
    using assms(1) by (rule store_invD)
  have s': "s' = snd (appendEvent now e s)" and e': "e' = numbered now e s"
    using assms(2) appendEvent_result [of now e s] by simp_all
  have "c \<in> snd ` set (subscribers s) \<longleftrightarrow> (\<exists>i. gm_get (subscribers s) i = Some c)"
    using inv by (force simp: chan_inv_def gm_inv_def gm_get_def)
  then show ?thesis
    using appendEvent_chans(1) [OF inv, of now e] appendEvent_chans(2) [OF inv assms(3), of now e]
    by (auto simp: s' e' push_def channel_cap_def)
qed

theorem publish_delivers_witness:
  "let s = (case Subscribe 0 New of (_, _, _, s) \<Rightarrow> s); (e', s') = appendEvent 7 zeroEvent s
   in ch_buf (chans s' ! 0) = [e']"
proof -
  obtain s where s: "(case Subscribe 0 New of (_, _, _, s) \<Rightarrow> s) = s" by simp
  have sub: "Subscribe 0 New = (0, 0, [], s)"
    using s by (auto simp: Subscribe_def New_def Let_def)
  have "store_inv s"
    using store_inv_Subscribe [OF store_inv_New sub] .
  moreover have "chans s = [\<lparr>ch_buf = [], ch_closed = False\<rparr>]" "gm_get (subscribers s) 0 = Some 0"
    using s by (auto simp: Subscribe_def New_def Let_def)
  ultimately show ?thesis
    using publish_delivers [of s 7 zeroEvent _ _ 0] s by (auto split: prod.splits)
qed

section \<open>Lineage\<close>

text \<open>
  C28. The lineage of a session ID holds exactly the stored sessions that are it, name it as root or
  as parent, in order of start time; an edge belongs when it touches one of them, a workspace when
  one of them names it; the empty ID means every session and every edge.
\<close>

theorem lineage_spec:
  assumes "store_inv s" and "l = LineageOf ord1 ord2 ord3 root s"
  shows "set (l_Sessions l) = {x. GetSession (s_ID x) s = Some x \<and>
      (root = '''' \<or> root \<in> {s_ID x, s_RootSessionID x, s_ParentSessionID x})} \<and>
    sorted_wrt (\<lambda>x y. s_StartedAt x \<le> s_StartedAt y) (l_Sessions l) \<and>
    set (l_Edges l) = {e. gm_get (edges s) (e_ID e) = Some e \<and>
      (root = '''' \<or> (\<exists>x \<in> set (l_Sessions l). s_ID x \<in> {e_From e, e_To e}))} \<and>
    set (l_Workspaces l) = {w. GetWorkspace (w_ID w) s = Some w \<and>
      (\<exists>x \<in> set (l_Sessions l). w_ID w \<in> set (s_WorkspaceIDs x))}"
proof -
  note keyed = store_invD [OF assms(1)]
  have get: "x \<in> set (gm_range ord m) \<longleftrightarrow> gm_get m (key x) = Some x"
    if "gm_keyed key m" for ord m and key :: "'x \<Rightarrow> string" and x
    using that by (auto simp: in_gm_range gm_keyed_inv dest: gm_keyed_get)
  have "set (l_Sessions l) = {x. GetSession (s_ID x) s = Some x \<and>
      (root = '''' \<or> root \<in> {s_ID x, s_RootSessionID x, s_ParentSessionID x})}"
    by (auto simp: assms(2) LineageOf_def Let_def get [OF keyed(1)] GetSession_def inLineage_def)
  moreover have "sorted_wrt (\<lambda>x y. s_StartedAt x \<le> s_StartedAt y) (l_Sessions l)"
    unfolding assms(2) LineageOf_def Let_def Lineage.simps
    by (rule sorted_wrt_mono_rel [OF _ started_order.sorted_sort])
      (simp add: startedLess_def Before_def)
  moreover have "set (l_Edges l) = {e. gm_get (edges s) (e_ID e) = Some e \<and>
      (root = '''' \<or> (\<exists>x \<in> set (l_Sessions l). s_ID x \<in> {e_From e, e_To e}))}"
    by (auto simp: assms(2) LineageOf_def Let_def get [OF keyed(3)] image_iff)
  moreover have "set (l_Workspaces l) = {w. GetWorkspace (w_ID w) s = Some w \<and>
      (\<exists>x \<in> set (l_Sessions l). w_ID w \<in> set (s_WorkspaceIDs x))}"
  proof -
    have row: "(k, w) \<in> set (workspaces s) \<longleftrightarrow> k = w_ID w \<and> GetWorkspace (w_ID w) s = Some w" for k w
      using keyed(2) by (force simp: gm_keyed_def gm_inv_def GetWorkspace_def gm_get_def)
    have "set (l_Workspaces l) = {w. \<exists>k. (k, w) \<in> set (workspaces s) \<and>
        k \<in> (\<Union>x \<in> set (l_Sessions l). set (s_WorkspaceIDs x))}"
      by (simp add: assms(2) LineageOf_def Let_def image_def set_eq_iff) blast
    then show ?thesis
      unfolding row by auto
  qed
  ultimately show ?thesis by blast
qed

theorem lineage_spec_witness:
  "let s = snd (UpsertSession 5 6 (zeroSession\<lparr>s_ID := ''child'', s_ParentSessionID := ''root''\<rparr>) New)
   in map s_ID (l_Sessions (LineageOf [] [] [] ''root'' s)) = [''child''] \<and>
      sorted_wrt (\<lambda>x y. s_StartedAt x \<le> s_StartedAt y) (l_Sessions (LineageOf [] [] [] ''root'' s))"
proof -
  let ?s = "snd (UpsertSession 5 6 (zeroSession\<lparr>s_ID := ''child'', s_ParentSessionID := ''root''\<rparr>) New)"
  have "map s_ID (l_Sessions (LineageOf [] [] [] ''root'' ?s)) = [''child'']"
    by (simp add: LineageOf_def Let_def session_table.upsert_table New_def gm_put_def gm_range_def
        inLineage_def defaultSession_fields)
  moreover have "sorted_wrt (\<lambda>x y. s_StartedAt x \<le> s_StartedAt y)
      (l_Sessions (LineageOf [] [] [] ''root'' ?s))"
    using lineage_spec [OF store_inv_UpsertSession [OF store_inv_New] refl] by blast
  ultimately show ?thesis by (simp only: Let_def)
qed

end
