(* ===== verification/Runtime.thy ===== *)
theory Runtime
  imports Model
begin

text \<open>
  The process source, \<open>internal/runtime\<close>: which running processes are agents
  (\<open>agent_process.go\<close>), the process table from \<open>ps\<close> or \<open>tasklist\<close>
  (\<open>process_unix.go\<close>, \<open>process_windows.go\<close>) and the working directory of a process
  (\<open>process_cwd_unix.go\<close>, \<open>process_cwd_windows.go\<close>). The output of the commands is an
  argument or a field of the host; everything after it is the source's own code. The interface
  \<open>ProcessLister\<close> is the locale \<open>process_lister\<close>.
\<close>

section \<open>Recognising agents\<close>

definition knownAgentCommands :: "(string, string) gomap" where
  "knownAgentCommands =
     [(''codex'', ''codex''), (''claude'', ''claude''), (''opencode'', ''opencode''),
      (''hermes'', ''hermes''), (''openclaw'', ''openclaw''), (''nanoclaw'', ''nanoclaw'')]"

definition knownLauncherCommands :: "string list" where
  "knownLauncherCommands =
     [''bash'', ''bun'', ''deno'', ''node'', ''npx'', ''python'', ''python3'', ''sh'', ''zsh'']"

definition knownScriptLauncherCommands :: "string list" where
  "knownScriptLauncherCommands = [''bun'', ''deno'', ''node'', ''npx'', ''python'', ''python3'']"

definition normalizeCommandName :: "host \<Rightarrow> string \<Rightarrow> string" where
  "normalizeCommandName h command =
     (if command = '''' then ''''
      else let command = Trim command [CHR 0x22, CHR 0x27];
               base = Base h command;
               base = (if runtime_GOOS h = Windows then TrimSuffix base ''.exe'' else base)
           in ToLower h base)"

definition firstArg :: "string \<Rightarrow> string" where
  "firstArg args = (case Fields args of [] \<Rightarrow> '''' | f # _ \<Rightarrow> f)"

definition looksLikeCommandPath :: "string \<Rightarrow> bool" where
  "looksLikeCommandPath command \<longleftrightarrow> Contains command ''/'' \<or> Contains command [CHR 0x5C]"

definition isAppBundleProcess :: "string \<Rightarrow> bool" where
  "isAppBundleProcess args \<longleftrightarrow> Contains args ''.app/Contents/''"

definition commandPathExists :: "host \<Rightarrow> string \<Rightarrow> bool" where
  "commandPathExists h command = stat_ok h command"

text \<open>The loop over the arguments after the launcher: flags are skipped, the first other decides.\<close>

fun launcherScript :: "host \<Rightarrow> string list \<Rightarrow> string option" where
  "launcherScript h [] = None"
| "launcherScript h (arg # args) =
     (if HasPrefix arg ''-'' then launcherScript h args
      else case gm_get knownAgentCommands (normalizeCommandName h arg) of
        None \<Rightarrow> None
      | Some source \<Rightarrow>
          if looksLikeCommandPath arg \<and> \<not> commandPathExists h arg then None else Some source)"

definition inferLauncherScriptSource :: "host \<Rightarrow> string \<Rightarrow> string list \<Rightarrow> string option" where
  "inferLauncherScriptSource h commandBase args =
     (case args of
        arg0 # arg1 # rest \<Rightarrow>
          (let argv0Base = normalizeCommandName h arg0
           in if commandBase \<notin> set knownScriptLauncherCommands \<and>
                 argv0Base \<notin> set knownScriptLauncherCommands then None
              else launcherScript h (arg1 # rest))
      | _ \<Rightarrow> None)"

definition inferAgentSource :: "host \<Rightarrow> Process \<Rightarrow> string option" where
  "inferAgentSource h proc =
     (if isAppBundleProcess (p_Args proc) then None
      else let commandBase = normalizeCommandName h (p_Command proc)
           in case gm_get knownAgentCommands commandBase of
                Some source \<Rightarrow> Some source
              | None \<Rightarrow>
                  (let argv0 = firstArg (p_Args proc);
                       argv0Base = normalizeCommandName h argv0
                   in if argv0Base = '''' then None
                      else case gm_get knownAgentCommands argv0Base of
                        Some source \<Rightarrow>
                          if argv0Base = commandBase \<or> commandBase \<in> set knownLauncherCommands
                          then Some source
                          else if looksLikeCommandPath argv0 \<and> commandPathExists h argv0
                          then Some source
                          else inferLauncherScriptSource h commandBase (Fields (p_Args proc))
                      | None \<Rightarrow> inferLauncherScriptSource h commandBase (Fields (p_Args proc))))"

definition processSessionTitle :: "string \<Rightarrow> string" where
  "processSessionTitle source = (if source = '''' then ''agent'' else source)"

definition workspaceRoots :: "string \<Rightarrow> string list" where
  "workspaceRoots cwd = (if cwd = '''' then [] else [cwd])"

definition workspaceIDs :: "string \<Rightarrow> string list" where
  "workspaceIDs cwd = (if cwd = '''' then [] else [''workspace:'' @ cwd])"

definition intString :: "int \<Rightarrow> string" where
  "intString value = Itoa value"

definition InferAgentProcessSession :: "host \<Rightarrow> Process \<Rightarrow> time \<Rightarrow> Session option" where
  "InferAgentProcessSession h proc observedAt =
     (case inferAgentSource h proc of
        None \<Rightarrow> None
      | Some source \<Rightarrow>
          (let sid = source @ '':process:'' @ intString (p_PID proc);
               title = processSessionTitle source
           in Some (zeroSession\<lparr>
                s_ID := sid,
                s_Kind := ''session'',
                s_Title := title,
                s_Summary := ''detected running process'',
                s_Status := StatusWorking,
                s_StatusDetail := ''process active: '' @ title,
                s_Confidence := ConfidenceLow,
                s_Source := source,
                s_CWD := p_CWD proc,
                s_WorkspaceRoots := workspaceRoots (p_CWD proc),
                s_StartedAt := observedAt,
                s_LastActivityAt := observedAt,
                s_RootSessionID := sid,
                s_RuntimeIDs := [p_ID proc],
                s_WorkspaceIDs := workspaceIDs (p_CWD proc),
                s_Capabilities := zeroCapabilities\<lparr>c_Logs := False, c_Children := False\<rparr>,
                s_Meta := [(''process'', GMap
                  [(''pid'', GInt (p_PID proc)),
                   (''ppid'', GInt (p_PPID proc)),
                   (''command'', GString (p_Command proc)),
                   (''args'', GString (p_Args proc)),
                   (''inferred'', GBool True),
                   (''confidence'', GString ConfidenceLow)])]\<rparr>)))"

section \<open>Working directories\<close>

definition lsofCommand :: "host \<Rightarrow> string" where
  "lsofCommand h =
     (if runtime_GOOS h = Darwin \<and> stat_ok h ''/usr/sbin/lsof'' then ''/usr/sbin/lsof''
      else ''lsof'')"

fun lsofCwd :: "string list \<Rightarrow> string option" where
  "lsofCwd [] = None"
| "lsofCwd (line # lines) =
     (if HasPrefix line ''n'' \<and> length line > 1 then Some (TrimSpace (tl line)) else lsofCwd lines)"

definition lookupProcessCWDWithLsof :: "host \<Rightarrow> int \<Rightarrow> string option" where
  "lookupProcessCWDWithLsof h pid =
     (case lsof_output h (lsofCommand h) (Itoa pid) of
        None \<Rightarrow> None
      | Some out \<Rightarrow> lsofCwd (Split (CHR 0x0A) out))"

text \<open>The Unix and the Windows build of \<open>LookupProcessCWD\<close>.\<close>

definition LookupProcessCWD_unix :: "host \<Rightarrow> int \<Rightarrow> string option" where
  "LookupProcessCWD_unix h pid =
     (if pid \<le> 0 then None
      else if runtime_GOOS h = Linux
      then (case readlink h (''/proc/'' @ Itoa pid @ ''/cwd'') of
              None \<Rightarrow> None | Some cwd \<Rightarrow> if cwd \<noteq> '''' then Some cwd else None)
      else if runtime_GOOS h = Darwin then lookupProcessCWDWithLsof h pid
      else None)"

definition LookupProcessCWD_windows :: "int \<Rightarrow> string option" where
  "LookupProcessCWD_windows pid = None"

definition LookupProcessCWD :: "host \<Rightarrow> int \<Rightarrow> string option" where
  "LookupProcessCWD h pid =
     (if runtime_GOOS h = Windows then LookupProcessCWD_windows pid
      else LookupProcessCWD_unix h pid)"

section \<open>The process table\<close>

definition parsePsLine :: "time \<Rightarrow> string \<Rightarrow> Process option" where
  "parsePsLine now raw =
     (let line = TrimSpace raw
      in if line = '''' then None
         else case Fields line of
           f0 # f1 # f2 # rest \<Rightarrow>
             (case Atoi f0 of
                (pid, ok) \<Rightarrow>
                  if \<not> ok then None
                  else let ppid = fst (Atoi f1)
                       in Some (zeroProcess\<lparr>
                            p_ID := ''process:'' @ Itoa pid,
                            p_Kind := ''process'',
                            p_PID := pid,
                            p_PPID := ppid,
                            p_Command := f2,
                            p_Args := (if rest \<noteq> [] then Join rest '' '' else ''''),
                            p_Liveness := ''alive'',
                            p_Source := ''process'',
                            p_Confidence := ConfidenceHigh,
                            p_ObservedAt := now\<rparr>))
         | _ \<Rightarrow> None)"

text \<open>\<open>ps -axo pid=,ppid=,comm=,args=\<close> fails with an error or prints its table.\<close>

definition ListProcesses_unix :: "time \<Rightarrow> string + string \<Rightarrow> string + Process list" where
  "ListProcesses_unix now output =
     (case output of
        Inl err \<Rightarrow> Inl err
      | Inr out \<Rightarrow> Inr (List.map_filter (parsePsLine now) (Split (CHR 0x0A) out)))"

definition parseTasklistRecord :: "time \<Rightarrow> string list \<Rightarrow> Process option" where
  "parseTasklistRecord now rec =
     (case rec of
        r0 # r1 # _ \<Rightarrow>
          (case Atoi r1 of
             (pid, ok) \<Rightarrow>
               if \<not> ok then None
               else Some (zeroProcess\<lparr>
                      p_ID := ''process:'' @ Itoa pid,
                      p_Kind := ''process'',
                      p_PID := pid,
                      p_Command := r0,
                      p_Liveness := ''alive'',
                      p_Source := ''process'',
                      p_Confidence := ConfidenceMedium,
                      p_ObservedAt := now\<rparr>))
      | _ \<Rightarrow> None)"

text \<open>
  \<open>tasklist /FO CSV /NH\<close> fails or prints a table, which \<open>encoding/csv\<close> reads into
  records or rejects.
\<close>

definition ListProcesses_windows ::
  "time \<Rightarrow> (string \<Rightarrow> string + string list list) \<Rightarrow> string + string \<Rightarrow> string + Process list" where
  "ListProcesses_windows now readAll output =
     (case output of
        Inl err \<Rightarrow> Inl err
      | Inr out \<Rightarrow>
          (case readAll out of
             Inl err \<Rightarrow> Inl err
           | Inr records \<Rightarrow> Inr (List.map_filter (parseTasklistRecord now) records)))"

section \<open>The contract of a process lister\<close>

definition listed_process :: "Process \<Rightarrow> bool" where
  "listed_process p \<longleftrightarrow>
     p_ID p = ''process:'' @ Itoa (p_PID p) \<and> p_Kind p = ''process'' \<and> p_Liveness p = ''alive'' \<and>
     p_Source p = ''process'' \<and> p_CWD p = '''' \<and> p_SessionIDs p = [] \<and>
     min_int64 \<le> p_PID p \<and> p_PID p \<le> max_int64"

locale process_lister =
  fixes lister :: "'i \<Rightarrow> string + Process list"
  assumes lists: "lister i = Inr ps \<Longrightarrow> p \<in> set ps \<Longrightarrow> listed_process p"
begin

lemma same_id_same_pid:
  "lister i = Inr ps \<Longrightarrow> p \<in> set ps \<Longrightarrow> q \<in> set ps \<Longrightarrow> p_ID p = p_ID q \<Longrightarrow> p_PID p = p_PID q"
  using lists by (metis Itoa_inject listed_process_def same_append_eq)

lemma find_by_id:
  assumes "lister i = Inr ps" and "List.find (\<lambda>p. p_ID p = ''process:'' @ Itoa n) ps = Some p"
  shows "p_PID p = n"
proof -
  from assms(2) have "p \<in> set ps" "p_ID p = ''process:'' @ Itoa n"
    by (auto simp: find_Some_iff)
  with lists [OF assms(1)] show ?thesis
    by (auto simp: listed_process_def dest: Itoa_inject)
qed

end

lemma Atoi_range: "Atoi s = (n, True) \<Longrightarrow> min_int64 \<le> n \<and> n \<le> max_int64"
  by (auto simp: Atoi_def Let_def split: if_splits option.splits)

lemma parsePsLine_listed: "parsePsLine now raw = Some p \<Longrightarrow> listed_process p"
  by (auto simp: parsePsLine_def listed_process_def zeroProcess_def Let_def dest: Atoi_range
      split: if_splits list.splits prod.splits)

lemma parseTasklistRecord_listed: "parseTasklistRecord now rec = Some p \<Longrightarrow> listed_process p"
  by (auto simp: parseTasklistRecord_def listed_process_def zeroProcess_def dest: Atoi_range
      split: if_splits list.splits prod.splits)

lemma set_map_filter: "set (List.map_filter f xs) = {y. \<exists>x \<in> set xs. f x = Some y}"
  by (auto simp: List.map_filter_def image_iff) force

interpretation unix_lister: process_lister "ListProcesses_unix now"
  by unfold_locales
    (auto simp: ListProcesses_unix_def set_map_filter dest: parsePsLine_listed split: sum.splits)

interpretation windows_lister: process_lister "ListProcesses_windows now readAll"
  by unfold_locales
    (auto simp: ListProcesses_windows_def set_map_filter dest: parseTasklistRecord_listed
      split: sum.splits)

end
