(* ===== verification/Runtime_Props.thy ===== *)
theory Runtime_Props
  imports Runtime
begin

text \<open>
  The properties of the process source: an agent is inferred only on evidence, session IDs identify
  processes, and the table \<open>ps\<close> prints is read back row by row.
\<close>

section \<open>Agents\<close>

lemma knownAgent_self: "gm_get knownAgentCommands k = Some v \<Longrightarrow> v = k \<and> k \<in> fst ` set knownAgentCommands"
  by (auto simp: knownAgentCommands_def gm_get_def split: if_splits)

lemma launcherScript_Some:
  "launcherScript h args = Some src \<Longrightarrow>
     \<exists>arg \<in> set args. \<not> HasPrefix arg ''-'' \<and>
       gm_get knownAgentCommands (normalizeCommandName h arg) = Some src \<and>
       (looksLikeCommandPath arg \<longrightarrow> commandPathExists h arg)"
  by (induction h args rule: launcherScript.induct) (auto split: if_splits option.splits)

lemma inferLauncherScriptSource_Some:
  assumes "inferLauncherScriptSource h cmd args = Some src"
  shows "(cmd \<in> set knownScriptLauncherCommands \<or>
      normalizeCommandName h (hd args) \<in> set knownScriptLauncherCommands) \<and>
    (\<exists>arg \<in> set (tl args). \<not> HasPrefix arg ''-'' \<and>
       gm_get knownAgentCommands (normalizeCommandName h arg) = Some src \<and>
       (looksLikeCommandPath arg \<longrightarrow> commandPathExists h arg))"
proof -
  obtain a b r where args: "args = a # b # r"
    using assms by (auto simp: inferLauncherScriptSource_def split: list.splits)
  have "launcherScript h (b # r) = Some src"
    and "cmd \<in> set knownScriptLauncherCommands \<or>
      normalizeCommandName h a \<in> set knownScriptLauncherCommands"
    using assms by (auto simp only: args inferLauncherScriptSource_def Let_def list.case split: if_splits)
  with launcherScript_Some [of h "b # r" src] args show ?thesis by simp
qed

lemma inferAgentSource_known:
  assumes "inferAgentSource h proc = Some src"
  shows "src \<in> set [''codex'', ''claude'', ''opencode'', ''hermes'', ''openclaw'', ''nanoclaw'']"
proof -
  have "\<exists>k. gm_get knownAgentCommands k = Some src"
    using assms inferLauncherScriptSource_Some [of h _ _ src]
    by (fastforce simp: inferAgentSource_def Let_def split: if_splits option.splits)
  then show ?thesis
    using knownAgent_self by (fastforce simp: knownAgentCommands_def)
qed


lemma example_infers:
  "inferAgentSource bareHost (zeroProcess\<lparr>p_Command := ''/opt/bin/codex'', p_Args := ''codex -m''\<rparr>) =
     Some ''codex''"
  by code_simp


lemma agent_no_colon:
  "inferAgentSource h p = Some src \<Longrightarrow> CHR '':'' \<notin> set src"
  using inferAgentSource_known [of h p src] by auto

lemma takeWhile_before: "c \<notin> set a \<Longrightarrow> takeWhile (\<lambda>d. d \<noteq> c) (a @ c # b) = a"
  by (induction a) auto

lemma dropWhile_keep: "xs \<noteq> [] \<Longrightarrow> \<forall>c \<in> set xs. \<not> P c \<Longrightarrow> dropWhile P (xs @ r) = xs @ r"
  by (cases xs) auto

lemma Base_last:
  assumes "runtime_GOOS h \<noteq> Windows" and "name \<noteq> []" and "CHR ''/'' \<notin> set name"
  shows "Base h (dir @ CHR ''/'' # name) = name"
proof -
  have sep: "IsPathSeparator h = (\<lambda>c. c = CHR ''/'')"
    using assms(1) by (simp add: IsPathSeparator_def fun_eq_iff)
  have "dropWhile (\<lambda>c. c = CHR ''/'') (rev name @ r) = rev name @ r" for r
    using assms(2,3) by (intro dropWhile_keep) auto
  moreover have "takeWhile (\<lambda>c. c \<noteq> CHR ''/'') (rev name @ CHR ''/'' # r) = rev name" for r
    using takeWhile_before [of "CHR ''/''" "rev name" r] assms(3) by simp
  ultimately show ?thesis
    using assms(1,2) by (simp add: Base_def sep Let_def)
qed

lemma Trim_last:
  assumes "name \<noteq> []" and "set name \<inter> set quotes = {}" and "CHR ''/'' \<notin> set quotes"
  shows "\<exists>dir'. Trim (dir @ CHR ''/'' # name) quotes = dir' @ CHR ''/'' # name"
proof -
  have "dropWhile (\<lambda>c. c \<in> set quotes) (dir @ CHR ''/'' # name) =
      dropWhile (\<lambda>c. c \<in> set quotes) dir @ CHR ''/'' # name"
    using assms(3) by (simp add: dropWhile_append3)
  moreover have "dropWhile (\<lambda>c. c \<in> set quotes) (rev name @ r) = rev name @ r" for r
    using assms(1,2) by (intro dropWhile_keep) auto
  ultimately show ?thesis by (simp add: Trim_def)
qed

lemma normalize_path:
  assumes "runtime_GOOS h \<noteq> Windows" and "name \<noteq> []" and "CHR ''/'' \<notin> set name"
    and "set name \<inter> {CHR 0x22, CHR 0x27} = {}"
    and "list_all ascii_char name" and "map lower_char name = name"
  shows "normalizeCommandName h (dir @ CHR ''/'' # name) = name"
proof -
  obtain dir' where "Trim (dir @ CHR ''/'' # name) [CHR 0x22, CHR 0x27] = dir' @ CHR ''/'' # name"
    using Trim_last [of name "[CHR 0x22, CHR 0x27]" dir] assms(2,4) by auto
  then show ?thesis
    using Base_last [OF assms(1-3), of dir'] assms(1,5,6)
    by (simp add: normalizeCommandName_def ToLower_def)
qed

text \<open>
  C22. An agent started from any directory is recognised: on Unix, a process whose command is the
  path of a known agent binary is inferred as that agent unless it belongs to an app bundle.
\<close>

theorem agent_path_recognised:
  assumes "runtime_GOOS h \<noteq> Windows"
    and "name \<in> set [''codex'', ''claude'', ''opencode'', ''hermes'', ''openclaw'', ''nanoclaw'']"
    and "p_Command proc = dir @ ''/'' @ name"
    and "\<not> isAppBundleProcess (p_Args proc)"
  shows "inferAgentSource h proc = Some name"
proof -
  have name: "name \<noteq> []" "CHR ''/'' \<notin> set name" "set name \<inter> {CHR 0x22, CHR 0x27} = {}"
    using assms(2) by auto
  moreover have "list_all ascii_char name" "map lower_char name = name"
    using assms(2) by (auto simp: ascii_char_def lower_char_def)
  ultimately have "normalizeCommandName h (p_Command proc) = name"
    using normalize_path [OF assms(1)] by (simp add: assms(3))
  moreover have "gm_get knownAgentCommands name = Some name"
    using assms(2) by (auto simp: knownAgentCommands_def gm_get_def)
  ultimately show ?thesis
    using assms(4) by (simp add: inferAgentSource_def)
qed

theorem agent_path_recognised_witness:
  "inferAgentSource bareHost (zeroProcess\<lparr>p_Command := ''/usr/local/bin/claude''\<rparr>) = Some ''claude''"
  by (rule agent_path_recognised [where dir = "''/usr/local/bin''"])
    (simp_all add: bareHost_def zeroProcess_def isAppBundleProcess_def)

lemma infer_Some:
  assumes "InferAgentProcessSession h proc t = Some x"
  shows "inferAgentSource h proc = Some (s_Source x)"
    and "s_ID x = s_Source x @ '':process:'' @ Itoa (p_PID proc)"
    and "s_RootSessionID x = s_ID x" "s_ParentSessionID x = ''''" "s_Status x = StatusWorking"
    and "s_CWD x = p_CWD proc" "s_StartedAt x = t" "s_LastActivityAt x = t"
    and "s_Kind x = ''session''" "s_Confidence x = ConfidenceLow" "s_Attention x = ''''"
    and "s_WorkspaceIDs x = workspaceIDs (p_CWD proc)" "s_RuntimeIDs x = [p_ID proc]"
  using assms
  by (auto simp: InferAgentProcessSession_def Let_def intString_def zeroSession_def
      split: option.splits)

lemma infer_source_prefix:
  assumes "InferAgentProcessSession h proc t = Some x"
  shows "takeWhile (\<lambda>c. c \<noteq> CHR '':'') (s_ID x) = s_Source x"
  using takeWhile_before [OF agent_no_colon [OF infer_Some(1) [OF assms]]] infer_Some(2) [OF assms]
  by simp

lemma inferAgentSource_cong:
  "p_Command p = p_Command q \<Longrightarrow> p_Args p = p_Args q \<Longrightarrow> inferAgentSource h p = inferAgentSource h q"
  by (simp only: inferAgentSource_def)

text \<open>
  Inferred session IDs identify processes: two inferred sessions with one ID come from the same
  PID and the same agent.
\<close>

theorem infer_session_id_injective:
  assumes "InferAgentProcessSession h p t = Some x" and "InferAgentProcessSession h' q t' = Some y"
    and "s_ID x = s_ID y"
  shows "p_PID p = p_PID q \<and> s_Source x = s_Source y"
proof -
  have src: "s_Source x = s_Source y"
    using infer_source_prefix [OF assms(1)] infer_source_prefix [OF assms(2)] assms(3) by simp
  have "'':process:'' @ Itoa (p_PID p) = '':process:'' @ Itoa (p_PID q)"
    using infer_Some(2) [OF assms(1)] infer_Some(2) [OF assms(2)] assms(3) unfolding src
    by (metis same_append_eq)
  then have "Itoa (p_PID p) = Itoa (p_PID q)"
    by simp
  with src show ?thesis
    by (simp add: Itoa_inject)
qed

lemma example_session:
  "\<exists>x. InferAgentProcessSession bareHost
     (zeroProcess\<lparr>p_PID := n, p_Command := ''/opt/bin/codex'', p_Args := ''codex -m''\<rparr>) 9 = Some x"
proof -
  have "inferAgentSource bareHost
      (zeroProcess\<lparr>p_PID := n, p_Command := ''/opt/bin/codex'', p_Args := ''codex -m''\<rparr>) =
    inferAgentSource bareHost (zeroProcess\<lparr>p_Command := ''/opt/bin/codex'', p_Args := ''codex -m''\<rparr>)"
    by (rule inferAgentSource_cong) simp_all
  then show ?thesis
    unfolding InferAgentProcessSession_def by (simp add: example_infers Let_def)
qed

theorem infer_session_id_injective_witness:
  "\<exists>x y. InferAgentProcessSession bareHost
       (zeroProcess\<lparr>p_PID := 42, p_Command := ''/opt/bin/codex'', p_Args := ''codex -m''\<rparr>) 9 = Some x \<and>
     InferAgentProcessSession bareHost
       (zeroProcess\<lparr>p_PID := 43, p_Command := ''/opt/bin/codex'', p_Args := ''codex -m''\<rparr>) 9 = Some y \<and>
     s_ID x \<noteq> s_ID y"
proof -
  obtain x y where xy: "InferAgentProcessSession bareHost
      (zeroProcess\<lparr>p_PID := 42, p_Command := ''/opt/bin/codex'', p_Args := ''codex -m''\<rparr>) 9 = Some x"
    "InferAgentProcessSession bareHost
      (zeroProcess\<lparr>p_PID := 43, p_Command := ''/opt/bin/codex'', p_Args := ''codex -m''\<rparr>) 9 = Some y"
    using example_session by blast
  have "s_ID x \<noteq> s_ID y"
    using infer_session_id_injective [OF xy] by auto
  with xy show ?thesis by blast
qed

section \<open>The process table\<close>

lemma word_ok_append: "word_ok (a @ b) \<Longrightarrow> word_ok b"
  by (induction a) auto

lemma word_ok_chars: "word_ok w \<Longrightarrow> c \<in> set w \<Longrightarrow> \<not> ascii_space c"
proof (induction w)
  case (Cons d w)
  then show ?case
    by (cases "d # w" rule: space_len.cases) (auto split: if_splits)
qed simp

text \<open>Decimal numbers are words.\<close>

lemma digit_not_space:
  assumes "c = CHR ''-'' \<or> char_digit c \<noteq> None"
  shows "\<not> ascii_space c \<and> \<not> space2 c b \<and> \<not> space3 c b d"
proof -
  have "c \<noteq> x" if "char_digit x = None" "x \<noteq> CHR ''-''" for x
    using assms that by auto
  then show ?thesis
    by (simp add: ascii_space_def space2_def space3_def char_digit_def Let_def)
qed

lemma word_ok_digits:
  "\<forall>c \<in> set w. c = CHR ''-'' \<or> char_digit c \<noteq> None \<Longrightarrow> word_ok w"
proof (induction w)
  case (Cons c w)
  then have "space_len (c # w) = 0"
    using digit_not_space [of c]
    by (cases "c # w" rule: space_len.cases) auto
  with Cons show ?case by simp
qed simp

lemma word_ok_Itoa: "word_ok (Itoa n)"
  using Itoa_chars [of _ n] by (intro word_ok_digits) blast

lemma trim_left_blanks: "trim_left (replicate k (CHR '' '') @ s) = trim_left s"
  by (induction k) (simp_all del: space_len.simps)

lemma trim_left_word: "word_ok w \<Longrightarrow> w \<noteq> [] \<Longrightarrow> trim_left (w @ CHR '' '' # s) = w @ CHR '' '' # s"
  by (cases w) (simp_all add: space_len_append_blank del: space_len.simps)

lemma last_space_len_word:
  assumes "word_ok w" and "w \<noteq> []"
  shows "last_space_len (rev (s @ CHR '' '' # w)) = 0"
proof -
  let ?line = "s @ CHR '' '' # w"
  obtain v z where w: "w = v @ [z]"
    using assms(2) by (cases w rule: rev_cases) auto
  have z: "space_len [z] = 0"
    using word_ok_append [of v "[z]"] assms(1) w by simp
  have two: "space_len [y, z] \<noteq> 2" if "v = u @ [y]" for u y
    using word_ok_append [of u "[y, z]"] assms(1) w that by auto
  have three: "space_len [x, y, z] \<noteq> 3" if "v = u @ [x, y]" for u x y
    using word_ok_append [of u "[x, y, z]"] assms(1) w that by auto
  show ?thesis
  proof (cases v rule: rev_cases)
    case Nil
    have "space_len [CHR '' '', z] \<noteq> 2" by (simp del: space_len.simps)
    moreover have "space_len [x, CHR '' '', z] \<noteq> 3" for x by simp
    ultimately show ?thesis
      using z by (cases s rule: rev_cases)
        (simp_all add: last_space_len_def w Nil numeral_2_eq_2 numeral_3_eq_3 del: space_len.simps)
  next
    case (snoc u y)
    show ?thesis
    proof (cases u rule: rev_cases)
      case Nil
      have "space_len [CHR '' '', y, z] \<noteq> 3" by (simp del: space_len.simps)
      then show ?thesis
        using z two [OF snoc]
        by (simp add: last_space_len_def w snoc Nil numeral_2_eq_2 numeral_3_eq_3
            del: space_len.simps)
    next
      case (snoc u' x)
      then have "v = u' @ [x, y]" using \<open>v = u @ [y]\<close> by simp
      then show ?thesis
        using z two [OF \<open>v = u @ [y]\<close>] three [of u' x y]
        by (simp add: last_space_len_def w numeral_2_eq_2 numeral_3_eq_3 del: space_len.simps)
    qed
  qed
qed

lemma Join_last: "ws \<noteq> [] \<Longrightarrow> \<exists>s. pre @ CHR '' '' # Join ws '' '' = s @ CHR '' '' # last ws"
proof (induction ws arbitrary: pre)
  case (Cons w ws)
  show ?case
  proof (cases ws)
    case Nil
    then show ?thesis by auto
  next
    case (Cons v vs)
    then obtain s where "(pre @ CHR '' '' # w) @ CHR '' '' # Join ws '' '' = s @ CHR '' '' # last ws"
      using Cons.IH [of "pre @ CHR '' '' # w"] by auto
    then have "pre @ CHR '' '' # Join (w # ws) '' '' = s @ CHR '' '' # last (w # ws)"
      using Cons by simp
    then show ?thesis by blast
  qed
qed simp

lemma TrimSpace_line:
  assumes "word_ok w" "w \<noteq> []" and "ws \<noteq> []" "\<forall>v \<in> set ws. word_ok v \<and> v \<noteq> []"
  shows "TrimSpace (replicate k (CHR '' '') @ w @ CHR '' '' # pre @ CHR '' '' # Join ws '' '') =
    w @ CHR '' '' # pre @ CHR '' '' # Join ws '' ''"
proof -
  let ?body = "w @ CHR '' '' # pre @ CHR '' '' # Join ws '' ''"
  obtain s where s: "?body = s @ CHR '' '' # last ws"
    using Join_last [OF assms(3), of "w @ CHR '' '' # pre"] by auto
  have "last_space_len (rev ?body) = 0"
    unfolding s using assms(3,4) last_in_set [OF assms(3)] by (intro last_space_len_word) auto
  then have "trim_left_rev (rev ?body) = rev ?body"
    by (cases "rev ?body") (simp_all only: trim_left_rev.simps Let_def if_True simp_thms)
  moreover have "trim_left (replicate k (CHR '' '') @ ?body) = ?body"
    by (simp only: trim_left_blanks trim_left_word [OF assms(1,2)])
  ultimately show ?thesis
    by (simp only: TrimSpace_def rev_rev_ident)
qed

lemma Fields_blanks: "Fields (replicate k (CHR '' '') @ s) = Fields s"
  by (induction k) (simp_all add: Fields_def Let_def del: space_len.simps)

text \<open>
  A row as \<open>ps\<close> prints it: numbers padded on the left, then the command and its arguments.
\<close>

definition psLine :: "nat \<Rightarrow> nat \<Rightarrow> nat \<Rightarrow> int \<Rightarrow> int \<Rightarrow> string list \<Rightarrow> string" where
  "psLine a b c pid ppid argv =
     replicate a (CHR '' '') @ Itoa pid @ CHR '' '' # replicate b (CHR '' '') @ Itoa ppid @
     CHR '' '' # replicate c (CHR '' '') @ Join argv '' ''"

lemma Fields_psLine:
  assumes "\<forall>w \<in> set argv. word_ok w \<and> w \<noteq> []"
  shows "Fields (psLine a b c pid ppid argv) = Itoa pid # Itoa ppid # argv"
  unfolding psLine_def Fields_blanks
  by (simp add: Fields_word word_ok_Itoa Fields_blanks Fields_Join [OF assms])

lemma TrimSpace_psLine:
  assumes "argv \<noteq> []" "\<forall>w \<in> set argv. word_ok w \<and> w \<noteq> []"
  shows "TrimSpace (psLine a b c pid ppid argv) = psLine 0 b c pid ppid argv"
proof -
  have shift: "CHR '' '' # replicate c (CHR '' '') @ s = replicate c (CHR '' '') @ CHR '' '' # s" for s
    by (simp add: replicate_app_Cons_same)
  show ?thesis
    using TrimSpace_line [OF word_ok_Itoa Itoa_not_Nil assms, of a pid
        "replicate b (CHR '' '') @ Itoa ppid @ replicate c (CHR '' '')"]
    unfolding psLine_def shift by simp
qed

lemma set_Join: "set (Join ws sep) \<subseteq> \<Union> (set ` set ws) \<union> set sep"
  by (induction ws sep rule: Join.induct) auto

lemma newline_not_Itoa: "CHR 0x0A \<notin> set (Itoa n)"
  using Itoa_chars [of "CHR 0x0A" n] by (auto simp: char_digit_def Let_def)

lemma newline_not_psLine:
  assumes "\<forall>w \<in> set argv. word_ok w \<and> w \<noteq> []"
  shows "CHR 0x0A \<notin> set (psLine a b c pid ppid argv)"
proof -
  have "CHR 0x0A \<notin> set w" if "w \<in> set argv" for w
    using word_ok_chars [of w "CHR 0x0A"] assms that by (auto simp: ascii_space_def)
  then have "CHR 0x0A \<notin> set (Join argv '' '')"
    using set_Join [of argv "'' ''"] by auto
  then show ?thesis
    by (simp add: psLine_def newline_not_Itoa)
qed

text \<open>
  C23. The table that \<open>ps -axo pid=,ppid=,comm=,args=\<close> prints is read back: rows of words,
  with any padding of the numeric columns, give one process per row, in order, with its PID, parent
  PID, command and space-separated arguments.
\<close>

theorem ps_table_roundtrip:
  assumes "\<forall>(a, b, c, pid, ppid, comm, args) \<in> set rows.
    min_int64 \<le> pid \<and> pid \<le> max_int64 \<and> min_int64 \<le> ppid \<and> ppid \<le> max_int64 \<and>
    (\<forall>w \<in> set (comm # args). word_ok w \<and> w \<noteq> [])"
  shows "ListProcesses_unix now (Inr (concat
      (map (\<lambda>(a, b, c, pid, ppid, comm, args). psLine a b c pid ppid (comm # args) @ [CHR 0x0A]) rows))) =
    Inr (map (\<lambda>(a, b, c, pid, ppid, comm, args).
      zeroProcess\<lparr>p_ID := ''process:'' @ Itoa pid, p_Kind := ''process'', p_PID := pid,
        p_PPID := ppid, p_Command := comm, p_Args := Join args '' '', p_Liveness := ''alive'',
        p_Source := ''process'', p_Confidence := ConfidenceHigh, p_ObservedAt := now\<rparr>) rows)"
  using assms
proof (induction rows)
  case Nil
  show ?case by (simp add: ListProcesses_unix_def parsePsLine_def TrimSpace_def List.map_filter_simps)
next
  case (Cons row rows)
  obtain a b c pid ppid comm args where row: "row = (a, b, c, pid, ppid, comm, args)"
    by (metis prod_cases7)
  have words: "\<forall>w \<in> set (comm # args). word_ok w \<and> w \<noteq> []"
    and range: "min_int64 \<le> pid" "pid \<le> max_int64" "min_int64 \<le> ppid" "ppid \<le> max_int64"
    using Cons.prems row by auto
  have "psLine 0 b c pid ppid (comm # args) \<noteq> []"
    by (simp add: psLine_def)
  then have parse: "parsePsLine now (psLine a b c pid ppid (comm # args)) = Some (zeroProcess\<lparr>p_ID := ''process:'' @ Itoa pid,
      p_Kind := ''process'', p_PID := pid, p_PPID := ppid, p_Command := comm,
      p_Args := Join args '' '', p_Liveness := ''alive'', p_Source := ''process'',
      p_Confidence := ConfidenceHigh, p_ObservedAt := now\<rparr>)"
    using TrimSpace_psLine [OF _ words, of a b c pid ppid] Fields_psLine [OF words, of 0 b c pid ppid]
      Atoi_Itoa [OF range(1,2)] Atoi_Itoa [OF range(3,4)]
    by (simp add: parsePsLine_def Let_def)
  have "CHR 0x0A \<notin> set (psLine a b c pid ppid (comm # args))"
    using words by (rule newline_not_psLine)
  then show ?case
    using Cons.IH Cons.prems parse row
    by (simp add: ListProcesses_unix_def Split_append List.map_filter_simps)
qed

theorem ps_table_roundtrip_witness:
  "ListProcesses_unix 9 (Inr (psLine 3 1 0 42 1 [''codex'', ''codex'', ''--model'', ''gpt''] @ [CHR 0x0A])) =
     Inr [zeroProcess\<lparr>p_ID := ''process:42'', p_Kind := ''process'', p_PID := 42, p_PPID := 1,
       p_Command := ''codex'', p_Args := ''codex --model gpt'', p_Liveness := ''alive'',
       p_Source := ''process'', p_Confidence := ConfidenceHigh, p_ObservedAt := 9\<rparr>]"
proof -
  have words: "\<forall>w \<in> set [''codex'', ''codex'', ''--model'', ''gpt'']. word_ok w \<and> w \<noteq> []"
    by code_simp
  have "Itoa 42 = ''42''"
    by code_simp
  then show ?thesis
    using ps_table_roundtrip [of "[(3, 1, 0, 42, 1, ''codex'', [''codex'', ''--model'', ''gpt''])]" 9] words
    by (simp add: min_int64_def max_int64_def)
qed

end
