(* ===== verification/Json.thy ===== *)
theory Json
  imports Model
begin

text \<open>
  \<open>json.Unmarshal\<close> into the structs the API decodes, as \<open>encoding/json\<close> documents it:
  the entries of an object are taken in order, each goes to the field with its name, or failing that
  to the field whose name is equal up to case folding; unknown names are ignored; \<open>null\<close>
  leaves a plain field as it is and clears a slice, map or pointer; a value of the wrong kind is an
  error, here \<open>None\<close>. The texts of the errors and the reading of RFC 3339 times belong to the
  host.
\<close>

section \<open>Fields\<close>

fun fold_name :: "string \<Rightarrow> string" where
  "fold_name [] = []"
| "fold_name (a # s) =
     (if 97 \<le> (of_char a :: nat) \<and> (of_char a :: nat) \<le> 122
      then char_of ((of_char a :: nat) - 32) # fold_name s
      else if HasPrefix (a # s) [CHR 0xC5, CHR 0xBF] then CHR ''S'' # fold_name (drop 1 s)
      else if HasPrefix (a # s) [CHR 0xE2, CHR 0x84, CHR 0xAA] then CHR ''K'' # fold_name (drop 2 s)
      else a # fold_name s)"

type_synonym 'r field = "string \<times> ('r \<Rightarrow> json \<Rightarrow> 'r option)"

definition field_for :: "'r field list \<Rightarrow> string \<Rightarrow> ('r \<Rightarrow> json \<Rightarrow> 'r option) option" where
  "field_for fs k =
     (case map_of fs k of
        Some f \<Rightarrow> Some f
      | None \<Rightarrow> map_option snd (List.find (\<lambda>f. fold_name (fst f) = fold_name k) fs))"

fun decode_entries :: "'r field list \<Rightarrow> 'r \<Rightarrow> (string \<times> json) list \<Rightarrow> 'r option" where
  "decode_entries fs r [] = Some r"
| "decode_entries fs r ((k, v) # kvs) =
     (case field_for fs k of
        None \<Rightarrow> decode_entries fs r kvs
      | Some upd \<Rightarrow> (case upd r v of None \<Rightarrow> None | Some r' \<Rightarrow> decode_entries fs r' kvs))"

definition decode_struct :: "'r field list \<Rightarrow> 'r \<Rightarrow> json \<Rightarrow> 'r option" where
  "decode_struct fs r j =
     (case j of JNull \<Rightarrow> Some r | JObj kvs \<Rightarrow> decode_entries fs r kvs | _ \<Rightarrow> None)"

text \<open>A field: its name, its decoder from the current value, its selector and its update.\<close>

definition fld ::
  "string \<Rightarrow> ('a \<Rightarrow> json \<Rightarrow> 'a option) \<Rightarrow> ('r \<Rightarrow> 'a) \<Rightarrow> (('a \<Rightarrow> 'a) \<Rightarrow> 'r \<Rightarrow> 'r) \<Rightarrow> 'r field" where
  "fld name dec sel upd = (name, \<lambda>r j. map_option (\<lambda>v. upd (\<lambda>_. v) r) (dec (sel r) j))"

section \<open>Values\<close>

definition dec_string :: "string \<Rightarrow> json \<Rightarrow> string option" where
  "dec_string cur j = (case j of JNull \<Rightarrow> Some cur | JStr s \<Rightarrow> Some s | _ \<Rightarrow> None)"

definition dec_bool :: "bool \<Rightarrow> json \<Rightarrow> bool option" where
  "dec_bool cur j = (case j of JNull \<Rightarrow> Some cur | JBool b \<Rightarrow> Some b | _ \<Rightarrow> None)"

text \<open>An \<open>int\<close> or \<open>int64\<close>: the literal must be an integer in range.\<close>

definition dec_int :: "int \<Rightarrow> json \<Rightarrow> int option" where
  "dec_int cur j =
     (case j of
        JNull \<Rightarrow> Some cur
      | JNum lit \<Rightarrow> (case Atoi lit of (n, ok) \<Rightarrow> if ok then Some n else None)
      | _ \<Rightarrow> None)"

definition dec_strings :: "string list \<Rightarrow> json \<Rightarrow> string list option" where
  "dec_strings cur j =
     (case j of
        JNull \<Rightarrow> Some []
      | JArr xs \<Rightarrow> those (map (dec_string '''') xs)
      | _ \<Rightarrow> None)"

definition dec_time :: "host \<Rightarrow> time \<Rightarrow> json \<Rightarrow> time option" where
  "dec_time h cur j = (case j of JNull \<Rightarrow> Some cur | JStr s \<Rightarrow> parse_time h s | _ \<Rightarrow> None)"

definition dec_time_ptr :: "host \<Rightarrow> time option \<Rightarrow> json \<Rightarrow> time option option" where
  "dec_time_ptr h cur j =
     (case j of JNull \<Rightarrow> Some None | JStr s \<Rightarrow> map_option Some (parse_time h s) | _ \<Rightarrow> None)"

definition put_all :: "gometa \<Rightarrow> gometa \<Rightarrow> gometa" where
  "put_all m kvs = fold (\<lambda>(k, v). gm_put k v) kvs m"

primrec goval_of :: "json \<Rightarrow> goval" where
  "goval_of JNull = GNil"
| "goval_of (JBool b) = GBool b"
| "goval_of (JNum lit) = GNumber lit"
| "goval_of (JStr s) = GString s"
| "goval_of (JArr xs) = GSlice (map goval_of xs)"
| "goval_of (JObj kvs) = GMap (put_all [] (map (map_prod id goval_of) kvs))"

definition dec_meta :: "gometa \<Rightarrow> json \<Rightarrow> gometa option" where
  "dec_meta cur j =
     (case j of
        JNull \<Rightarrow> Some []
      | JObj kvs \<Rightarrow> Some (put_all cur (map (map_prod id goval_of) kvs))
      | _ \<Rightarrow> None)"

section \<open>The structs of the model\<close>

definition agentFields :: "Agent field list" where
  "agentFields =
     [fld ''name'' dec_string a_Name a_Name_update,
      fld ''vendor'' dec_string a_Vendor a_Vendor_update,
      fld ''adapter'' dec_string a_Adapter a_Adapter_update]"

definition capabilitiesFields :: "Capabilities field list" where
  "capabilitiesFields =
     [fld ''logs'' dec_bool c_Logs c_Logs_update,
      fld ''children'' dec_bool c_Children c_Children_update,
      fld ''attach'' dec_bool c_Attach c_Attach_update,
      fld ''stop'' dec_bool c_Stop c_Stop_update,
      fld ''sendPrompt'' dec_bool c_SendPrompt c_SendPrompt_update,
      fld ''approvals'' dec_bool c_Approvals c_Approvals_update]"

definition sessionFields :: "host \<Rightarrow> Session field list" where
  "sessionFields h =
     [fld ''id'' dec_string s_ID s_ID_update,
      fld ''kind'' dec_string s_Kind s_Kind_update,
      fld ''agent'' (decode_struct agentFields) s_Agent s_Agent_update,
      fld ''title'' dec_string s_Title s_Title_update,
      fld ''summary'' dec_string s_Summary s_Summary_update,
      fld ''status'' dec_string s_Status s_Status_update,
      fld ''attention'' dec_string s_Attention s_Attention_update,
      fld ''statusDetail'' dec_string s_StatusDetail s_StatusDetail_update,
      fld ''confidence'' dec_string s_Confidence s_Confidence_update,
      fld ''source'' dec_string s_Source s_Source_update,
      fld ''cwd'' dec_string s_CWD s_CWD_update,
      fld ''workspaceRoots'' dec_strings s_WorkspaceRoots s_WorkspaceRoots_update,
      fld ''startedAt'' (dec_time h) s_StartedAt s_StartedAt_update,
      fld ''lastActivityAt'' (dec_time h) s_LastActivityAt s_LastActivityAt_update,
      fld ''endedAt'' (dec_time_ptr h) s_EndedAt s_EndedAt_update,
      fld ''parentSessionId'' dec_string s_ParentSessionID s_ParentSessionID_update,
      fld ''rootSessionId'' dec_string s_RootSessionID s_RootSessionID_update,
      fld ''runtimeIds'' dec_strings s_RuntimeIDs s_RuntimeIDs_update,
      fld ''workspaceIds'' dec_strings s_WorkspaceIDs s_WorkspaceIDs_update,
      fld ''artifactIds'' dec_strings s_ArtifactIDs s_ArtifactIDs_update,
      fld ''capabilities'' (decode_struct capabilitiesFields) s_Capabilities s_Capabilities_update,
      fld ''meta'' dec_meta s_Meta s_Meta_update]"

definition workspaceFields :: "host \<Rightarrow> Workspace field list" where
  "workspaceFields h =
     [fld ''id'' dec_string w_ID w_ID_update,
      fld ''kind'' dec_string w_Kind w_Kind_update,
      fld ''path'' dec_string w_Path w_Path_update,
      fld ''repoRoot'' dec_string w_RepoRoot w_RepoRoot_update,
      fld ''branch'' dec_string w_Branch w_Branch_update,
      fld ''sessionIds'' dec_strings w_SessionIDs w_SessionIDs_update,
      fld ''source'' dec_string w_Source w_Source_update,
      fld ''confidence'' dec_string w_Confidence w_Confidence_update,
      fld ''observedAt'' (dec_time h) w_ObservedAt w_ObservedAt_update,
      fld ''meta'' dec_meta w_Meta w_Meta_update]"

definition edgeFields :: "host \<Rightarrow> Edge field list" where
  "edgeFields h =
     [fld ''id'' dec_string e_ID e_ID_update,
      fld ''from'' dec_string e_From e_From_update,
      fld ''to'' dec_string e_To e_To_update,
      fld ''type'' dec_string e_Type e_Type_update,
      fld ''source'' dec_string e_Source e_Source_update,
      fld ''confidence'' dec_string e_Confidence e_Confidence_update,
      fld ''observedAt'' (dec_time h) e_ObservedAt e_ObservedAt_update]"

end
