(* ===== verification/Api.thy ===== *)
theory Api
  imports Store Runtime Json
begin

text \<open>
  The JSON-RPC surface, \<open>internal/api/handler.go\<close> and \<open>internal/api/jsonrpc.go\<close>.
  A \<open>World\<close> is what a handler call reads and changes: the store, the clock
  (\<open>time.Now()\<close> returns \<open>clock w (ticks w)\<close> and advances), the iteration order of the
  next range over a map, the answers of the process lister, and the number of shutdowns the handler
  has scheduled. All of these are arbitrary functions, so a theorem about every \<open>World\<close> speaks
  of every clock, every iteration order and every process table.
\<close>

section \<open>Messages\<close>

record Request =
  q_JSONRPC :: string
  q_ID :: "json option"
  q_Method :: string
  q_Params :: "json option"

record RpcError =
  r_Code :: int
  r_Message :: string

datatype result =
    RInfo string string string int time
  | RFlag string bool
  | RText string string
  | RSessions "Session list"
  | RSession Session
  | RProcesses "Process list"
  | RProcess Process
  | RWorkspaces "Workspace list"
  | RWorkspace Workspace
  | RLineage Lineage
  | REvents "Event list"
  | RSources "Source list"
  | RSource Source
  | REdge Edge

record Response =
  t_JSONRPC :: string
  t_ID :: "json option"
  t_Result :: "result option"
  t_Error :: "RpcError option"

record Notification =
  n_JSONRPC :: string
  n_Method :: string
  n_Params :: Event

definition ErrCodeParseError :: int where "ErrCodeParseError = -32700"
definition ErrCodeInvalidRequest :: int where "ErrCodeInvalidRequest = -32600"
definition ErrCodeMethodNotFound :: int where "ErrCodeMethodNotFound = -32601"
definition ErrCodeInvalidParams :: int where "ErrCodeInvalidParams = -32602"
definition ErrCodeInternal :: int where "ErrCodeInternal = -32603"

lemmas error_code_defs = ErrCodeParseError_def ErrCodeInvalidRequest_def
  ErrCodeMethodNotFound_def ErrCodeInvalidParams_def ErrCodeInternal_def

definition invalidParams :: "string \<Rightarrow> RpcError" where
  "invalidParams err = \<lparr>r_Code = ErrCodeInvalidParams, r_Message = err\<rparr>"

definition internalErr :: "string \<Rightarrow> RpcError" where
  "internalErr err = \<lparr>r_Code = ErrCodeInternal, r_Message = err\<rparr>"

definition notFound :: "string \<Rightarrow> string \<Rightarrow> RpcError" where
  "notFound kind id' = \<lparr>r_Code = 404, r_Message = kind @ '' not found: '' @ id'\<rparr>"

section \<open>The handler's world\<close>

record World =
  store :: Store
  clock :: "nat \<Rightarrow> time"
  ticks :: nat
  orders :: "nat \<Rightarrow> nat list"
  ranges :: nat
  procs :: "nat \<Rightarrow> string + Process list"
  calls :: nat
  shutdowns :: nat

record Handler =
  h_startedAt :: time
  h_shutdown :: bool \<comment> \<open>a shutdown function has been set\<close>

text \<open>
  A call of the store that reads the clock twice or once, one that ranges over a map, one that only
  reads, and a call of the process lister.
\<close>

definition timeNow :: "World \<Rightarrow> time \<times> World" where
  "timeNow w = (clock w (ticks w), w\<lparr>ticks := Suc (ticks w)\<rparr>)"

definition timed2 :: "(time \<Rightarrow> time \<Rightarrow> Store \<Rightarrow> 'a \<times> Store) \<Rightarrow> World \<Rightarrow> 'a \<times> World" where
  "timed2 f w =
     (case f (clock w (ticks w)) (clock w (Suc (ticks w))) (store w) of
        (r, s) \<Rightarrow> (r, w\<lparr>store := s, ticks := ticks w + 2\<rparr>))"

definition timed1 :: "(time \<Rightarrow> Store \<Rightarrow> 'a \<times> Store) \<Rightarrow> World \<Rightarrow> 'a \<times> World" where
  "timed1 f w =
     (case f (clock w (ticks w)) (store w) of
        (r, s) \<Rightarrow> (r, w\<lparr>store := s, ticks := Suc (ticks w)\<rparr>))"

definition ranged :: "(nat list \<Rightarrow> Store \<Rightarrow> 'a) \<Rightarrow> World \<Rightarrow> 'a \<times> World" where
  "ranged f w = (f (orders w (ranges w)) (store w), w\<lparr>ranges := Suc (ranges w)\<rparr>)"

definition listProcesses :: "World \<Rightarrow> (string + Process list) \<times> World" where
  "listProcesses w = (procs w (calls w), w\<lparr>calls := Suc (calls w)\<rparr>)"

definition NewHandler :: "World \<Rightarrow> Handler \<times> World" where
  "NewHandler w = (case timeNow w of (now, w) \<Rightarrow> (\<lparr>h_startedAt = now, h_shutdown = False\<rparr>, w))"

definition SetShutdown :: "bool \<Rightarrow> Handler \<Rightarrow> Handler" where
  "SetShutdown isSet hr = hr\<lparr>h_shutdown := isSet\<rparr>"

section \<open>Parameters\<close>

definition decodeParams ::
  "host \<Rightarrow> string \<Rightarrow> 'r field list \<Rightarrow> 'r \<Rightarrow> json option \<Rightarrow> string + 'r" where
  "decodeParams h method fs zero params =
     (case params of
        None \<Rightarrow> Inr zero
      | Some JNull \<Rightarrow> Inr zero
      | Some j \<Rightarrow>
          (case decode_struct fs zero j of
             None \<Rightarrow> Inl (unmarshal_error h method j)
           | Some r \<Rightarrow> Inr r))"

definition ParseStatusFilter :: "string \<Rightarrow> string list" where
  "ParseStatusFilter value =
     (if value = '''' then []
      else filter (\<lambda>x. x \<noteq> '''') (map TrimSpace (Split (CHR '','') value)))"

record IDParams =
  i_ID :: string

definition idFields :: "IDParams field list" where
  "idFields = [fld ''id'' dec_string i_ID i_ID_update]"

definition lineageFields :: "IDParams field list" where
  "lineageFields = [fld ''sessionId'' dec_string i_ID i_ID_update]"

definition zeroID :: IDParams where
  "zeroID = \<lparr>i_ID = ''''\<rparr>"

definition listFields :: "SessionFilter field list" where
  "listFields =
     [fld ''all'' dec_bool f_All f_All_update,
      fld ''status'' dec_strings f_Status f_Status_update,
      fld ''workspace'' dec_string f_Workspace f_Workspace_update,
      fld ''source'' dec_string f_Source f_Source_update]"

definition zeroFilter :: SessionFilter where
  "zeroFilter = \<lparr>f_All = False, f_Status = [], f_Workspace = '''', f_Source = ''''\<rparr>"

record EventsParams =
  ev_Since :: int
  ev_Limit :: int

definition eventsFields :: "EventsParams field list" where
  "eventsFields =
     [fld ''since'' dec_int ev_Since ev_Since_update,
      fld ''limit'' dec_int ev_Limit ev_Limit_update]"

definition subscribeFields :: "EventsParams field list" where
  "subscribeFields = [fld ''since'' dec_int ev_Since ev_Since_update]"

definition zeroEvents :: EventsParams where
  "zeroEvents = \<lparr>ev_Since = 0, ev_Limit = 0\<rparr>"

section \<open>Reconciling process sessions\<close>

definition isInferredProcessSession :: "Session \<Rightarrow> bool" where
  "isInferredProcessSession session =
     (case gm_get (s_Meta session) ''process'' of
        Some (GMap processMeta) \<Rightarrow> gm_get processMeta ''inferred'' = Some (GBool True)
      | _ \<Rightarrow> False)"

record Recon =
  seen :: "string list"
  pidToSession :: "(int, string) gomap"
  inferredProcesses :: "Process list"

text \<open>A missing working directory is looked up and recorded in process and session.\<close>

definition withCWD :: "host \<Rightarrow> Process \<Rightarrow> Session \<Rightarrow> Process \<times> Session" where
  "withCWD h proc session =
     (if s_CWD session = ''''
      then case LookupProcessCWD h (p_PID proc) of
             Some cwd \<Rightarrow>
               (proc\<lparr>p_CWD := cwd\<rparr>,
                session\<lparr>s_CWD := cwd, s_WorkspaceRoots := [cwd],
                  s_WorkspaceIDs := [''workspace:'' @ cwd]\<rparr>)
           | None \<Rightarrow> (proc, session)
      else (proc, session))"

definition recordAgent :: "time \<Rightarrow> Process \<Rightarrow> Session \<Rightarrow> Recon \<times> World \<Rightarrow> Recon \<times> World" where
  "recordAgent now proc session st =
     (case st of
        (rc, w) \<Rightarrow>
          (let rc = rc\<lparr>seen := s_ID session # seen rc,
                 pidToSession := gm_put (p_PID proc) (s_ID session) (pidToSession rc),
                 inferredProcesses := inferredProcesses rc @ [proc]\<rparr>;
               w = snd (timed2 (\<lambda>n m. UpsertSession n m session) w);
               w = (if s_CWD session \<noteq> ''''
                    then snd (timed2 (\<lambda>n m. UpsertWorkspace n m
                           (zeroWorkspace\<lparr>w_ID := ''workspace:'' @ s_CWD session,
                              w_Kind := ''workspace'', w_Path := s_CWD session,
                              w_SessionIDs := [s_ID session], w_Source := s_Source session,
                              w_Confidence := ConfidenceLow, w_ObservedAt := now\<rparr>)) w)
                    else w)
           in (rc, w)))"

text \<open>The body of the loop over the listed processes.\<close>

definition inferStep :: "host \<Rightarrow> time \<Rightarrow> Process \<Rightarrow> Recon \<times> World \<Rightarrow> Recon \<times> World" where
  "inferStep h now proc st =
     (case InferAgentProcessSession h proc now of
        None \<Rightarrow> st
      | Some session \<Rightarrow>
          (case withCWD h proc session of
             (proc, session) \<Rightarrow>
               (case GetSession (s_ID session) (store (snd st)) of
                  Some existing \<Rightarrow>
                    if \<not> isInferredProcessSession existing then st
                    else recordAgent now proc (session\<lparr>s_StartedAt := s_StartedAt existing\<rparr>) st
                | None \<Rightarrow> recordAgent now proc session st)))"

definition mapString :: "(int, string) gomap \<Rightarrow> int \<Rightarrow> string" where
  "mapString m k = (case gm_get m k of Some v \<Rightarrow> v | None \<Rightarrow> '''')"

definition spawnedByID :: "string \<Rightarrow> string \<Rightarrow> string" where
  "spawnedByID childID parentID = ''process:spawned_by:'' @ childID @ ''->'' @ parentID"

definition linkChild :: "string \<Rightarrow> string \<Rightarrow> World \<Rightarrow> World" where
  "linkChild childID parentID w =
     (case GetSession childID (store w) of
        Some child \<Rightarrow>
          if isInferredProcessSession child
          then let child = child\<lparr>s_ParentSessionID := parentID, s_RootSessionID := parentID\<rparr>;
                   child = (case GetSession parentID (store w) of
                              Some parent \<Rightarrow>
                                if s_RootSessionID parent \<noteq> ''''
                                then child\<lparr>s_RootSessionID := s_RootSessionID parent\<rparr> else child
                            | None \<Rightarrow> child)
               in snd (timed2 (\<lambda>n m. UpsertSession n m child) w)
          else w
      | None \<Rightarrow> w)"

text \<open>The body of the loop over the recorded processes.\<close>

definition linkStep ::
  "time \<Rightarrow> (int, string) gomap \<Rightarrow> Process \<Rightarrow> string list \<times> World \<Rightarrow> string list \<times> World" where
  "linkStep now pids proc st =
     (case st of
        (seenEdges, w) \<Rightarrow>
          (let parentID = mapString pids (p_PPID proc);
               childID = mapString pids (p_PID proc)
           in if parentID = '''' \<or> childID = '''' then (seenEdges, w)
              else let w = linkChild childID parentID w;
                       edgeID = spawnedByID childID parentID
                   in (edgeID # seenEdges,
                       snd (timed2 (\<lambda>n m. UpsertEdge n m
                         (zeroEdge\<lparr>e_ID := edgeID, e_From := childID, e_To := parentID,
                            e_Type := ''spawned_by'', e_Source := ''process'',
                            e_Confidence := ConfidenceLow, e_ObservedAt := now\<rparr>)) w))))"

definition dropSession :: "string list \<Rightarrow> Session \<Rightarrow> World \<Rightarrow> World" where
  "dropSession ids session w =
     (if isInferredProcessSession session \<and> s_ID session \<notin> set ids
      then snd (timed1 (\<lambda>m. RemoveSession m (s_ID session)) w) else w)"

definition dropEdge :: "string list \<Rightarrow> Edge \<Rightarrow> World \<Rightarrow> World" where
  "dropEdge ids edge w =
     (if HasPrefix (e_ID edge) ''process:spawned_by:'' \<and> e_ID edge \<notin> set ids
      then snd (timed1 (\<lambda>m. RemoveEdge m (e_ID edge)) w) else w)"

definition allFilter :: SessionFilter where
  "allFilter = zeroFilter\<lparr>f_All := True\<rparr>"

definition emptyRecon :: Recon where
  "emptyRecon = \<lparr>seen = [], pidToSession = [], inferredProcesses = []\<rparr>"

definition reconcileWith :: "host \<Rightarrow> Process list \<Rightarrow> World \<Rightarrow> World" where
  "reconcileWith h processes w =
     (case timeNow w of (now, w) \<Rightarrow>
      case fold (inferStep h now) processes (emptyRecon, w) of (rc, w) \<Rightarrow>
      case fold (linkStep now (pidToSession rc)) (inferredProcesses rc) ([], w) of (seenEdges, w) \<Rightarrow>
      case ranged (\<lambda>ord. ListSessions ord allFilter) w of (ss, w) \<Rightarrow>
      (let w = fold (dropSession (seen rc)) ss w
       in case ranged ListEdges w of (es, w) \<Rightarrow> fold (dropEdge seenEdges) es w))"

text \<open>\<open>reconcileProcessSessions\<close>: the lister's error, or the new world.\<close>

definition reconcileProcessSessions :: "host \<Rightarrow> World \<Rightarrow> (string + unit) \<times> World" where
  "reconcileProcessSessions h w =
     (case listProcesses w of
        (Inl err, w) \<Rightarrow> (Inl err, w)
      | (Inr processes, w) \<Rightarrow> (Inr (), reconcileWith h processes w))"

section \<open>Methods\<close>

type_synonym answer = "(RpcError + result) \<times> World"

text \<open>
  One definition per case of \<open>Handle\<close>. \<open>withParams\<close> is the opening every method with
  parameters shares: decode, or answer with \<open>invalidParams\<close>.
\<close>

definition withParams :: "string + 'p \<Rightarrow> ('p \<Rightarrow> World \<Rightarrow> answer) \<Rightarrow> World \<Rightarrow> answer" where
  "withParams p body w = (case p of Inl err \<Rightarrow> (Inl (invalidParams err), w) | Inr r \<Rightarrow> body r w)"

definition answers :: "('a \<Rightarrow> result) \<Rightarrow> 'a \<times> World \<Rightarrow> answer" where
  "answers f aw = (Inr (f (fst aw)), snd aw)"

definition found :: "('a \<Rightarrow> result) \<Rightarrow> string \<Rightarrow> string \<Rightarrow> 'a option \<Rightarrow> RpcError + result" where
  "found f kind id' r = (case r of None \<Rightarrow> Inl (notFound kind id') | Some x \<Rightarrow> Inr (f x))"

definition daemonInfo :: "host \<Rightarrow> Handler \<Rightarrow> World \<Rightarrow> answer" where
  "daemonInfo h hr w =
     (Inr (RInfo ''The Score'' ''scored'' ''score-jsonrpc/v1'' (getpid h) (h_startedAt hr)), w)"

definition daemonShutdown :: "Handler \<Rightarrow> World \<Rightarrow> answer" where
  "daemonShutdown hr w =
     (if \<not> h_shutdown hr
      then (Inl \<lparr>r_Code = ErrCodeInternal, r_Message = ''daemon shutdown is not configured''\<rparr>, w)
      else (Inr (RFlag ''shutdown'' True), w\<lparr>shutdowns := Suc (shutdowns w)\<rparr>))"

definition sessionsList :: "host \<Rightarrow> SessionFilter \<Rightarrow> World \<Rightarrow> answer" where
  "sessionsList h p w =
     (case reconcileProcessSessions h w of
        (Inl err, w) \<Rightarrow> (Inl (internalErr err), w)
      | (Inr _, w) \<Rightarrow> answers RSessions (ranged (\<lambda>ord. ListSessions ord p) w))"

definition sessionsGet :: "IDParams \<Rightarrow> World \<Rightarrow> answer" where
  "sessionsGet p w = (found RSession ''session'' (i_ID p) (GetSession (i_ID p) (store w)), w)"

definition processesList :: "World \<Rightarrow> answer" where
  "processesList w =
     (case listProcesses w of
        (Inl err, w) \<Rightarrow> (Inl (internalErr err), w)
      | (Inr processes, w) \<Rightarrow> (Inr (RProcesses processes), w))"

definition processesGet :: "IDParams \<Rightarrow> World \<Rightarrow> answer" where
  "processesGet p w =
     (case listProcesses w of
        (Inl err, w) \<Rightarrow> (Inl (internalErr err), w)
      | (Inr processes, w) \<Rightarrow>
          (found RProcess ''process'' (i_ID p) (List.find (\<lambda>proc. p_ID proc = i_ID p) processes), w))"

definition workspacesGet :: "IDParams \<Rightarrow> World \<Rightarrow> answer" where
  "workspacesGet p w =
     (found RWorkspace ''workspace'' (i_ID p) (GetWorkspace (i_ID p) (store w)), w)"

definition lineageGet :: "IDParams \<Rightarrow> World \<Rightarrow> answer" where
  "lineageGet p w =
     (let n = ranges w
      in (Inr (RLineage (LineageOf (orders w n) (orders w (n + 1)) (orders w (n + 2)) (i_ID p)
            (store w))),
          w\<lparr>ranges := n + 3\<rparr>))"

definition eventsList :: "EventsParams \<Rightarrow> World \<Rightarrow> answer" where
  "eventsList p w = (Inr (REvents (ListEvents (ev_Since p) (ev_Limit p) (store w))), w)"

definition sourcesDoctor :: "IDParams \<Rightarrow> World \<Rightarrow> answer" where
  "sourcesDoctor p w =
     (if i_ID p = '''' then answers RSources (ranged ListSources w)
      else (found RSource ''source'' (i_ID p) (GetSource (i_ID p) (store w)), w))"

definition observeSession :: "Session \<Rightarrow> World \<Rightarrow> answer" where
  "observeSession session w =
     (if s_ID session = '''' then (Inl (invalidParams ''id is required''), w)
      else answers RSession (timed2 (\<lambda>n m. UpsertSession n m session) w))"

definition observeRemoval :: "IDParams \<Rightarrow> World \<Rightarrow> answer" where
  "observeRemoval p w = answers (RFlag ''removed'') (timed1 (\<lambda>m. RemoveSession m (i_ID p)) w)"

definition observeWorkspace :: "Workspace \<Rightarrow> World \<Rightarrow> answer" where
  "observeWorkspace workspace w =
     (if w_ID workspace = '''' \<and> w_Path workspace = ''''
      then (Inl (invalidParams ''id or path is required''), w)
      else answers RWorkspace (timed2 (\<lambda>n m. UpsertWorkspace n m workspace) w))"

definition observeEdge :: "Edge \<Rightarrow> World \<Rightarrow> answer" where
  "observeEdge edge w =
     (if e_From edge = '''' \<or> e_To edge = '''' \<or> e_Type edge = ''''
      then (Inl (invalidParams ''from, to, and type are required''), w)
      else answers REdge (timed2 (\<lambda>n m. UpsertEdge n m edge) w))"

text \<open>The cases of the \<open>switch\<close> in \<open>Handle\<close>, in the order of the source.\<close>

definition methods :: "host \<Rightarrow> Handler \<Rightarrow> json option \<Rightarrow> (string \<times> (World \<Rightarrow> answer)) list" where
  "methods h hr params =
     [(''daemon/info'', daemonInfo h hr),
      (''daemon/shutdown'', daemonShutdown hr),
      (''health/check'', \<lambda>w. (Inr (RText ''status'' ''ok''), w)),
      (''sessions/list'',
        withParams (decodeParams h ''sessions/list'' listFields zeroFilter params) (sessionsList h)),
      (''sessions/get'', withParams (decodeParams h ''sessions/get'' idFields zeroID params) sessionsGet),
      (''processes/list'', processesList),
      (''processes/get'', withParams (decodeParams h ''processes/get'' idFields zeroID params) processesGet),
      (''workspaces/list'', \<lambda>w. answers RWorkspaces (ranged ListWorkspaces w)),
      (''workspaces/get'',
        withParams (decodeParams h ''workspaces/get'' idFields zeroID params) workspacesGet),
      (''lineage/get'', withParams (decodeParams h ''lineage/get'' lineageFields zeroID params) lineageGet),
      (''events/list'', withParams (decodeParams h ''events/list'' eventsFields zeroEvents params) eventsList),
      (''sources/list'', \<lambda>w. answers RSources (ranged ListSources w)),
      (''sources/doctor'', withParams (decodeParams h ''sources/doctor'' idFields zeroID params) sourcesDoctor),
      (''observations/upsertSession'',
        withParams (decodeParams h ''observations/upsertSession'' (sessionFields h) zeroSession params)
          observeSession),
      (''observations/removeSession'',
        withParams (decodeParams h ''observations/removeSession'' idFields zeroID params) observeRemoval),
      (''observations/upsertWorkspace'',
        withParams (decodeParams h ''observations/upsertWorkspace'' (workspaceFields h) zeroWorkspace params)
          observeWorkspace),
      (''observations/upsertEdge'',
        withParams (decodeParams h ''observations/upsertEdge'' (edgeFields h) zeroEdge params) observeEdge)]"

definition Handle :: "host \<Rightarrow> Handler \<Rightarrow> string \<Rightarrow> json option \<Rightarrow> World \<Rightarrow> answer" where
  "Handle h hr method params w =
     (case map_of (methods h hr params) method of
        Some handler \<Rightarrow> handler w
      | None \<Rightarrow>
          (Inl \<lparr>r_Code = ErrCodeMethodNotFound, r_Message = ''method not found: '' @ method\<rparr>, w))"

section \<open>Connections\<close>

definition dec_raw :: "json option \<Rightarrow> json \<Rightarrow> json option option" where
  "dec_raw cur j = Some (Some j)"

definition requestFields :: "Request field list" where
  "requestFields =
     [fld ''jsonrpc'' dec_string q_JSONRPC q_JSONRPC_update,
      fld ''id'' dec_raw q_ID q_ID_update,
      fld ''method'' dec_string q_Method q_Method_update,
      fld ''params'' dec_raw q_Params q_Params_update]"

definition zeroRequest :: Request where
  "zeroRequest = \<lparr>q_JSONRPC = '''', q_ID = None, q_Method = '''', q_Params = None\<rparr>"

text \<open>
  What the decoder of a connection meets next: a JSON value, input that is not JSON or a failing
  connection (with the error's text), or the end of the stream.
\<close>

datatype incoming = Value json | Malformed string | EOF

text \<open>\<open>dec.Decode(&req)\<close>: a request, or an error and whether it is \<open>io.EOF\<close>.\<close>

fun decodeRequest :: "host \<Rightarrow> incoming \<Rightarrow> (bool \<times> string) + Request" where
  "decodeRequest h EOF = Inl (True, ''EOF'')"
| "decodeRequest h (Malformed err) = Inl (False, err)"
| "decodeRequest h (Value j) =
     (case decode_struct requestFields zeroRequest j of
        None \<Rightarrow> Inl (False, unmarshal_error h ''request'' j)
      | Some req \<Rightarrow> Inr req)"

definition parseErrorResponse :: "string \<Rightarrow> Response" where
  "parseErrorResponse err =
     \<lparr>t_JSONRPC = ''2.0'', t_ID = None, t_Result = None,
      t_Error = Some \<lparr>r_Code = ErrCodeParseError, r_Message = err\<rparr>\<rparr>"

definition responseTo :: "Request \<Rightarrow> RpcError + result \<Rightarrow> Response" where
  "responseTo req r =
     \<lparr>t_JSONRPC = ''2.0'', t_ID = q_ID req,
      t_Result = (case r of Inl _ \<Rightarrow> None | Inr x \<Rightarrow> Some x),
      t_Error = (case r of Inl e \<Rightarrow> Some e | Inr _ \<Rightarrow> None)\<rparr>"

text \<open>
  \<open>ServeConn\<close> up to a subscription: the responses it writes, the subscription request it stops
  at, if any, and the new world. Each input comes with whether the write of its response succeeds;
  a failing write ends the connection. When the list of inputs is used up the connection waits.
\<close>

fun ServeConn ::
  "host \<Rightarrow> Handler \<Rightarrow> (incoming \<times> bool) list \<Rightarrow> World \<Rightarrow> Response list \<times> Request option \<times> World" where
  "ServeConn h hr [] w = ([], None, w)"
| "ServeConn h hr ((i, wr) # is) w =
     (case decodeRequest h i of
        Inl (eof, err) \<Rightarrow> (if eof then [] else [parseErrorResponse err], None, w)
      | Inr req \<Rightarrow>
          if q_Method req = ''events/subscribe'' then ([], Some req, w)
          else (case Handle h hr (q_Method req) (q_Params req) w of
                  (r, w) \<Rightarrow>
                    if \<not> wr then ([responseTo req r], None, w)
                    else (case ServeConn h hr is w of
                            (rs, sub, w) \<Rightarrow> (responseTo req r # rs, sub, w))))"

text \<open>
  \<open>handleSubscribe\<close>: the opening, which answers and registers the subscription, and one turn
  of the loop that forwards events. A turn is \<open>None\<close> when it blocks on an empty open channel.
\<close>

definition subscribedResult :: result where
  "subscribedResult = RFlag ''subscribed'' True"

definition openSubscription ::
  "host \<Rightarrow> Request \<Rightarrow> Store \<Rightarrow> Response \<times> (int \<times> nat \<times> Event list) option \<times> Store" where
  "openSubscription h req s =
     (case decodeParams h (q_Method req) subscribeFields zeroEvents (q_Params req) of
        Inl err \<Rightarrow> (responseTo req (Inl (invalidParams err)), None, s)
      | Inr p \<Rightarrow>
          (case Subscribe (ev_Since p) s of
             (id', ch, backlog, s) \<Rightarrow>
               (responseTo req (Inr subscribedResult), Some (id', ch, backlog), s)))"

definition notification :: "Event \<Rightarrow> Notification" where
  "notification event = \<lparr>n_JSONRPC = ''2.0'', n_Method = ''events/event'', n_Params = event\<rparr>"

datatype turn = Stop | Forward Notification

definition subscribeTurn :: "nat \<Rightarrow> Store \<Rightarrow> (turn \<times> Store) option" where
  "subscribeTurn ch s =
     (case recvEvent ch s of
        (Some event, s) \<Rightarrow> Some (Forward (notification event), s)
      | (None, s) \<Rightarrow>
          if ch < length (chans s) \<and> ch_closed (chans s ! ch) then Some (Stop, s) else None)"

end
