(* ===== verification/Api_Laws.thy ===== *)
theory Api_Laws
  imports Api Store_Inv Runtime_Props
begin

text \<open>
  How a reconciliation of process sessions changes the store, phase by phase: the loop over the
  listed processes, the loop that links children to parents, and the two loops that drop what is no
  longer observed. The invariant of each loop is a named predicate; \<open>Api_Props\<close> puts the
  phases together.
\<close>

section \<open>Lifted calls\<close>

lemma timed_store [api_simps]:
  "store (snd (timed2 f w)) = snd (f (clock w (ticks w)) (clock w (Suc (ticks w))) (store w))"
  "fst (timed2 f w) = fst (f (clock w (ticks w)) (clock w (Suc (ticks w))) (store w))"
  "store (snd (timed1 g w)) = snd (g (clock w (ticks w)) (store w))"
  "fst (timed1 g w) = fst (g (clock w (ticks w)) (store w))"
  "store (snd (ranged l w)) = store w"
  "fst (ranged l w) = l (orders w (ranges w)) (store w)"
  "store (snd (listProcesses w)) = store w"
  "fst (listProcesses w) = procs w (calls w)"
  "store (snd (timeNow w)) = store w"
  "fst (timeNow w) = clock w (ticks w)"
  by (simp_all add: timed2_def timed1_def ranged_def listProcesses_def timeNow_def
      split: prod.splits)

lemma withCWD_keeps [api_simps]:
  "s_ID (snd (withCWD h p z)) = s_ID z" "s_Meta (snd (withCWD h p z)) = s_Meta z"
  "p_PID (fst (withCWD h p z)) = p_PID p" "p_PPID (fst (withCWD h p z)) = p_PPID p"
  "s_Source (snd (withCWD h p z)) = s_Source z" "s_Status (snd (withCWD h p z)) = s_Status z"
  "s_LastActivityAt (snd (withCWD h p z)) = s_LastActivityAt z"
  "s_StartedAt (snd (withCWD h p z)) = s_StartedAt z"
  "s_RootSessionID (snd (withCWD h p z)) = s_RootSessionID z"
  "s_ParentSessionID (snd (withCWD h p z)) = s_ParentSessionID z"
  "s_RuntimeIDs (snd (withCWD h p z)) = s_RuntimeIDs z"
  "s_Attention (snd (withCWD h p z)) = s_Attention z"
  by (auto simp: withCWD_def split: option.splits)

lemma isInferred_cong: "s_Meta x = s_Meta y \<Longrightarrow> isInferredProcessSession x = isInferredProcessSession y"
  by (simp add: isInferredProcessSession_def)

lemma isInferred_default [api_simps]:
  "isInferredProcessSession (defaultSession n x) = isInferredProcessSession x"
  by (rule isInferred_cong) (simp add: defaultSession_fields)

section \<open>The session of a process\<close>

text \<open>The session a reconciliation records for a process, in the store it finds.\<close>

definition agentSession :: "host \<Rightarrow> time \<Rightarrow> Store \<Rightarrow> Process \<Rightarrow> Session option" where
  "agentSession h now s p =
     (case InferAgentProcessSession h p now of
        None \<Rightarrow> None
      | Some z \<Rightarrow>
          (let z = snd (withCWD h p z)
           in case GetSession (s_ID z) s of
                None \<Rightarrow> Some z
              | Some e \<Rightarrow>
                  if isInferredProcessSession e then Some (z\<lparr>s_StartedAt := s_StartedAt e\<rparr>) else None))"

definition agentProcess :: "host \<Rightarrow> time \<Rightarrow> Process \<Rightarrow> Process" where
  "agentProcess h now p =
     (case InferAgentProcessSession h p now of None \<Rightarrow> p | Some z \<Rightarrow> fst (withCWD h p z))"

lemma agentProcess_ids [simp]:
  "p_PID (agentProcess h now p) = p_PID p" "p_PPID (agentProcess h now p) = p_PPID p"
  by (simp_all add: agentProcess_def api_simps split: option.splits)

lemma inferStep_eq:
  "inferStep h now p st =
     (case agentSession h now (store (snd st)) p of
        None \<Rightarrow> st
      | Some z \<Rightarrow> recordAgent now (agentProcess h now p) z st)"
  by (simp add: inferStep_def agentSession_def agentProcess_def Let_def split: option.splits prod.splits)

lemma infer_inferred: "InferAgentProcessSession h p t = Some z \<Longrightarrow> isInferredProcessSession z"
  by (auto simp: InferAgentProcessSession_def Let_def zeroSession_def isInferredProcessSession_def
      gm_get_def split: option.splits)

lemma agentSession_fields:
  assumes "agentSession h now s p = Some z"
  shows "inferAgentSource h p = Some (s_Source z)"
    and "s_ID z = s_Source z @ '':process:'' @ Itoa (p_PID p)" "s_ID z \<noteq> ''''"
    and "isInferredProcessSession z" "s_LastActivityAt z = now" "s_RootSessionID z = s_ID z"
    and "s_ParentSessionID z = ''''" "s_Status z = StatusWorking" "s_RuntimeIDs z = [p_ID p]"
    and "s_StartedAt z = (case GetSession (s_ID z) s of None \<Rightarrow> now | Some e \<Rightarrow> s_StartedAt e)"
    and "s_Attention z = ''''"
proof -
  obtain y where y: "InferAgentProcessSession h p now = Some y"
    using assms by (auto simp: agentSession_def split: option.splits)
  note f = infer_inferred [OF y] infer_Some [OF y]
  have m: "isInferredProcessSession (snd (withCWD h p y)\<lparr>s_StartedAt := t\<rparr>)" for t
    using f(1) isInferred_cong [of "snd (withCWD h p y)\<lparr>s_StartedAt := t\<rparr>" y] by (simp add: api_simps)
  have m': "isInferredProcessSession (snd (withCWD h p y))"
    using f(1) isInferred_cong [of "snd (withCWD h p y)" y] by (simp add: api_simps)
  show "inferAgentSource h p = Some (s_Source z)"
    "s_ID z = s_Source z @ '':process:'' @ Itoa (p_PID p)" "s_ID z \<noteq> ''''"
    "isInferredProcessSession z" "s_LastActivityAt z = now" "s_RootSessionID z = s_ID z"
    "s_ParentSessionID z = ''''" "s_Status z = StatusWorking" "s_RuntimeIDs z = [p_ID p]"
    "s_StartedAt z = (case GetSession (s_ID z) s of None \<Rightarrow> now | Some e \<Rightarrow> s_StartedAt e)"
    "s_Attention z = ''''"
    using assms f m m'
    by (auto simp: agentSession_def y Let_def api_simps split: option.splits if_splits)
qed

text \<open>
  \<open>claims h s p k\<close>: \<open>p\<close> is an agent process whose session ID \<open>k\<close> no reported
  session of \<open>s\<close> holds. It does not depend on the time of the observation.
\<close>

definition reported :: "Store \<Rightarrow> string \<Rightarrow> Session \<Rightarrow> bool" where
  "reported s k x \<longleftrightarrow> GetSession k s = Some x \<and> \<not> isInferredProcessSession x"

definition claims :: "host \<Rightarrow> Store \<Rightarrow> Process \<Rightarrow> string \<Rightarrow> bool" where
  "claims h s p k \<longleftrightarrow>
     (\<exists>source. inferAgentSource h p = Some source \<and> k = source @ '':process:'' @ Itoa (p_PID p)) \<and>
     (\<forall>x. \<not> reported s k x)"

lemma infer_iff_source:
  "(\<exists>z. InferAgentProcessSession h p now = Some z) \<longleftrightarrow> (\<exists>source. inferAgentSource h p = Some source)"
  by (auto simp: InferAgentProcessSession_def Let_def split: option.splits)

lemma claims_iff: "claims h s p k \<longleftrightarrow> (\<exists>z. agentSession h now s p = Some z \<and> s_ID z = k)"
proof
  assume c: "claims h s p k"
  then obtain y where y: "InferAgentProcessSession h p now = Some y"
    using infer_iff_source unfolding claims_def by blast
  with c have "s_ID y = k"
    using infer_Some(1,2) [OF y] by (auto simp: claims_def)
  with c show "\<exists>z. agentSession h now s p = Some z \<and> s_ID z = k"
    by (auto simp: agentSession_def y claims_def reported_def api_simps Let_def split: option.splits)
next
  assume "\<exists>z. agentSession h now s p = Some z \<and> s_ID z = k"
  then obtain z where z: "agentSession h now s p = Some z" "s_ID z = k" by blast
  have "\<not> reported s k x" for x
    using z by (auto simp: agentSession_def reported_def api_simps Let_def split: option.splits if_splits)
  with z show "claims h s p k"
    using agentSession_fields(1,2) [OF z(1)] by (auto simp: claims_def)
qed

lemma claims_unique: "claims h s p k \<Longrightarrow> claims h s p k' \<Longrightarrow> k = k'"
  by (auto simp: claims_def)

lemma claims_same_reported:
  "(\<And>k x. reported s k x \<longleftrightarrow> reported s' k x) \<Longrightarrow> claims h s p k \<longleftrightarrow> claims h s' p k"
  by (simp add: claims_def)

lemma claims_nonempty: "claims h s p k \<Longrightarrow> k \<noteq> ''''"
  by (auto simp: claims_def)

section \<open>The loop over the processes\<close>

lemma recordAgent_eq:
  "fst (recordAgent now p z (rc, w)) =
     rc\<lparr>seen := s_ID z # seen rc, pidToSession := gm_put (p_PID p) (s_ID z) (pidToSession rc),
        inferredProcesses := inferredProcesses rc @ [p]\<rparr>"
  "sessions (store (snd (recordAgent now p z (rc, w)))) =
     sessions (snd (UpsertSession (clock w (ticks w)) (clock w (Suc (ticks w))) z (store w)))"
  "edges (store (snd (recordAgent now p z (rc, w)))) = edges (store w)"
  "sources (store (snd (recordAgent now p z (rc, w)))) = sources (store w)"
  by (simp_all add: recordAgent_def Let_def api_simps store_frame)

definition infer_inv :: "host \<Rightarrow> time \<Rightarrow> Store \<Rightarrow> Process list \<Rightarrow> Recon \<times> World \<Rightarrow> bool" where
  "infer_inv h now s0 ps st \<longleftrightarrow>
     (let s = store (snd st); rc = fst st
      in (\<forall>k x. reported s k x \<longleftrightarrow> reported s0 k x) \<and>
         set (seen rc) = {k. \<exists>p \<in> set ps. claims h s0 p k} \<and>
         (\<forall>k. k \<notin> set (seen rc) \<longrightarrow> GetSession k s = GetSession k s0) \<and>
         (\<forall>k \<in> set (seen rc). \<exists>x. GetSession k s = Some x \<and> isInferredProcessSession x) \<and>
         (\<forall>n k. gm_get (pidToSession rc) n = Some k \<longrightarrow> (\<exists>p \<in> set ps. p_PID p = n \<and> claims h s0 p k)) \<and>
         (\<forall>p \<in> set ps. \<forall>k. claims h s0 p k \<longrightarrow> gm_get (pidToSession rc) (p_PID p) \<noteq> None) \<and>
         inferredProcesses rc =
           map (agentProcess h now) (filter (\<lambda>p. \<exists>k. claims h s0 p k) ps) \<and>
         edges s = edges s0 \<and> sources s = sources s0)"

lemma infer_invD:
  assumes "infer_inv h now s0 ps (rc, w)"
  shows "reported (store w) k x \<longleftrightarrow> reported s0 k x"
    and "set (seen rc) = {k. \<exists>p \<in> set ps. claims h s0 p k}"
    and "k \<notin> set (seen rc) \<Longrightarrow> GetSession k (store w) = GetSession k s0"
    and "k \<in> set (seen rc) \<Longrightarrow> \<exists>x. GetSession k (store w) = Some x \<and> isInferredProcessSession x"
    and "gm_get (pidToSession rc) n = Some k \<Longrightarrow> \<exists>p \<in> set ps. p_PID p = n \<and> claims h s0 p k"
    and "p \<in> set ps \<Longrightarrow> claims h s0 p k \<Longrightarrow> gm_get (pidToSession rc) (p_PID p) \<noteq> None"
    and "inferredProcesses rc =
      map (agentProcess h now) (filter (\<lambda>p. \<exists>k. claims h s0 p k) ps)"
    and "edges (store w) = edges s0" "sources (store w) = sources s0"
  using assms unfolding infer_inv_def Let_def fst_conv snd_conv by blast+

lemma infer_inv_start: "store w = s0 \<Longrightarrow> infer_inv h now s0 [] (emptyRecon, w)"
  by (simp add: infer_inv_def emptyRecon_def)

lemma infer_inv_step:
  assumes "infer_inv h now s0 ps st"
  shows "infer_inv h now s0 (ps @ [p]) (inferStep h now p st)"
proof (cases "agentSession h now (store (snd st)) p")
  case None
  have "claims h s0 p k \<longleftrightarrow> claims h (store (snd st)) p k" for k
    by (rule claims_same_reported) (use assms in \<open>simp add: infer_inv_def Let_def\<close>)
  then have "\<not> claims h s0 p k" for k
    using None claims_iff [of h "store (snd st)" p k now] by simp
  then show ?thesis
    using assms by (auto simp: infer_inv_def Let_def inferStep_eq None)
next
  case (Some z)
  obtain rc w where st: "st = (rc, w)" by (cases st)
  have cl: "claims h s0 p k \<longleftrightarrow> claims h (store w) p k" for k
    by (rule claims_same_reported) (use assms in \<open>simp add: infer_inv_def Let_def st\<close>)
  have z: "agentSession h now (store w) p = Some z"
    using Some st by simp
  have k: "claims h s0 p k \<longleftrightarrow> k = s_ID z" for k
    using cl [of k] claims_iff [of h "store w" p k now] z by auto
  note f = agentSession_fields [OF z]
  let ?t = "recordAgent now (agentProcess h now p) z (rc, w)"
  have get: "GetSession j (store (snd ?t)) =
      (if j = s_ID z then Some (defaultSession (clock w (ticks w)) z) else GetSession j (store w))" for j
    using session_table.get_upsert [OF f(3)] by (simp add: GetSession_def recordAgent_eq)
  have inf: "isInferredProcessSession (defaultSession n z)" for n
    using f(4) by (simp add: api_simps)
  have nr: "\<not> reported (store w) (s_ID z) x" for x
  proof -
    have "claims h (store w) p (s_ID z)"
      using k cl by blast
    then show ?thesis
      by (simp add: claims_def)
  qed
  have rep: "reported (store (snd ?t)) j x \<longleftrightarrow> reported (store w) j x" for j x
    using nr [of x] inf by (auto simp: reported_def get)
  show ?thesis
    using assms inf unfolding st inferStep_eq
    by (auto simp: infer_inv_def Let_def st z rep get recordAgent_eq k)
qed

lemma infer_loop:
  assumes "store w = s0"
  shows "infer_inv h now s0 ps (fold (inferStep h now) ps (emptyRecon, w))"
  by (induction ps rule: rev_induct) (simp_all add: infer_inv_start assms infer_inv_step)

section \<open>The loop that links children to parents\<close>

definition processEdge :: "time \<Rightarrow> string \<Rightarrow> string \<Rightarrow> Edge" where
  "processEdge now childID parentID =
     \<lparr>e_ID = spawnedByID childID parentID, e_From = childID, e_To = parentID,
      e_Type = ''spawned_by'', e_Source = ''process'', e_Confidence = ConfidenceLow,
      e_ObservedAt = now\<rparr>"

lemma spawnedByID_nonempty [simp]: "spawnedByID c p \<noteq> ''''"
  by (simp add: spawnedByID_def)

lemma defaultEdge_processEdge:
  "now \<noteq> 0 \<Longrightarrow> defaultEdge n (processEdge now c p) = processEdge now c p"
  by (simp add: defaultEdge_def processEdge_def Let_def ConfidenceLow_def)

text \<open>The child's session after linking; it is stored once more, so its defaults are filled in.\<close>

definition linkedTo :: "string \<Rightarrow> string \<Rightarrow> Session \<Rightarrow> Session" where
  "linkedTo parentID rootID child =
     child\<lparr>s_ParentSessionID := parentID, s_RootSessionID := rootID\<rparr>"

definition rootOf :: "Store \<Rightarrow> string \<Rightarrow> string" where
  "rootOf s k =
     (case GetSession k s of
        Some x \<Rightarrow> if s_RootSessionID x \<noteq> '''' then s_RootSessionID x else k | None \<Rightarrow> k)"

lemma linkChild_store:
  assumes "store_inv (store w)" and "childID \<noteq> ''''"
  shows "\<exists>n. GetSession k (store (linkChild childID parentID w)) =
     (if k = childID
      then map_option (\<lambda>x. if isInferredProcessSession x
             then defaultSession n (linkedTo parentID (rootOf (store w) parentID) x) else x)
             (GetSession childID (store w))
      else GetSession k (store w))"
proof (cases "GetSession childID (store w)")
  case None
  then show ?thesis by (simp add: linkChild_def)
next
  case (Some x)
  have id: "s_ID x = childID"
    using store_inv_session [OF assms(1), of childID x] Some by (simp add: GetSession_def)
  let ?y = "linkedTo parentID (rootOf (store w) parentID) x"
  let ?n = "clock w (ticks w)" and ?m = "clock w (Suc (ticks w))"
  have y: "s_ID ?y = childID" "s_ID ?y \<noteq> ''''"
    using id assms(2) by (simp_all add: linkedTo_def)
  have eq: "store (linkChild childID parentID w) =
      (if isInferredProcessSession x then snd (UpsertSession ?n ?m ?y (store w)) else store w)"
    by (auto simp: linkChild_def Some api_simps Let_def linkedTo_def rootOf_def split: option.splits)
  show ?thesis
    using session_table.get_upsert [OF y(2), of ?n ?m "store w" k] y Some
    by (intro exI [of _ ?n]) (auto simp: eq GetSession_def)
qed

lemma linkChild_frame:
  "edges (store (linkChild c p w)) = edges (store w)"
  "sources (store (linkChild c p w)) = sources (store w)"
  by (simp_all add: linkChild_def Let_def api_simps store_frame split: option.splits)

lemma linkChild_inv: "store_inv (store w) \<Longrightarrow> store_inv (store (linkChild c p w))"
  by (auto simp: linkChild_def Let_def api_simps intro: store_inv_intros split: option.splits)

lemma linkStep_eq:
  "linkStep now pids proc (es, w) =
     (let parentID = mapString pids (p_PPID proc); childID = mapString pids (p_PID proc)
      in if parentID = '''' \<or> childID = '''' then (es, w)
         else (spawnedByID childID parentID # es,
               snd (timed2 (\<lambda>n m. UpsertEdge n m (processEdge now childID parentID))
                 (linkChild childID parentID w))))"
  by (simp add: linkStep_def Let_def processEdge_def zeroEdge_def)

definition links :: "(int, string) gomap \<Rightarrow> Process list \<Rightarrow> (string \<times> string) set" where
  "links pids ps =
     {(c, p). c \<noteq> '''' \<and> p \<noteq> '''' \<and>
        (\<exists>proc \<in> set ps. c = mapString pids (p_PID proc) \<and> p = mapString pids (p_PPID proc))}"

text \<open>
  Linking keeps which sessions exist and which are inferred, leaves reported sessions alone, and
  writes exactly one edge per link.
\<close>

definition link_inv ::
  "time \<Rightarrow> Store \<Rightarrow> (int, string) gomap \<Rightarrow> Process list \<Rightarrow> string list \<times> World \<Rightarrow> bool" where
  "link_inv now s1 pids ps st \<longleftrightarrow>
     (let s = store (snd st)
      in store_inv s \<and>
         (\<forall>k x. reported s k x \<longleftrightarrow> reported s1 k x) \<and>
         (\<forall>k. GetSession k s = None \<longleftrightarrow> GetSession k s1 = None) \<and>
         set (fst st) = {spawnedByID c p | c p. (c, p) \<in> links pids ps} \<and>
         (\<forall>j. j \<notin> set (fst st) \<longrightarrow> gm_get (edges s) j = gm_get (edges s1) j) \<and>
         (\<forall>j \<in> set (fst st). \<exists>c p. (c, p) \<in> links pids ps \<and> gm_get (edges s) j = Some (processEdge now c p)) \<and>
         sources s = sources s1)"

lemma link_invD:
  assumes "link_inv now s1 pids ps (es, w)"
  shows "store_inv (store w)"
    and "reported (store w) k x \<longleftrightarrow> reported s1 k x"
    and "GetSession k (store w) = None \<longleftrightarrow> GetSession k s1 = None"
    and "set es = {spawnedByID c p | c p. (c, p) \<in> links pids ps}"
    and "j \<notin> set es \<Longrightarrow> gm_get (edges (store w)) j = gm_get (edges s1) j"
    and "j \<in> set es \<Longrightarrow> \<exists>c p. (c, p) \<in> links pids ps \<and> gm_get (edges (store w)) j = Some (processEdge now c p)"
    and "sources (store w) = sources s1"
  using assms unfolding link_inv_def Let_def fst_conv snd_conv by blast+

lemma links_append:
  "links pids (ps @ [q]) = links pids ps \<union>
     (let p = mapString pids (p_PPID q); c = mapString pids (p_PID q)
      in if p = '''' \<or> c = '''' then {} else {(c, p)})"
  by (auto simp: links_def Let_def)

lemma inferred_linked [api_simps]:
  "isInferredProcessSession (linkedTo p r x) = isInferredProcessSession x"
  by (rule isInferred_cong) (simp add: linkedTo_def)

lemma linkChild_reported:
  assumes "store_inv (store w)" and "c \<noteq> ''''"
  shows "reported (store (linkChild c p w)) k x \<longleftrightarrow> reported (store w) k x"
    and "GetSession k (store (linkChild c p w)) = None \<longleftrightarrow> GetSession k (store w) = None"
proof -
  obtain n where n: "GetSession k (store (linkChild c p w)) =
     (if k = c
      then map_option (\<lambda>x. if isInferredProcessSession x
             then defaultSession n (linkedTo p (rootOf (store w) p) x) else x) (GetSession c (store w))
      else GetSession k (store w))"
    using linkChild_store [OF assms, of k p] by blast
  show "GetSession k (store (linkChild c p w)) = None \<longleftrightarrow> GetSession k (store w) = None"
    by (simp add: n)
  show "reported (store (linkChild c p w)) k x \<longleftrightarrow> reported (store w) k x"
    by (cases "GetSession c (store w)") (auto simp: reported_def n api_simps)
qed

lemma link_inv_step:
  assumes inv: "link_inv now s1 pids ps st" and "now \<noteq> 0"
  shows "link_inv now s1 pids (ps @ [q]) (linkStep now pids q st)"
proof -
  obtain es w where st: "st = (es, w)" by (cases st)
  define p where "p = mapString pids (p_PPID q)"
  define c where "c = mapString pids (p_PID q)"
  show ?thesis
  proof (cases "p = '''' \<or> c = ''''")
    case True
    then show ?thesis
      using inv by (simp add: st linkStep_eq Let_def p_def [symmetric] c_def [symmetric]
          link_inv_def links_append)
  next
    case False
    let ?w = "linkChild c p w"
    let ?t = "snd (timed2 (\<lambda>n m. UpsertEdge n m (processEdge now c p)) ?w)"
    have step: "linkStep now pids q (es, w) = (spawnedByID c p # es, ?t)"
      using False by (simp add: linkStep_eq Let_def p_def [symmetric] c_def [symmetric])
    have lk: "links pids (ps @ [q]) = insert (c, p) (links pids ps)"
      using False by (auto simp: links_append Let_def p_def [symmetric] c_def [symmetric])
    have si: "store_inv (store w)" "store_inv (store ?t)"
      using inv by (auto simp: link_inv_def Let_def st api_simps intro!: store_inv_intros linkChild_inv)
    have edge: "gm_get (edges (store ?t)) j =
        (if j = spawnedByID c p then Some (processEdge now c p) else gm_get (edges (store w)) j)" for j
      by (simp add: api_simps edge_table.get_upsert linkChild_frame
          defaultEdge_processEdge [OF assms(2)])
        (simp add: processEdge_def)
    have ses: "GetSession k (store ?t) = GetSession k (store ?w)" for k
      by (simp add: GetSession_def api_simps store_frame)
    have rep: "reported (store ?t) k x \<longleftrightarrow> reported (store w) k x" for k x
      using linkChild_reported(1) [OF si(1), of c] False by (simp add: reported_def ses)
    have none: "GetSession k (store ?t) = None \<longleftrightarrow> GetSession k (store w) = None" for k
      using linkChild_reported(2) [OF si(1), of c] False by (simp add: ses)
    have src: "sources (store ?t) = sources (store w)"
      by (simp add: api_simps store_frame linkChild_frame)
    note old = link_invD(4-6) [OF inv [unfolded st]]
    have "set (spawnedByID c p # es) = {spawnedByID a b | a b. (a, b) \<in> links pids (ps @ [q])}"
      unfolding lk list.set old(1) by blast
    moreover have "\<exists>a b. (a, b) \<in> links pids (ps @ [q]) \<and>
        gm_get (edges (store ?t)) j = Some (processEdge now a b)" if "j \<in> set (spawnedByID c p # es)" for j
      using old(3) [of j] that by (cases "j = spawnedByID c p") (auto simp: edge lk)
    moreover have "gm_get (edges (store ?t)) j = gm_get (edges s1) j"
      if "j \<notin> set (spawnedByID c p # es)" for j
      using old(2) [of j] that by (simp add: edge)
    ultimately show ?thesis
      using inv si(2) unfolding st step link_inv_def Let_def fst_conv snd_conv rep none src
      by simp
  qed
qed

lemma link_loop:
  assumes "store_inv (store w)" and "now \<noteq> 0"
  shows "link_inv now (store w) pids ps (fold (linkStep now pids) ps ([], w))"
proof (induction ps rule: rev_induct)
  case Nil
  then show ?case
    using assms by (simp add: link_inv_def links_def)
next
  case (snoc q ps)
  then show ?case
    by (simp add: link_inv_step assms(2))
qed

section \<open>The loops that drop what is gone\<close>

lemma dropSession_store:
  "GetSession k (store (dropSession ids x w)) =
     (if isInferredProcessSession x \<and> s_ID x \<notin> set ids \<and> k = s_ID x then None
      else GetSession k (store w))"
  by (simp add: dropSession_def api_simps GetSession_def session_table.remove_table)

lemma dropSession_frame:
  "edges (store (dropSession ids x w)) = edges (store w)"
  "sources (store (dropSession ids x w)) = sources (store w)"
  "workspaces (store (dropSession ids x w)) = workspaces (store w)"
  "store_inv (store w) \<Longrightarrow> store_inv (store (dropSession ids x w))"
  by (simp_all add: dropSession_def api_simps store_frame store_inv_intros)

lemma dropSessions_store:
  "GetSession k (store (fold (dropSession ids) ss w)) =
     (if \<exists>x \<in> set ss. isInferredProcessSession x \<and> s_ID x \<notin> set ids \<and> k = s_ID x then None
      else GetSession k (store w))"
  by (induction ss arbitrary: w) (auto simp: dropSession_store)

lemma dropSessions_frame:
  "edges (store (fold (dropSession ids) ss w)) = edges (store w)"
  "sources (store (fold (dropSession ids) ss w)) = sources (store w)"
  "workspaces (store (fold (dropSession ids) ss w)) = workspaces (store w)"
  "store_inv (store w) \<Longrightarrow> store_inv (store (fold (dropSession ids) ss w))"
  by (induction ss arbitrary: w) (simp_all add: dropSession_frame)

lemma dropEdge_store:
  "gm_get (edges (store (dropEdge ids e w))) j =
     (if HasPrefix (e_ID e) ''process:spawned_by:'' \<and> e_ID e \<notin> set ids \<and> j = e_ID e then None
      else gm_get (edges (store w)) j)"
  by (simp add: dropEdge_def api_simps edge_table.remove_table)

lemma dropEdge_frame:
  "sessions (store (dropEdge ids e w)) = sessions (store w)"
  "sources (store (dropEdge ids e w)) = sources (store w)"
  "workspaces (store (dropEdge ids e w)) = workspaces (store w)"
  "store_inv (store w) \<Longrightarrow> store_inv (store (dropEdge ids e w))"
  by (simp_all add: dropEdge_def api_simps store_frame store_inv_intros)

lemma dropEdges_store:
  "gm_get (edges (store (fold (dropEdge ids) es w))) j =
     (if \<exists>e \<in> set es. HasPrefix (e_ID e) ''process:spawned_by:'' \<and> e_ID e \<notin> set ids \<and> j = e_ID e
      then None else gm_get (edges (store w)) j)"
  by (induction es arbitrary: w) (auto simp: dropEdge_store)

lemma dropEdges_frame:
  "sessions (store (fold (dropEdge ids) es w)) = sessions (store w)"
  "sources (store (fold (dropEdge ids) es w)) = sources (store w)"
  "workspaces (store (fold (dropEdge ids) es w)) = workspaces (store w)"
  "store_inv (store w) \<Longrightarrow> store_inv (store (fold (dropEdge ids) es w))"
  by (induction es arbitrary: w) (simp_all add: dropEdge_frame)

lemma allFilter_keeps [simp]: "keepSession allFilter x"
  by (simp add: keepSession_def allFilter_def zeroFilter_def)

lemma drop_all_sessions:
  assumes "store_inv (store w)"
  shows "GetSession k (store (fold (dropSession ids) (ListSessions ord allFilter (store w)) w)) =
     (case GetSession k (store w) of
        Some x \<Rightarrow> if isInferredProcessSession x \<and> k \<notin> set ids then None else Some x
      | None \<Rightarrow> None)"
proof -
  have keyed: "gm_keyed s_ID (sessions (store w))"
    using assms by (simp add: store_inv_def)
  have "(\<exists>x \<in> set (ListSessions ord allFilter (store w)).
        isInferredProcessSession x \<and> s_ID x \<notin> set ids \<and> k = s_ID x) \<longleftrightarrow>
      (\<exists>x. GetSession k (store w) = Some x \<and> isInferredProcessSession x \<and> k \<notin> set ids)"
    unfolding GetSession_def Bex_def session_list.listing_lookup [OF keyed]
    using gm_keyed_get [OF keyed] by (metis allFilter_keeps)
  then show ?thesis
    by (cases "GetSession k (store w)") (simp_all add: dropSessions_store)
qed

lemma drop_all_edges:
  assumes "store_inv (store w)"
  shows "gm_get (edges (store (fold (dropEdge ids) (ListEdges ord (store w)) w))) j =
     (if HasPrefix j ''process:spawned_by:'' \<and> j \<notin> set ids then None
      else gm_get (edges (store w)) j)"
proof -
  have keyed: "gm_keyed e_ID (edges (store w))"
    using assms by (simp add: store_inv_def)
  have mem: "e \<in> set (ListEdges ord (store w)) \<longleftrightarrow> gm_get (edges (store w)) (e_ID e) = Some e" for e
    using edge_list.listing_lookup [OF keyed] by simp
  have "(\<exists>e \<in> set (ListEdges ord (store w)). P (e_ID e) \<and> j = e_ID e) \<longleftrightarrow>
      gm_get (edges (store w)) j \<noteq> None \<and> P j" for P
  proof
    assume "gm_get (edges (store w)) j \<noteq> None \<and> P j"
    then obtain e where e: "gm_get (edges (store w)) j = Some e" "P j" by blast
    then have "e_ID e = j"
      using gm_keyed_get [OF keyed] by blast
    with e mem [of e] show "\<exists>e \<in> set (ListEdges ord (store w)). P (e_ID e) \<and> j = e_ID e" by blast
  qed (use mem in auto)
  from this [of "\<lambda>i. HasPrefix i ''process:spawned_by:'' \<and> i \<notin> set ids"] show ?thesis
    by (cases "gm_get (edges (store w)) j") (simp_all only: dropEdges_store conj_assoc, simp_all)
qed

section \<open>The whole reconciliation\<close>

lemma inferStep_inv: "store_inv (store (snd st)) \<Longrightarrow> store_inv (store (snd (inferStep h now p st)))"
  by (cases st) (auto simp: inferStep_eq recordAgent_def Let_def api_simps intro!: store_inv_intros
      split: option.splits)

lemma inferLoop_inv:
  "store_inv (store (snd st)) \<Longrightarrow> store_inv (store (snd (fold (inferStep h now) ps st)))"
  by (induction ps arbitrary: st) (simp_all add: inferStep_inv)

lemma linkStep_inv: "store_inv (store (snd st)) \<Longrightarrow> store_inv (store (snd (linkStep now pids p st)))"
  by (cases st) (auto simp: linkStep_eq Let_def api_simps intro!: store_inv_intros linkChild_inv)

lemma linkLoop_inv:
  "store_inv (store (snd st)) \<Longrightarrow> store_inv (store (snd (fold (linkStep now pids) ps st)))"
  by (induction ps arbitrary: st) (simp_all add: linkStep_inv)

text \<open>The worlds between the phases.\<close>

definition inferPhase :: "host \<Rightarrow> Process list \<Rightarrow> World \<Rightarrow> Recon \<times> World" where
  "inferPhase h ps w =
     fold (inferStep h (fst (timeNow w))) ps (emptyRecon, snd (timeNow w))"

definition linkPhase :: "host \<Rightarrow> Process list \<Rightarrow> World \<Rightarrow> string list \<times> World" where
  "linkPhase h ps w =
     (case inferPhase h ps w of
        (rc, v) \<Rightarrow> fold (linkStep (fst (timeNow w)) (pidToSession rc)) (inferredProcesses rc) ([], v))"

definition dropPhase :: "host \<Rightarrow> Process list \<Rightarrow> World \<Rightarrow> World" where
  "dropPhase h ps w =
     (case ranged (\<lambda>ord. ListSessions ord allFilter) (snd (linkPhase h ps w)) of
        (ss, v) \<Rightarrow> fold (dropSession (seen (fst (inferPhase h ps w)))) ss v)"

lemma reconcileWith_phases:
  "reconcileWith h ps w =
     (case ranged ListEdges (dropPhase h ps w) of
        (es, v) \<Rightarrow> fold (dropEdge (fst (linkPhase h ps w))) es v)"
  by (simp add: reconcileWith_def dropPhase_def linkPhase_def inferPhase_def Let_def
      split: prod.splits)

lemma phase_inv:
  assumes "store_inv (store w)"
  shows "store_inv (store (snd (inferPhase h ps w)))"
    and "store_inv (store (snd (linkPhase h ps w)))"
    and "store_inv (store (dropPhase h ps w))"
    and "store_inv (store (reconcileWith h ps w))"
proof -
  show 1: "store_inv (store (snd (inferPhase h ps w)))"
    unfolding inferPhase_def by (rule inferLoop_inv) (simp add: assms api_simps)
  show 2: "store_inv (store (snd (linkPhase h ps w)))"
    using 1 by (auto simp: linkPhase_def intro!: linkLoop_inv split: prod.splits)
  show 3: "store_inv (store (dropPhase h ps w))"
    using 2 by (auto simp: dropPhase_def ranged_def intro!: dropSessions_frame(4))
  show "store_inv (store (reconcileWith h ps w))"
    using 3 by (auto simp: reconcileWith_phases ranged_def intro!: dropEdges_frame(4))
qed

lemma inferPhase_spec:
  "infer_inv h (clock w (ticks w)) (store w) ps (inferPhase h ps w)"
  unfolding inferPhase_def timed_store by (rule infer_loop) (simp add: api_simps)

lemma linkPhase_spec:
  assumes "store_inv (store w)" and "clock w (ticks w) \<noteq> 0"
  shows "link_inv (clock w (ticks w)) (store (snd (inferPhase h ps w)))
     (pidToSession (fst (inferPhase h ps w))) (inferredProcesses (fst (inferPhase h ps w)))
     (linkPhase h ps w)"
  using link_loop [OF phase_inv(1) [OF assms(1)] assms(2)]
  by (simp add: linkPhase_def case_prod_beta api_simps)

lemma reconcile_sessions:
  assumes "store_inv (store w)"
  shows "GetSession k (store (reconcileWith h ps w)) =
     (case GetSession k (store (snd (linkPhase h ps w))) of
        Some x \<Rightarrow>
          if isInferredProcessSession x \<and> k \<notin> set (seen (fst (inferPhase h ps w))) then None
          else Some x
      | None \<Rightarrow> None)"
proof -
  let ?v = "snd (linkPhase h ps w)"
  have "GetSession k (store (reconcileWith h ps w)) = GetSession k (store (dropPhase h ps w))"
    by (simp add: reconcileWith_phases ranged_def GetSession_def dropEdges_frame)
  also have "\<dots> = GetSession k (store (fold (dropSession (seen (fst (inferPhase h ps w))))
      (ListSessions (orders ?v (ranges ?v)) allFilter (store ?v)) (?v\<lparr>ranges := Suc (ranges ?v)\<rparr>)))"
    by (simp add: dropPhase_def ranged_def)
  finally show ?thesis
    using drop_all_sessions [of "?v\<lparr>ranges := Suc (ranges ?v)\<rparr>"] phase_inv(2) [OF assms] by simp
qed

lemma reconcile_edges:
  assumes "store_inv (store w)"
  shows "gm_get (edges (store (reconcileWith h ps w))) j =
     (if HasPrefix j ''process:spawned_by:'' \<and> j \<notin> set (fst (linkPhase h ps w)) then None
      else gm_get (edges (store (snd (linkPhase h ps w)))) j)"
proof -
  let ?v = "dropPhase h ps w"
  have "edges (store ?v) = edges (store (snd (linkPhase h ps w)))"
    by (simp add: dropPhase_def ranged_def dropSessions_frame)
  then show ?thesis
    using drop_all_edges [of "?v\<lparr>ranges := Suc (ranges ?v)\<rparr>"] phase_inv(3) [OF assms]
    by (simp add: reconcileWith_phases ranged_def)
qed

end
