(* ===== verification/Api_Links.thy ===== *)
theory Api_Links
  imports Api_Laws
begin

text \<open>
  The exact sessions a reconciliation leaves for the agents of a process table without repeated
  PIDs: the record of the first loop, with the parent and the root the second loop gives it.
\<close>

section \<open>The sessions themselves\<close>

lemma id_pid:
  assumes "inferAgentSource h p = Some a" and "inferAgentSource h' q = Some b"
    and "a @ '':process:'' @ Itoa n = b @ '':process:'' @ Itoa m"
  shows "a = b \<and> n = m"
proof -
  have "takeWhile (\<lambda>c. c \<noteq> CHR '':'') (a @ '':process:'' @ Itoa n) = a"
    "takeWhile (\<lambda>c. c \<noteq> CHR '':'') (b @ '':process:'' @ Itoa m) = b"
    using takeWhile_before [OF agent_no_colon [OF assms(1)]]
      takeWhile_before [OF agent_no_colon [OF assms(2)]] by simp_all
  with assms(3) have "a = b" by simp
  with assms(3) show ?thesis
    by (simp add: Itoa_inject)
qed

lemma claims_pid: "claims h s p k \<Longrightarrow> claims h' s' q k \<Longrightarrow> p_PID p = p_PID q"
  unfolding claims_def using id_pid by blast

lemma defaultSession_now:
  "now \<noteq> 0 \<Longrightarrow> s_LastActivityAt z = now \<Longrightarrow> defaultSession n z = defaultSession now z"
  by (simp add: defaultSession_def Let_def)

lemma agentSession_cong:
  assumes "\<And>k. claims h s p k \<or> claims h s' p k \<Longrightarrow> GetSession k s = GetSession k s'"
    and "\<And>k x. reported s k x \<longleftrightarrow> reported s' k x"
  shows "agentSession h now s p = agentSession h now s' p"
proof (cases "agentSession h now s p")
  case None
  then have "\<not> claims h s p k" for k
    using claims_iff [of h s p k now] by simp
  then have "\<not> claims h s' p k" for k
    using claims_same_reported [OF assms(2)] by blast
  then have "agentSession h now s' p = None"
    using claims_iff [of h s' p _ now] by (cases "agentSession h now s' p") auto
  with None show ?thesis by simp
next
  case (Some z)
  then have "GetSession (s_ID z) s = GetSession (s_ID z) s'"
    using claims_iff [of h s p "s_ID z" now] assms(1) by blast
  then show ?thesis
    using Some by (auto simp: agentSession_def api_simps Let_def split: option.splits if_splits)
qed

lemma infer_exact:
  assumes "store w = s0" and "now \<noteq> 0" and "distinct (map p_PID ps)"
    and "p \<in> set ps" and "agentSession h now s0 p = Some z"
  shows "GetSession (s_ID z) (store (snd (fold (inferStep h now) ps (emptyRecon, w)))) =
     Some (defaultSession now z)"
  using assms(3-5)
proof (induction ps arbitrary: p z rule: rev_induct)
  case (snoc q ps)
  obtain rc v where v: "fold (inferStep h now) ps (emptyRecon, w) = (rc, v)" by fastforce
  have inv: "infer_inv h now s0 ps (rc, v)"
    using infer_loop [OF assms(1)] v by metis
  have rep: "reported (store v) k x \<longleftrightarrow> reported s0 k x" for k x
    by (rule infer_invD(1) [OF inv])
  have other: "k \<notin> set (seen rc)" if "claims h s0 q k" for k
  proof
    assume "k \<in> set (seen rc)"
    then obtain r where r: "r \<in> set ps" "claims h s0 r k"
      using infer_invD(2) [OF inv] by blast
    then have "p_PID r = p_PID q"
      using claims_pid that by blast
    moreover have "p_PID q \<notin> p_PID ` set ps"
      using snoc.prems(1) by simp
    ultimately show False
      using r(1) by (metis imageI)
  qed
  have same: "agentSession h now (store v) q = agentSession h now s0 q"
    using infer_invD(3) [OF inv] other claims_same_reported [OF rep]
    by (intro agentSession_cong rep) blast
  have step: "fold (inferStep h now) (ps @ [q]) (emptyRecon, w) = inferStep h now q (rc, v)"
    by (simp add: v)
  show ?case
  proof (cases "agentSession h now s0 q")
    case None
    then have "p \<in> set ps" using snoc.prems(2,3) by auto
    moreover have "inferStep h now q (rc, v) = (rc, v)"
      by (simp add: inferStep_eq same None)
    ultimately show ?thesis
      using snoc.IH [OF _ _ snoc.prems(3)] snoc.prems(1) unfolding step by (simp add: v)
  next
    case (Some y)
    note y = agentSession_fields [OF Some]
    have get: "GetSession k (store (snd (inferStep h now q (rc, v)))) =
        (if k = s_ID y then Some (defaultSession now y) else GetSession k (store v))" for k
      using session_table.get_upsert [OF y(3)]
      by (simp add: inferStep_eq same Some GetSession_def recordAgent_eq
          defaultSession_now [OF assms(2) y(5), of "clock v (ticks v)"])
    show ?thesis
    proof (cases "p = q")
      case True
      then show ?thesis using Some snoc.prems(3) unfolding step by (simp add: get)
    next
      case False
      then have p: "p \<in> set ps" using snoc.prems(2) by auto
      have "p_PID p \<noteq> p_PID q"
        using p snoc.prems(1) by (auto simp: image_iff)
      then have "s_ID z \<noteq> s_ID y"
        using claims_pid [of h s0 p "s_ID z" h s0 q] claims_iff [of h s0 p _ now]
          claims_iff [of h s0 q _ now] Some snoc.prems(3) by metis
      with snoc.IH [OF _ p snoc.prems(3)] snoc.prems(1) show ?thesis
        unfolding step by (simp add: get v)
    qed
  qed
qed simp

section \<open>Parents and roots\<close>

text \<open>The PID table of a process list without repeated PIDs.\<close>

lemma pid_table:
  assumes "infer_inv h now s0 ps (rc, w)" and "distinct (map p_PID ps)" and "k \<noteq> ''''"
  shows "mapString (pidToSession rc) n = k \<longleftrightarrow> (\<exists>p \<in> set ps. p_PID p = n \<and> claims h s0 p k)"
proof
  assume "mapString (pidToSession rc) n = k"
  then have "gm_get (pidToSession rc) n = Some k"
    using assms(3) by (auto simp: mapString_def split: option.splits)
  then show "\<exists>p \<in> set ps. p_PID p = n \<and> claims h s0 p k"
    by (rule infer_invD(5) [OF assms(1)])
next
  assume "\<exists>p \<in> set ps. p_PID p = n \<and> claims h s0 p k"
  then obtain p where p: "p \<in> set ps" "p_PID p = n" "claims h s0 p k" by blast
  then obtain j where j: "gm_get (pidToSession rc) n = Some j"
    using infer_invD(6) [OF assms(1) p(1,3)] by blast
  then obtain q where q: "q \<in> set ps" "p_PID q = n" "claims h s0 q j"
    using infer_invD(5) [OF assms(1)] by blast
  then have "p = q"
    using p assms(2) by (auto simp: distinct_map inj_on_def)
  with p q j claims_unique show "mapString (pidToSession rc) n = k"
    by (simp add: mapString_def)
qed

text \<open>The root each session ID has after linking a list of processes in order.\<close>

fun roots :: "('p \<Rightarrow> string) \<Rightarrow> ('p \<Rightarrow> string) \<Rightarrow> (string \<Rightarrow> string) \<Rightarrow> 'p list \<Rightarrow> string \<Rightarrow> string" where
  "roots ident par r [] = r"
| "roots ident par r (p # ps) =
     roots ident par (if par p = '''' then r else r(ident p := r (par p))) ps"

lemma roots_append:
  "roots ident par r (ps @ qs) = roots ident par (roots ident par r ps) qs"
  by (induction ps arbitrary: r) simp_all

lemma roots_other: "k \<notin> ident ` set ps \<Longrightarrow> roots ident par r ps k = r k"
  by (induction ps arbitrary: r) auto

lemma roots_at:
  assumes "distinct (map ident (as @ p # bs))"
  shows "par p = '''' \<Longrightarrow> roots ident par id (as @ p # bs) (ident p) = ident p"
    and "par p \<noteq> '''' \<Longrightarrow> par p \<in> ident ` set as \<Longrightarrow>
      roots ident par id (as @ p # bs) (ident p) = roots ident par id (as @ p # bs) (par p)"
    and "par p \<noteq> '''' \<Longrightarrow> par p \<notin> ident ` set as \<Longrightarrow>
      roots ident par id (as @ p # bs) (ident p) = par p"
proof -
  have p: "ident p \<notin> ident ` set as" "ident p \<notin> ident ` set bs"
    using assms by auto
  show "par p = '''' \<Longrightarrow> roots ident par id (as @ p # bs) (ident p) = ident p"
    using p by (simp add: roots_append roots_other)
  show "par p \<noteq> '''' \<Longrightarrow> par p \<notin> ident ` set as \<Longrightarrow>
      roots ident par id (as @ p # bs) (ident p) = par p"
    using p by (simp add: roots_append roots_other)
  show "roots ident par id (as @ p # bs) (ident p) = roots ident par id (as @ p # bs) (par p)"
    if "par p \<noteq> ''''" "par p \<in> ident ` set as"
  proof -
    have "par p \<notin> ident ` set bs" "par p \<noteq> ident p"
      using assms that(2) by auto
    then show ?thesis
      using p that(1) by (simp add: roots_append roots_other)
  qed
qed

text \<open>
  The loop that links, exactly: each session of the list keeps what the first loop recorded, and its
  parent and root are those \<open>roots\<close> computes.
\<close>

lemma linkedTo_again:
  assumes "session_complete x" and "s_LastActivityAt x \<noteq> 0" and "s_StartedAt x \<noteq> 0" and "r \<noteq> ''''"
  shows "defaultSession n (linkedTo p r x) = linkedTo p r x"
  by (rule defaultSession_id) (use assms in \<open>simp_all add: session_complete_def linkedTo_def\<close>)

definition link_exact ::
  "('q \<Rightarrow> string) \<Rightarrow> ('q \<Rightarrow> string) \<Rightarrow> ('q \<Rightarrow> Session) \<Rightarrow> 'q set \<Rightarrow> 'q list \<Rightarrow> Store \<Rightarrow> bool" where
  "link_exact ident par ses A qs s \<longleftrightarrow>
     (\<forall>q \<in> A. GetSession (ident q) s =
        Some (linkedTo (if q \<in> set qs then par q else '''') (roots ident par id qs (ident q)) (ses q)))"

lemma roots_nonempty:
  "(\<And>k. k \<noteq> '''' \<Longrightarrow> r k \<noteq> '''') \<Longrightarrow> k \<noteq> '''' \<Longrightarrow> roots ident par r qs k \<noteq> ''''"
proof (induction qs arbitrary: r)
  case (Cons q qs)
  show ?case
    unfolding roots.simps by (rule Cons.IH) (use Cons.prems in auto)
qed simp

lemma linkedTo_linkedTo [simp]: "linkedTo a b (linkedTo c d x) = linkedTo a b x"
  by (simp add: linkedTo_def)

lemma linkedTo_root [simp]: "s_RootSessionID (linkedTo a b x) = b" "s_ParentSessionID (linkedTo a b x) = a"
  by (simp_all add: linkedTo_def)

lemma link_exact_step:
  assumes ex: "link_exact ident par ses A qs (store w)" and inv: "store_inv (store w)"
    and q: "q \<in> A" "q \<notin> set qs" and inj: "inj_on ident A"
    and par: "par q = '''' \<or> (\<exists>p \<in> A. par q = ident p)"
    and ids: "\<And>a. a \<in> A \<Longrightarrow> ident a \<noteq> ''''"
    and ses: "\<And>a. a \<in> A \<Longrightarrow> session_complete (ses a) \<and> s_LastActivityAt (ses a) \<noteq> 0 \<and>
      s_StartedAt (ses a) \<noteq> 0 \<and> isInferredProcessSession (ses a)"
    and w': "par q = '''' \<Longrightarrow> store w' = store w"
      "par q \<noteq> '''' \<Longrightarrow> sessions (store w') = sessions (store (linkChild (ident q) (par q) w))"
  shows "link_exact ident par ses A (qs @ [q]) (store w')"
proof (cases "par q = ''''")
  case True
  then show ?thesis
    using ex w' by (auto simp: link_exact_def roots_append)
next
  case False
  then obtain p where p: "p \<in> A" "par q = ident p" using par by blast
  let ?r = "roots ident par id qs"
  have nz: "?r k \<noteq> ''''" if "k \<noteq> ''''" for k
    by (rule roots_nonempty) (simp_all add: that)
  have root: "rootOf (store w) (ident p) = ?r (ident p)"
    using ex p(1) nz [OF ids [OF p(1)]] by (simp add: link_exact_def rootOf_def)
  have "GetSession (ident a) (store w') =
      (if a = q then Some (linkedTo (par q) (?r (par q)) (ses q)) else GetSession (ident a) (store w))"
    if a: "a \<in> A" for a
  proof -
    obtain n where n: "GetSession (ident a) (store (linkChild (ident q) (ident p) w)) =
        (if ident a = ident q
         then map_option (\<lambda>x. if isInferredProcessSession x
                then defaultSession n (linkedTo (ident p) (rootOf (store w) (ident p)) x) else x)
                (GetSession (ident q) (store w))
         else GetSession (ident a) (store w))"
      using linkChild_store [OF inv ids [OF q(1)], of "ident a" "ident p"] by blast
    have "ident a = ident q \<longleftrightarrow> a = q"
      using inj a q(1) by (auto simp: inj_on_def)
    moreover have "GetSession (ident q) (store w) =
        Some (linkedTo '''' (?r (ident q)) (ses q))"
      using ex q by (simp add: link_exact_def)
    ultimately show ?thesis
      using n ses [OF q(1)] nz [OF ids [OF p(1)]] w'(2) [OF False]
      by (simp add: GetSession_def p(2) root api_simps linkedTo_again)
  qed
  moreover have "roots ident par id (qs @ [q]) (ident a) =
      (if a = q then ?r (par q) else ?r (ident a))" if "a \<in> A" for a
    using False inj that q(1) by (auto simp: roots_append inj_on_def)
  ultimately show ?thesis
    using ex q(2) by (auto simp: link_exact_def)
qed

definition agentID :: "host \<Rightarrow> Store \<Rightarrow> Process \<Rightarrow> string" where
  "agentID h s p = (case agentSession h 1 s p of Some z \<Rightarrow> s_ID z | None \<Rightarrow> '''')"

lemma agentID_claims: "claims h s p k \<longleftrightarrow> agentID h s p = k \<and> k \<noteq> ''''"
proof (cases "agentSession h 1 s p")
  case (Some z)
  with claims_iff [of h s p k 1] agentSession_fields(3) [OF Some] show ?thesis
    by (auto simp: agentID_def)
qed (use claims_iff [of h s p k 1] in \<open>simp add: agentID_def\<close>)

lemma linkStep_agentProcess: "linkStep now pids (agentProcess h t p) = linkStep now pids p"
  by (rule ext) (simp add: linkStep_def)

text \<open>The agents of a process list without repeated PIDs.\<close>

definition agents :: "host \<Rightarrow> Store \<Rightarrow> Process list \<Rightarrow> Process list" where
  "agents h s ps = filter (\<lambda>p. \<exists>k. claims h s p k) ps"

lemma in_agents: "p \<in> set (agents h s ps) \<longleftrightarrow> p \<in> set ps \<and> claims h s p (agentID h s p)"
  by (auto simp: agents_def agentID_claims)

lemma agentID_inj:
  assumes "distinct (map p_PID ps)"
  shows "inj_on (agentID h s) (set (agents h s ps))"
proof (rule inj_onI)
  fix p q
  assume pq: "p \<in> set (agents h s ps)" "q \<in> set (agents h s ps)" "agentID h s p = agentID h s q"
  then have "p_PID p = p_PID q"
    using claims_pid [of h s p "agentID h s p" h s q] by (simp add: in_agents)
  with pq assms show "p = q" by (auto simp: in_agents distinct_map inj_on_def)
qed

lemma pid_agentID:
  assumes "infer_inv h now s ps (rc, v)" and "distinct (map p_PID ps)" and "p \<in> set (agents h s ps)"
  shows "mapString (pidToSession rc) (p_PID p) = agentID h s p"
  using pid_table [OF assms(1,2), of "agentID h s p" "p_PID p"] assms(3)
  by (auto simp: in_agents dest: claims_nonempty)

lemma parent_agent:
  assumes "infer_inv h now s ps (rc, v)" and "distinct (map p_PID ps)"
  shows "mapString (pidToSession rc) n = '''' \<or>
     (\<exists>q \<in> set (agents h s ps). mapString (pidToSession rc) n = agentID h s q)"
proof (cases "mapString (pidToSession rc) n = ''''")
  case False
  then obtain q where "q \<in> set ps" "claims h s q (mapString (pidToSession rc) n)"
    using pid_table [OF assms False, of n] by blast
  then have "q \<in> set (agents h s ps)" "mapString (pidToSession rc) n = agentID h s q"
    by (simp_all add: in_agents agentID_claims)
  then show ?thesis by blast
qed simp

text \<open>What the first loop stores for an agent.\<close>

definition agentRecord :: "host \<Rightarrow> time \<Rightarrow> Store \<Rightarrow> Process \<Rightarrow> Session" where
  "agentRecord h now s p =
     (case agentSession h now s p of Some z \<Rightarrow> defaultSession now z | None \<Rightarrow> zeroSession)"

lemma agent_session:
  assumes "p \<in> set (agents h s ps)"
  obtains z where "agentSession h now s p = Some z" "s_ID z = agentID h s p"
    "agentRecord h now s p = defaultSession now z"
  using assms claims_iff [of h s p "agentID h s p" now] by (auto simp: in_agents agentRecord_def)

lemma agentRecord_fields:
  assumes "p \<in> set (agents h s ps)" and "now \<noteq> 0"
  shows "session_complete (agentRecord h now s p)" "s_LastActivityAt (agentRecord h now s p) = now"
    and "s_StartedAt (agentRecord h now s p) \<noteq> 0" "isInferredProcessSession (agentRecord h now s p)"
    and "linkedTo '''' (agentID h s p) (agentRecord h now s p) = agentRecord h now s p"
proof -
  obtain z where z: "agentSession h now s p = Some z" "s_ID z = agentID h s p"
    "agentRecord h now s p = defaultSession now z"
    using agent_session [OF assms(1)] .
  note f = agentSession_fields [OF z(1)]
  show "session_complete (agentRecord h now s p)" "s_LastActivityAt (agentRecord h now s p) = now"
    "s_StartedAt (agentRecord h now s p) \<noteq> 0" "isInferredProcessSession (agentRecord h now s p)"
    using f assms(2) by (simp_all add: z(3) defaultSession_complete defaultSession_fields api_simps)
  show "linkedTo '''' (agentID h s p) (agentRecord h now s p) = agentRecord h now s p"
    using f(3,6,7) z(2) by (simp add: z(3) linkedTo_def defaultSession_def Let_def)
qed

lemma link_run_exact:
  assumes ii: "infer_inv h now s ps (rc, v)" and dist: "distinct (map p_PID ps)" and "now \<noteq> 0"
    and vi: "store_inv (store v)"
    and first: "\<And>p. p \<in> set (agents h s ps) \<Longrightarrow>
      GetSession (agentID h s p) (store v) = Some (agentRecord h now s p)"
    and qs: "set qs \<subseteq> set (agents h s ps)" "distinct qs"
  shows "link_exact (agentID h s) (\<lambda>p. mapString (pidToSession rc) (p_PPID p)) (agentRecord h now s)
      (set (agents h s ps)) qs (store (snd (fold (linkStep now (pidToSession rc)) qs ([], v))))"
  using qs
proof (induction qs rule: rev_induct)
  case Nil
  then show ?case
    using first agentRecord_fields(5) [OF _ assms(3)] by (simp add: link_exact_def)
next
  case (snoc q qs)
  let ?par = "\<lambda>p. mapString (pidToSession rc) (p_PPID p)"
  obtain es u where u: "fold (linkStep now (pidToSession rc)) qs ([], v) = (es, u)" by fastforce
  have q: "q \<in> set (agents h s ps)" "q \<notin> set qs" using snoc.prems by auto
  have IH: "link_exact (agentID h s) ?par (agentRecord h now s) (set (agents h s ps)) qs (store u)"
    "store_inv (store u)"
    using snoc u linkLoop_inv [of "([], v)" now "pidToSession rc" qs] vi by auto
  have nz: "agentID h s p \<noteq> ''''" if "p \<in> set (agents h s ps)" for p
    using that by (auto simp: in_agents dest: claims_nonempty)
  have "link_exact (agentID h s) ?par (agentRecord h now s) (set (agents h s ps)) (qs @ [q])
      (store (snd (linkStep now (pidToSession rc) q (es, u))))"
    by (rule link_exact_step [OF IH q agentID_inj [OF dist] parent_agent [OF ii dist] nz])
      (use agentRecord_fields [OF _ assms(3)] assms(3) in
        \<open>simp_all add: linkStep_eq pid_agentID [OF ii dist q(1)] nz [OF q(1)] api_simps store_frame Let_def\<close>)
  then show ?case
    by (simp add: u)
qed

lemma linkPhase_exact:
  assumes "store_inv (store w)" and "clock w (ticks w) \<noteq> 0" and "distinct (map p_PID ps)"
  shows "link_exact (agentID h (store w))
      (\<lambda>p. mapString (pidToSession (fst (inferPhase h ps w))) (p_PPID p))
      (agentRecord h (clock w (ticks w)) (store w)) (set (agents h (store w) ps))
      (agents h (store w) ps) (store (snd (linkPhase h ps w)))"
proof -
  let ?now = "clock w (ticks w)"
  obtain rc v where v: "inferPhase h ps w = (rc, v)" by fastforce
  have ii: "infer_inv h ?now (store w) ps (rc, v)"
    using inferPhase_spec [of h w ps] v by simp
  have vi: "store_inv (store v)"
    using phase_inv(1) [OF assms(1), of h ps] v by simp
  have first: "GetSession (agentID h (store w) p) (store v) = Some (agentRecord h ?now (store w) p)"
    if p: "p \<in> set (agents h (store w) ps)" for p
  proof -
    obtain z where z: "agentSession h ?now (store w) p = Some z" "s_ID z = agentID h (store w) p"
      "agentRecord h ?now (store w) p = defaultSession ?now z"
      using agent_session [OF p] .
    show ?thesis
      using infer_exact [OF _ assms(2,3) _ z(1), of "snd (timeNow w)"] p z(2,3) v
      by (simp add: inferPhase_def api_simps in_agents)
  qed
  have "linkPhase h ps w = fold (linkStep ?now (pidToSession rc)) (agents h (store w) ps) ([], v)"
    by (simp add: linkPhase_def v infer_invD(7) [OF ii] fold_map o_def linkStep_agentProcess
        api_simps agents_def)
  moreover have "distinct (agents h (store w) ps)"
    using assms(3) by (simp add: distinct_map agents_def)
  ultimately show ?thesis
    using link_run_exact [OF ii assms(3,2) vi first subset_refl] v by simp
qed

section \<open>Edges\<close>

lemma claims_no_gt: "claims h s p k \<Longrightarrow> CHR ''>'' \<notin> set k"
proof
  assume "claims h s p k" "CHR ''>'' \<in> set k"
  then obtain a where a: "inferAgentSource h p = Some a" "k = a @ '':process:'' @ Itoa (p_PID p)"
    by (auto simp: claims_def)
  with \<open>CHR ''>'' \<in> set k\<close> have "CHR ''>'' \<in> set (Itoa (p_PID p))"
    using inferAgentSource_known [OF a(1)] by auto
  then show False
    using Itoa_chars by (force simp: char_digit_def)
qed

lemma spawnedByID_inject:
  assumes "CHR ''>'' \<notin> set a" and "CHR ''>'' \<notin> set c" and "spawnedByID a b = spawnedByID c d"
  shows "a = c \<and> b = d"
proof -
  have eq: "a @ ''->'' @ b = c @ ''->'' @ d"
    using assms(3) by (simp add: spawnedByID_def)
  have "takeWhile (\<lambda>x. x \<noteq> CHR ''>'') ((x @ ''-'') @ CHR ''>'' # y) = x @ ''-''"
    if "CHR ''>'' \<notin> set x" for x y
    by (rule takeWhile_before) (use that in simp)
  from this [OF assms(1), of b] this [OF assms(2), of d] eq have "a @ ''-'' = c @ ''-''"
    by simp
  with eq show ?thesis by simp
qed

lemma links_table:
  assumes "infer_inv h now s ps (rc, v)" and "distinct (map p_PID ps)"
  shows "links (pidToSession rc) (inferredProcesses rc) =
    {(c, d). \<exists>p \<in> set ps. \<exists>q \<in> set ps. claims h s p c \<and> claims h s q d \<and> p_PID q = p_PPID p}"
    (is "?L = ?R")
proof (intro set_eqI iffI)
  fix x assume "x \<in> ?L"
  then obtain c d proc where x: "x = (c, d)" "c \<noteq> ''''" "d \<noteq> ''''"
    "proc \<in> set (inferredProcesses rc)" "mapString (pidToSession rc) (p_PID proc) = c"
    "mapString (pidToSession rc) (p_PPID proc) = d"
    by (auto simp: links_def)
  then obtain p where p: "p \<in> set ps" "p_PID proc = p_PID p" "p_PPID proc = p_PPID p"
    by (auto simp: infer_invD(7) [OF assms(1)])
  obtain p' where p': "p' \<in> set ps" "p_PID p' = p_PID p" "claims h s p' c"
    using pid_table [OF assms x(2), of "p_PID p"] x(5) p(2) by auto
  have "p' = p"
    using p(1) p'(1,2) assms(2) by (auto simp: distinct_map inj_on_def)
  moreover obtain q where "q \<in> set ps" "p_PID q = p_PPID p" "claims h s q d"
    using pid_table [OF assms x(3), of "p_PPID p"] x(6) p(3) by auto
  ultimately show "x \<in> ?R"
    using p(1) p'(3) x(1) by blast
next
  fix x assume "x \<in> ?R"
  then obtain c d p q where x: "x = (c, d)" "p \<in> set ps" "q \<in> set ps" "claims h s p c"
    "claims h s q d" "p_PID q = p_PPID p" by blast
  have nz: "c \<noteq> ''''" "d \<noteq> ''''"
    using x claims_nonempty by blast+
  have "mapString (pidToSession rc) (p_PID p) = c" "mapString (pidToSession rc) (p_PPID p) = d"
    using pid_table [OF assms nz(1)] pid_table [OF assms nz(2)] x by blast+
  moreover have "agentProcess h now p \<in> set (inferredProcesses rc)"
    using x(2,4) by (auto simp: infer_invD(7) [OF assms(1)])
  ultimately show "x \<in> ?L"
    using nz unfolding links_def x(1) by (auto intro!: bexI [of _ "agentProcess h now p"])
qed

text \<open>The parent links between the agents of a process table.\<close>

definition linked :: "host \<Rightarrow> Store \<Rightarrow> Process list \<Rightarrow> string \<Rightarrow> string \<Rightarrow> bool" where
  "linked h s ps c d \<longleftrightarrow>
     (\<exists>p \<in> set ps. \<exists>q \<in> set ps. claims h s p c \<and> claims h s q d \<and> p_PID q = p_PPID p)"

lemma linkPhase_edges:
  assumes "store_inv (store w)" and "clock w (ticks w) \<noteq> 0" and "distinct (map p_PID ps)"
    and u: "linkPhase h ps w = (es, u)"
  shows "j \<in> set es \<longleftrightarrow> (\<exists>c d. linked h (store w) ps c d \<and> j = spawnedByID c d)"
    and "j \<notin> set es \<Longrightarrow> gm_get (edges (store u)) j = gm_get (edges (store w)) j"
    and "linked h (store w) ps c d \<Longrightarrow>
      gm_get (edges (store u)) (spawnedByID c d) = Some (processEdge (clock w (ticks w)) c d)"
proof -
  let ?now = "clock w (ticks w)"
  obtain rc v where v: "inferPhase h ps w = (rc, v)" by fastforce
  have ii: "infer_inv h ?now (store w) ps (rc, v)"
    using inferPhase_spec [of h w ps] v by simp
  have li: "link_inv ?now (store v) (pidToSession rc) (inferredProcesses rc) (es, u)"
    using linkPhase_spec [OF assms(1,2), of h ps] v u by simp
  have L: "(c, d) \<in> links (pidToSession rc) (inferredProcesses rc) \<longleftrightarrow> linked h (store w) ps c d" for c d
    by (simp add: links_table [OF ii assms(3)] linked_def)
  show es: "j \<in> set es \<longleftrightarrow> (\<exists>c d. linked h (store w) ps c d \<and> j = spawnedByID c d)" for j
    unfolding link_invD(4) [OF li] L by blast
  show "j \<notin> set es \<Longrightarrow> gm_get (edges (store u)) j = gm_get (edges (store w)) j"
    using link_invD(5) [OF li] infer_invD(8) [OF ii] by simp
  show "gm_get (edges (store u)) (spawnedByID c d) = Some (processEdge ?now c d)"
    if cd: "linked h (store w) ps c d"
  proof -
    obtain a b where ab: "linked h (store w) ps a b"
      "gm_get (edges (store u)) (spawnedByID c d) = Some (processEdge ?now a b)"
      using link_invD(6) [OF li, of "spawnedByID c d"] cd es unfolding L by blast
    have "spawnedByID a b = spawnedByID c d"
      using gm_keyed_get [OF store_invD(3) [OF link_invD(1) [OF li]] ab(2)] by (simp add: processEdge_def)
    moreover have "CHR ''>'' \<notin> set a" "CHR ''>'' \<notin> set c"
      using ab(1) cd claims_no_gt unfolding linked_def by blast+
    ultimately show ?thesis
      using spawnedByID_inject ab(2) by blast
  qed
qed

lemma agents_split:
  "claims h s p k \<Longrightarrow> agents h s (as @ p # bs) = agents h s as @ p # agents h s bs"
  by (auto simp: agents_def)

lemma agents_distinct:
  assumes "distinct (map p_PID ps)"
  shows "distinct (map (agentID h s) (agents h s ps))"
  using agentID_inj [OF assms, of h s] assms by (simp add: distinct_map agents_def)

text \<open>Which agents come first in the table decides the roots.\<close>

lemma agent_roots:
  assumes "distinct (map p_PID (as @ p # bs))" and "claims h s p k" and "par p = d"
  shows "d = '''' \<Longrightarrow> roots (agentID h s) par id (agents h s (as @ p # bs)) k = k"
    and "q \<in> set as \<Longrightarrow> claims h s q d \<Longrightarrow>
      roots (agentID h s) par id (agents h s (as @ p # bs)) k =
      roots (agentID h s) par id (agents h s (as @ p # bs)) d"
    and "q \<in> set (p # bs) \<Longrightarrow> claims h s q d \<Longrightarrow>
      roots (agentID h s) par id (agents h s (as @ p # bs)) k = d"
proof -
  have dist: "distinct (map (agentID h s) (agents h s as @ p # agents h s bs))"
    using agents_distinct [OF assms(1), of h s] by (simp add: agents_split [OF assms(2)])
  have k: "agentID h s p = k"
    using assms(2) by (simp add: agentID_claims)
  note at = roots_at [where ident = "agentID h s" and par = par and p = p, OF dist, unfolded k assms(3)]
  show "d = '''' \<Longrightarrow> roots (agentID h s) par id (agents h s (as @ p # bs)) k = k"
    using at(1) by (simp add: agents_split [OF assms(2)])
  show "roots (agentID h s) par id (agents h s (as @ p # bs)) k =
      roots (agentID h s) par id (agents h s (as @ p # bs)) d"
    if "q \<in> set as" "claims h s q d"
    using at(2) that by (force simp: agents_split [OF assms(2)] in_agents agentID_claims)
  show "roots (agentID h s) par id (agents h s (as @ p # bs)) k = d"
    if q: "q \<in> set (p # bs)" "claims h s q d"
  proof -
    have "q \<in> set (p # agents h s bs)" "agentID h s q = d"
      using q by (auto simp: in_agents agentID_claims)
    then have "d \<notin> agentID h s ` set (agents h s as)"
      using dist by auto
    then show ?thesis
      using at(3) q(2) by (simp add: agents_split [OF assms(2)] claims_nonempty)
  qed
qed

end
