(* ===== verification/Api_Props.thy ===== *)
theory Api_Props
  imports Api_Links
begin

text \<open>
  The properties of the JSON-RPC surface: what a reconciliation of process sessions does to the
  store, what each method answers, and how a connection pairs responses with requests.
\<close>

section \<open>Example worlds\<close>

definition exampleHost :: host where
  "exampleHost = bareHost\<lparr>getpid := 7\<rparr>"

definition exampleWorld :: "Process list \<Rightarrow> Store \<Rightarrow> World" where
  "exampleWorld ps s = \<lparr>store = s, clock = (\<lambda>n. 100 + int n), ticks = 0, orders = (\<lambda>_. []),
     ranges = 0, procs = (\<lambda>_. Inr ps), calls = 0, shutdowns = 0\<rparr>"

definition exampleProcess :: "int \<Rightarrow> int \<Rightarrow> string \<Rightarrow> Process" where
  "exampleProcess pid ppid name = zeroProcess\<lparr>p_ID := ''process:'' @ Itoa pid, p_PID := pid,
     p_PPID := ppid, p_Command := name\<rparr>"

definition exampleAgents :: "Process list" where
  "exampleAgents = [exampleProcess 5 1 ''claude'', exampleProcess 6 5 ''codex'', exampleProcess 7 1 ''vim'']"

lemma example_world [simp]:
  "store (exampleWorld ps s) = s" "clock (exampleWorld ps s) n = 100 + int n"
  "ticks (exampleWorld ps s) = 0" "procs (exampleWorld ps s) n = Inr ps"
  by (simp_all add: exampleWorld_def)

lemma example_source:
  "inferAgentSource exampleHost (exampleProcess pid ppid ''claude'') = Some ''claude''"
  "inferAgentSource exampleHost (exampleProcess pid ppid ''codex'') = Some ''codex''"
  "inferAgentSource exampleHost (exampleProcess pid ppid ''vim'') = None"
proof -
  have "inferAgentSource exampleHost (exampleProcess pid ppid c) =
      inferAgentSource exampleHost (exampleProcess 0 0 c)" for c
    by (rule inferAgentSource_cong) (simp_all add: exampleProcess_def)
  moreover have "inferAgentSource exampleHost (exampleProcess 0 0 ''claude'') = Some ''claude''"
    "inferAgentSource exampleHost (exampleProcess 0 0 ''codex'') = Some ''codex''"
    "inferAgentSource exampleHost (exampleProcess 0 0 ''vim'') = None"
    by code_simp+
  ultimately show
    "inferAgentSource exampleHost (exampleProcess pid ppid ''claude'') = Some ''claude''"
    "inferAgentSource exampleHost (exampleProcess pid ppid ''codex'') = Some ''codex''"
    "inferAgentSource exampleHost (exampleProcess pid ppid ''vim'') = None"
    by simp_all
qed

lemma example_claims:
  "claims exampleHost New (exampleProcess pid ppid ''claude'') k \<longleftrightarrow> k = ''claude:process:'' @ Itoa pid"
  "claims exampleHost New (exampleProcess pid ppid ''codex'') k \<longleftrightarrow> k = ''codex:process:'' @ Itoa pid"
  "claims exampleHost New (exampleProcess pid ppid ''vim'') k \<longleftrightarrow> False"
  by (auto simp: claims_def example_source reported_def New_def GetSession_def)
    (simp_all add: exampleProcess_def)

definition exampleReported :: Session where
  "exampleReported = defaultSession 5 (zeroSession\<lparr>s_ID := ''native:1''\<rparr>)"

definition exampleStore :: Store where
  "exampleStore = snd (UpsertSession 5 6 (zeroSession\<lparr>s_ID := ''native:1''\<rparr>) New)"

lemma example_reported:
  "GetSession ''native:1'' exampleStore = Some exampleReported"
  "\<not> isInferredProcessSession exampleReported"
  by (simp_all add: exampleStore_def exampleReported_def GetSession_def session_table.get_upsert
      api_simps) (simp add: isInferredProcessSession_def zeroSession_def)

lemma example_Itoa: "Itoa 5 = ''5''" "Itoa 6 = ''6''"
  by code_simp+

lemma example_inv: "store_inv exampleStore"
  by (simp add: exampleStore_def store_inv_UpsertSession store_inv_New)

section \<open>Reconciliation\<close>

text \<open>The world in which the lister has been called.\<close>

definition called :: "World \<Rightarrow> World" where
  "called w = w\<lparr>calls := Suc (calls w)\<rparr>"

lemma called_simps [simp]:
  "store (called w) = store w" "clock (called w) = clock w" "ticks (called w) = ticks w"
  by (simp_all add: called_def)

lemma reconciled_world:
  "procs w (calls w) = Inr ps \<Longrightarrow> reconcileProcessSessions h w = (r, w') \<Longrightarrow>
     w' = reconcileWith h ps (called w)"
  by (simp add: reconcileProcessSessions_def listProcesses_def called_def)

lemma reconcile_reported:
  assumes "store_inv (store w)" and "clock w (ticks w) \<noteq> 0"
  shows "reported (store (reconcileWith h ps w)) k x \<longleftrightarrow> reported (store w) k x"
proof -
  have "reported (store (reconcileWith h ps w)) k x \<longleftrightarrow> reported (store (snd (linkPhase h ps w))) k x"
    by (auto simp: reported_def reconcile_sessions [OF assms(1)] split: option.splits if_splits)
  also have "\<dots> \<longleftrightarrow> reported (store (snd (inferPhase h ps w))) k x"
    using linkPhase_spec [OF assms] by (simp add: link_inv_def Let_def)
  also have "\<dots> \<longleftrightarrow> reported (store w) k x"
    using inferPhase_spec [of h w ps] by (simp add: infer_inv_def Let_def)
  finally show ?thesis .
qed

lemma reconcile_sources:
  assumes "store_inv (store w)" and "clock w (ticks w) \<noteq> 0"
  shows "sources (store (reconcileWith h ps w)) = sources (store w)"
proof -
  have "sources (store (reconcileWith h ps w)) = sources (store (snd (linkPhase h ps w)))"
    by (simp add: reconcileWith_phases dropPhase_def ranged_def dropEdges_frame dropSessions_frame)
  then show ?thesis
    using linkPhase_spec [OF assms, of h ps] inferPhase_spec [of h w ps]
    by (simp add: link_inv_def infer_inv_def Let_def)
qed

text \<open>
  C3. Reconciling with the process table never touches what clients reported: a session that is not
  inferred from a process is in the store afterwards if and only if it was before, with the same
  content, and the registered sources are unchanged.
\<close>

theorem reconcile_keeps_reported:
  assumes "store_inv (store w)" and "clock w (ticks w) \<noteq> 0" and "procs w (calls w) = Inr ps"
    and "reconcileProcessSessions h w = (r, w')" and "\<not> isInferredProcessSession x"
  shows "(GetSession k (store w') = Some x \<longleftrightarrow> GetSession k (store w) = Some x) \<and>
    sources (store w') = sources (store w)"
  using reconciled_world [OF assms(3,4)] assms(5)
    reconcile_reported [of "called w" h ps k x] reconcile_sources [of "called w" h ps] assms(1,2)
  by (simp add: reported_def)

theorem reconcile_keeps_reported_witness:
  "GetSession ''native:1'' (store (snd (reconcileProcessSessions exampleHost
     (exampleWorld exampleAgents exampleStore)))) = Some exampleReported"
proof -
  let ?w = "exampleWorld exampleAgents exampleStore"
  let ?r = "reconcileProcessSessions exampleHost ?w"
  have "(GetSession ''native:1'' (store (snd ?r)) = Some exampleReported \<longleftrightarrow>
      GetSession ''native:1'' (store ?w) = Some exampleReported) \<and>
    sources (store (snd ?r)) = sources (store ?w)"
    by (rule reconcile_keeps_reported [where h = exampleHost and ps = exampleAgents and r = "fst ?r"])
      (simp_all add: example_inv example_reported)
  then show ?thesis
    by (simp add: example_reported)
qed

text \<open>
  C2. After a reconciliation the inferred sessions are exactly those of the agent processes in the
  table: there is an inferred session under an ID if and only if some listed process is recognised as
  an agent, the ID is its agent's name and PID, and no reported session holds that ID. Sessions of
  processes that have gone are removed.
\<close>

theorem reconcile_inferred_exact:
  assumes "store_inv (store w)" and "clock w (ticks w) \<noteq> 0" and "procs w (calls w) = Inr ps"
    and "reconcileProcessSessions h w = (r, w')"
  shows "(\<exists>x. GetSession k (store w') = Some x \<and> isInferredProcessSession x) \<longleftrightarrow>
    (\<exists>p \<in> set ps. claims h (store w) p k)"
proof -
  let ?w = "called w"
  have inv: "store_inv (store ?w)" "clock ?w (ticks ?w) \<noteq> 0"
    using assms(1,2) by simp_all
  obtain rc v where v: "inferPhase h ps ?w = (rc, v)" by fastforce
  have ii: "infer_inv h (clock ?w (ticks ?w)) (store ?w) ps (rc, v)"
    using inferPhase_spec [of h ?w ps] v by simp
  have rep: "reported (store (snd (linkPhase h ps ?w))) k x \<longleftrightarrow> reported (store v) k x" for x
    using linkPhase_spec [OF inv, of h ps] v by (simp add: link_inv_def Let_def)
  have none: "GetSession k (store (snd (linkPhase h ps ?w))) = None \<longleftrightarrow> GetSession k (store v) = None"
    using linkPhase_spec [OF inv, of h ps] v by (simp add: link_inv_def Let_def)
  have "(\<exists>x. GetSession k (store w') = Some x \<and> isInferredProcessSession x) \<longleftrightarrow>
      k \<in> set (seen rc) \<and> GetSession k (store v) \<noteq> None \<and> (\<forall>x. \<not> reported (store v) k x)"
    unfolding none [symmetric] rep [symmetric] reconciled_world [OF assms(3,4)]
      reconcile_sessions [OF inv(1)]
    by (auto simp: v reported_def split: option.splits if_splits)
  also have "\<dots> \<longleftrightarrow> k \<in> set (seen rc)"
    using infer_invD(4) [OF ii, of k] by (auto simp: reported_def)
  also have "\<dots> \<longleftrightarrow> (\<exists>p \<in> set ps. claims h (store w) p k)"
    using infer_invD(2) [OF ii] by simp
  finally show ?thesis .
qed

theorem reconcile_inferred_exact_witness:
  "(\<exists>x. GetSession ''claude:process:5'' (store (snd (reconcileProcessSessions exampleHost
     (exampleWorld exampleAgents New)))) = Some x \<and> isInferredProcessSession x) \<and>
   \<not> (\<exists>x. GetSession ''codex:process:9'' (store (snd (reconcileProcessSessions exampleHost
     (exampleWorld exampleAgents New)))) = Some x \<and> isInferredProcessSession x)"
proof -
  have "(\<exists>x. GetSession k (store (snd (reconcileProcessSessions exampleHost
       (exampleWorld exampleAgents New)))) = Some x \<and> isInferredProcessSession x) \<longleftrightarrow>
      (\<exists>p \<in> set exampleAgents. claims exampleHost New p k)" for k
    using reconcile_inferred_exact [where w = "exampleWorld exampleAgents New" and k = k and
        ps = exampleAgents and h = exampleHost and
        r = "fst (reconcileProcessSessions exampleHost (exampleWorld exampleAgents New))" and
        w' = "snd (reconcileProcessSessions exampleHost (exampleWorld exampleAgents New))"]
    by (simp add: store_inv_New)
  then show ?thesis
    by (simp add: exampleAgents_def example_claims example_Itoa)
qed

text \<open>
  C9. For a table without repeated PIDs, a reconciliation makes the \<open>process:spawned_by:\<close>
  edges exactly the parent links between the inferred agents, each from child to parent and observed
  now; it leaves every other edge as it was.
\<close>

theorem reconcile_edges_exact:
  assumes "store_inv (store w)" and "clock w (ticks w) \<noteq> 0" and "procs w (calls w) = Inr ps"
    and "reconcileProcessSessions h w = (r, w')" and "distinct (map p_PID ps)"
  shows "gm_get (edges (store w')) j = Some e \<longleftrightarrow>
    (if HasPrefix j ''process:spawned_by:''
     then \<exists>c d. linked h (store w) ps c d \<and> j = spawnedByID c d \<and>
       e = processEdge (clock w (ticks w)) c d
     else gm_get (edges (store w)) j = Some e)"
proof -
  have inv: "store_inv (store (called w))" "clock (called w) (ticks (called w)) \<noteq> 0"
    using assms(1,2) by simp_all
  obtain es u where u: "linkPhase h ps (called w) = (es, u)" by fastforce
  note edges = linkPhase_edges [OF inv assms(5) u]
  have pre: "HasPrefix (spawnedByID c d) ''process:spawned_by:''" for c d
    unfolding spawnedByID_def by (rule HasPrefix_append)
  have "gm_get (edges (store w')) j = (if HasPrefix j ''process:spawned_by:'' \<and> j \<notin> set es then None
      else gm_get (edges (store u)) j)"
    using reconcile_edges [OF inv(1), of h ps j] u reconciled_world [OF assms(3,4)] by simp
  then show ?thesis
    using edges(1,2) [of j] edges(3) pre by (cases "j \<in> set es") (auto, blast)
qed

theorem reconcile_edges_exact_witness:
  "gm_get (edges (store (snd (reconcileProcessSessions exampleHost
     (exampleWorld exampleAgents New))))) ''process:spawned_by:codex:process:6->claude:process:5'' =
   Some (processEdge 100 ''codex:process:6'' ''claude:process:5'')"
proof -
  let ?w = "exampleWorld exampleAgents New"
  let ?r = "reconcileProcessSessions exampleHost ?w"
  have "gm_get (edges (store (snd ?r))) j = Some e \<longleftrightarrow>
    (if HasPrefix j ''process:spawned_by:''
     then \<exists>c d. linked exampleHost (store ?w) exampleAgents c d \<and> j = spawnedByID c d \<and>
       e = processEdge (clock ?w (ticks ?w)) c d
     else gm_get (edges (store ?w)) j = Some e)" for j e
    by (rule reconcile_edges_exact [where h = exampleHost and r = "fst ?r"])
      (simp_all add: store_inv_New exampleAgents_def exampleProcess_def)
  moreover have "linked exampleHost New exampleAgents ''codex:process:6'' ''claude:process:5''"
    by (simp add: linked_def exampleAgents_def example_claims example_Itoa)
      (simp add: exampleProcess_def)
  ultimately show ?thesis
    by (force simp: spawnedByID_def)
qed

text \<open>The parent of an agent: the session of the agent whose PID is its PPID, if there is one.\<close>

lemma reconcile_agent:
  assumes "store_inv (store w)" and "clock w (ticks w) \<noteq> 0" and "distinct (map p_PID ps)"
    and p: "p \<in> set (agents h (store w) ps)"
  shows "GetSession (agentID h (store w) p) (store (reconcileWith h ps w)) =
    Some (linkedTo (mapString (pidToSession (fst (inferPhase h ps w))) (p_PPID p))
      (roots (agentID h (store w))
        (\<lambda>p. mapString (pidToSession (fst (inferPhase h ps w))) (p_PPID p)) id
        (agents h (store w) ps) (agentID h (store w) p))
      (agentRecord h (clock w (ticks w)) (store w) p))"
proof -
  obtain rc v where v: "inferPhase h ps w = (rc, v)" by fastforce
  have ii: "infer_inv h (clock w (ticks w)) (store w) ps (rc, v)"
    using inferPhase_spec [of h w ps] v by simp
  have "agentID h (store w) p \<in> set (seen rc)"
    using p unfolding infer_invD(2) [OF ii] by (auto simp: in_agents)
  then show ?thesis
    using linkPhase_exact [OF assms(1-3), of h] p v
    by (simp add: reconcile_sessions [OF assms(1)] link_exact_def)
qed



text \<open>
  C11. Parents and roots of inferred sessions (PIDs not repeated). An agent whose parent process is no
  agent has no parent and is its own root. Otherwise its parent is the session of the parent process,
  and its root is the parent's root if the parent precedes it in the table; if the parent comes later
  its root is only the parent itself, however long the chain of ancestors is.
\<close>

theorem reconcile_parent_root:
  assumes "store_inv (store w)" and "clock w (ticks w) \<noteq> 0"
    and "procs w (calls w) = Inr (as @ p # bs)" and "reconcileProcessSessions h w = (r, w')"
    and "distinct (map p_PID (as @ p # bs))" and "claims h (store w) p k"
    and "GetSession k (store w') = Some x"
  shows "((\<nexists>q d. q \<in> set (as @ p # bs) \<and> p_PID q = p_PPID p \<and> claims h (store w) q d) \<longrightarrow>
      s_ParentSessionID x = '''' \<and> s_RootSessionID x = k) \<and>
    (\<forall>q d. q \<in> set (as @ p # bs) \<and> p_PID q = p_PPID p \<and> claims h (store w) q d \<longrightarrow>
      s_ParentSessionID x = d \<and>
      (if q \<in> set as
       then \<exists>y. GetSession d (store w') = Some y \<and> s_RootSessionID x = s_RootSessionID y
       else s_RootSessionID x = d))"
proof -
  let ?ps = "as @ p # bs" and ?s = "store w"
  obtain rc v where v: "inferPhase h ?ps (called w) = (rc, v)" by fastforce
  have ii: "infer_inv h (clock w (ticks w)) ?s ?ps (rc, v)"
    using inferPhase_spec [of h "called w" ?ps] v by simp
  let ?par = "\<lambda>p. mapString (pidToSession rc) (p_PPID p)"
  let ?roots = "roots (agentID h ?s) ?par id (agents h ?s ?ps)"
  have get: "GetSession j (store w') = Some (linkedTo (?par q) (?roots j)
      (agentRecord h (clock w (ticks w)) ?s q))" if "q \<in> set ?ps" "claims h ?s q j" for q j
    using reconcile_agent [of "called w" ?ps q h] that assms(1,2,5) v
      reconciled_world [OF assms(3,4)] by (simp add: in_agents agentID_claims)
  have x: "s_ParentSessionID x = ?par p" "s_RootSessionID x = ?roots k"
    using get [OF _ assms(6)] assms(7) by simp_all
  note table = pid_table [OF ii assms(5)]
  note rt = agent_roots [OF assms(5,6), where par = ?par]
  have "s_ParentSessionID x = '''' \<and> s_RootSessionID x = k"
    if "\<nexists>q d. q \<in> set ?ps \<and> p_PID q = p_PPID p \<and> claims h ?s q d"
  proof -
    have "?par p = ''''"
      using table [of "?par p" "p_PPID p"] that by blast
    then show ?thesis
      using rt(1) [OF refl] x by simp
  qed
  moreover have "s_ParentSessionID x = d \<and>
      (if q \<in> set as
       then \<exists>y. GetSession d (store w') = Some y \<and> s_RootSessionID x = s_RootSessionID y
       else s_RootSessionID x = d)"
    if q: "q \<in> set ?ps" "p_PID q = p_PPID p" "claims h ?s q d" for q d
  proof -
    have d: "?par p = d"
      using table [OF claims_nonempty [OF q(3)]] q by blast
    then show ?thesis
      using rt(2) [OF d _ q(3)] rt(3) [OF d _ q(3)] q(1) x get [OF q(1,3)] by auto
  qed
  ultimately show ?thesis by blast
qed

text \<open>
  The chain 7 (claude), 8 (codex, child of 7), 9 (codex, child of 8) with the table in reverse order.
\<close>

definition reversedChain :: "Process list" where
  "reversedChain =
     [exampleProcess 9 8 ''codex'', exampleProcess 8 7 ''codex'', exampleProcess 7 1 ''claude'']"

lemma reversed_claims:
  "claims exampleHost New (exampleProcess 9 8 ''codex'') ''codex:process:9''"
  "claims exampleHost New (exampleProcess 8 7 ''codex'') ''codex:process:8''"
proof -
  have "Itoa 9 = ''9''" "Itoa 8 = ''8''" by code_simp+
  then show "claims exampleHost New (exampleProcess 9 8 ''codex'') ''codex:process:9''"
    "claims exampleHost New (exampleProcess 8 7 ''codex'') ''codex:process:8''"
    by (simp_all add: example_claims)
qed

theorem reconcile_parent_root_witness:
  "\<exists>x. GetSession ''codex:process:9'' (store (snd (reconcileProcessSessions exampleHost
     (exampleWorld reversedChain New)))) = Some x \<and> s_RootSessionID x = ''codex:process:8''"
proof -
  let ?w = "exampleWorld reversedChain New" and ?p = "exampleProcess 9 8 ''codex''"
  let ?r = "reconcileProcessSessions exampleHost ?w"
  let ?q = "exampleProcess 8 7 ''codex''" and ?bs = "[exampleProcess 8 7 ''codex'', exampleProcess 7 1 ''claude'']"
  have ps: "reversedChain = [] @ ?p # ?bs"
    by (simp add: reversedChain_def)
  have dist: "distinct (map p_PID ([] @ ?p # ?bs))"
    by (simp add: exampleProcess_def)
  have q: "?q \<in> set ([] @ ?p # ?bs)" "p_PID ?q = p_PPID ?p"
    by (simp_all add: exampleProcess_def)
  have "\<exists>x. GetSession ''codex:process:9'' (store (snd ?r)) = Some x"
    using reconcile_agent [of "called ?w" "[] @ ?p # ?bs" ?p exampleHost] dist
      reversed_claims(1) reconciled_world [of ?w reversedChain exampleHost "fst ?r" "snd ?r"]
    by (simp add: store_inv_New in_agents agentID_claims ps)
  then obtain x where x: "GetSession ''codex:process:9'' (store (snd ?r)) = Some x" by blast
  have "s_RootSessionID x = ''codex:process:8''"
    using reconcile_parent_root [of ?w "[]" ?p ?bs exampleHost "fst ?r" "snd ?r" "''codex:process:9''" x,
        THEN conjunct2, rule_format, of ?q "''codex:process:8''"] q dist reversed_claims x
    by (simp add: store_inv_New ps [simplified])
  with x show ?thesis by blast
qed

end
