(* ===== verification/Handle_Props.thy ===== *)
theory Handle_Props
  imports Api_Props
begin

text \<open>
  The properties of \<open>Handle\<close> and \<open>ServeConn\<close>: errors change nothing, reads change
  nothing, the store's invariant survives every request, a reported session is what the next read
  returns, and a connection answers its requests one by one.
\<close>

section \<open>The store under a request\<close>

lemmas method_defs = daemonInfo_def daemonShutdown_def sessionsList_def sessionsGet_def
  processesList_def processesGet_def workspacesGet_def lineageGet_def eventsList_def
  sourcesDoctor_def observeSession_def observeRemoval_def observeWorkspace_def observeEdge_def

lemma answers_store [api_simps]: "store (snd (answers f a)) = store (snd a)" "fst (answers f a) = Inr (f (fst a))"
  by (simp_all add: answers_def)

lemma withParams_cases:
  obtains (bad) err where "p = Inl err" "withParams p body w = (Inl (invalidParams err), w)"
  | (good) r where "p = Inr r" "withParams p body w = body r w"
  by (cases p) (auto simp: withParams_def)

lemma listProcesses_cases:
  obtains (fails) err where "procs w (calls w) = Inl err" "listProcesses w = (Inl err, called w)"
  | (lists) ps where "procs w (calls w) = Inr ps" "listProcesses w = (Inr ps, called w)"
  by (cases "procs w (calls w)") (auto simp: listProcesses_def called_def)

lemma read_methods_store:
  "store (snd (daemonInfo h hr w)) = store w" "store (snd (daemonShutdown hr w)) = store w"
  "store (snd (sessionsGet p w)) = store w" "store (snd (processesList w)) = store w"
  "store (snd (processesGet p w)) = store w" "store (snd (workspacesGet p w)) = store w"
  "store (snd (lineageGet p w)) = store w" "store (snd (eventsList e w)) = store w"
  "store (snd (sourcesDoctor p w)) = store w"
  by (auto simp: method_defs api_simps Let_def listProcesses_def split: sum.splits)

lemma withParams_store:
  "(\<And>r. store (snd (body r w)) = store w) \<Longrightarrow> store (snd (withParams p body w)) = store w"
  by (cases p) (simp_all add: withParams_def)

definition writing_methods :: "string list" where
  "writing_methods = [''sessions/list'', ''observations/upsertSession'',
     ''observations/removeSession'', ''observations/upsertWorkspace'', ''observations/upsertEdge'']"

lemma methods_reads:
  assumes "(method, f) \<in> set (methods h hr params)" and "method \<notin> set writing_methods"
  shows "store (snd (f w)) = store w"
proof -
  have "list_all (\<lambda>(m, f). m \<in> set writing_methods \<or> store (snd (f w)) = store w) (methods h hr params)"
    unfolding methods_def writing_methods_def
    by (simp add: read_methods_store withParams_store answers_store timed_store)
  then show ?thesis
    using assms by (fastforce simp: list_all_iff)
qed

lemma reads_store: "method \<notin> set writing_methods \<Longrightarrow> store (snd (Handle h hr method params w)) = store w"
  using methods_reads [OF map_of_SomeD] by (simp add: Handle_def split: option.splits)

lemma Handle_writing [api_simps]:
  "Handle h hr ''sessions/list'' params w =
     withParams (decodeParams h ''sessions/list'' listFields zeroFilter params) (sessionsList h) w"
  "Handle h hr ''observations/upsertSession'' params w =
     withParams (decodeParams h ''observations/upsertSession'' (sessionFields h) zeroSession params)
       observeSession w"
  "Handle h hr ''observations/removeSession'' params w =
     withParams (decodeParams h ''observations/removeSession'' idFields zeroID params) observeRemoval w"
  "Handle h hr ''observations/upsertWorkspace'' params w =
     withParams (decodeParams h ''observations/upsertWorkspace'' (workspaceFields h) zeroWorkspace params)
       observeWorkspace w"
  "Handle h hr ''observations/upsertEdge'' params w =
     withParams (decodeParams h ''observations/upsertEdge'' (edgeFields h) zeroEdge params) observeEdge w"
  by (simp_all add: Handle_def methods_def)

lemma writing_methodE:
  assumes "method \<in> set writing_methods"
  obtains "method = ''sessions/list''" | "method = ''observations/upsertSession''"
  | "method = ''observations/removeSession''" | "method = ''observations/upsertWorkspace''"
  | "method = ''observations/upsertEdge''"
proof -
  have "method = ''sessions/list'' \<or> method = ''observations/upsertSession'' \<or>
      method = ''observations/removeSession'' \<or> method = ''observations/upsertWorkspace'' \<or>
      method = ''observations/upsertEdge''"
    using assms by (simp only: writing_methods_def list.set insert_iff empty_iff simp_thms)
  then show thesis
    by (elim disjE) (erule that; fail)+
qed

definition exampleHandler :: Handler where
  "exampleHandler = SetShutdown True (fst (NewHandler (exampleWorld [] New)))"

text \<open>
  C16. Every method but \<open>sessions/list\<close> and the four observations only reads: it leaves the
  store as it was, whatever its parameters and its answer. Unknown methods are among them.
\<close>

theorem handle_reads_only:
  "method \<notin> set writing_methods \<Longrightarrow> store (snd (Handle h hr method params w)) = store w"
  by (rule reads_store)

theorem handle_reads_only_witness:
  "store (snd (Handle exampleHost exampleHandler ''sessions/get'' None (exampleWorld [] New))) = New"
  using handle_reads_only [of "''sessions/get''" exampleHost exampleHandler None "exampleWorld [] New"]
  by (simp add: writing_methods_def)

lemma withParams_error:
  "fst (withParams p body w) = Inl e \<Longrightarrow> (\<And>r. fst (body r w) = Inl e \<Longrightarrow> store (snd (body r w)) = store w) \<Longrightarrow>
     store (snd (withParams p body w)) = store w"
  by (cases p) (simp_all add: withParams_def)

lemma write_methods_error:
  "fst (sessionsList h f w) = Inl e \<Longrightarrow> store (snd (sessionsList h f w)) = store w"
  "fst (observeSession x w) = Inl e \<Longrightarrow> store (snd (observeSession x w)) = store w"
  "fst (observeRemoval p w) = Inl e \<Longrightarrow> store (snd (observeRemoval p w)) = store w"
  "fst (observeWorkspace y w) = Inl e \<Longrightarrow> store (snd (observeWorkspace y w)) = store w"
  "fst (observeEdge z w) = Inl e \<Longrightarrow> store (snd (observeEdge z w)) = store w"
  by (auto simp: method_defs api_simps reconcileProcessSessions_def listProcesses_def
      split: sum.splits if_splits)

text \<open>
  C15. A request that is answered with an error has changed nothing: undecodable or invalid
  parameters, a missing record, an unknown method and a failing process lister all leave the store
  as it was.
\<close>

theorem handle_error_store:
  assumes "fst (Handle h hr method params w) = Inl e"
  shows "store (snd (Handle h hr method params w)) = store w"
proof (cases "method \<in> set writing_methods")
  case False
  then show ?thesis by (rule reads_store)
next
  case True
  then show ?thesis
    by (cases rule: writing_methodE)
      (use assms in \<open>simp_all only: Handle_writing withParams_error write_methods_error\<close>)
qed

theorem handle_error_store_witness:
  "fst (Handle exampleHost exampleHandler ''observations/upsertSession'' None (exampleWorld [] New)) =
     Inl (invalidParams ''id is required'') \<and>
   store (snd (Handle exampleHost exampleHandler ''observations/upsertSession'' None (exampleWorld [] New))) = New"
proof -
  let ?r = "Handle exampleHost exampleHandler ''observations/upsertSession'' None (exampleWorld [] New)"
  have e: "fst ?r = Inl (invalidParams ''id is required'')"
    by (simp add: Handle_writing decodeParams_def withParams_def observeSession_def zeroSession_def)
  show ?thesis
    using handle_error_store [OF e] e by simp
qed

section \<open>The invariant under requests\<close>

lemma reconcile_inv: "store_inv (store w) \<Longrightarrow> store_inv (store (snd (reconcileProcessSessions h w)))"
  by (cases "procs w (calls w)")
    (simp_all add: reconcileProcessSessions_def listProcesses_def phase_inv(4))

lemma sessionsList_inv: "store_inv (store w) \<Longrightarrow> store_inv (store (snd (sessionsList h f w)))"
  using reconcile_inv [of w h]
  by (cases "reconcileProcessSessions h w") (auto simp: sessionsList_def api_simps split: sum.splits)

lemma write_methods_inv:
  assumes "store_inv (store w)"
  shows "store_inv (store (snd (observeSession x w)))" "store_inv (store (snd (observeRemoval p w)))"
    "store_inv (store (snd (observeWorkspace y w)))" "store_inv (store (snd (observeEdge z w)))"
  using assms by (simp_all add: method_defs api_simps store_inv_intros)

lemma withParams_inv:
  "store_inv (store w) \<Longrightarrow> (\<And>r. store_inv (store (snd (body r w)))) \<Longrightarrow>
     store_inv (store (snd (withParams p body w)))"
  by (cases p) (simp_all add: withParams_def)

lemma Handle_inv:
  assumes "store_inv (store w)"
  shows "store_inv (store (snd (Handle h hr method params w)))"
proof (cases "method \<in> set writing_methods")
  case True
  then show ?thesis
    by (cases rule: writing_methodE)
      (simp_all only: Handle_writing withParams_inv [OF assms] sessionsList_inv [OF assms]
        write_methods_inv [OF assms])
qed (simp add: reads_store assms)

lemma ServeConn_inv:
  "store_inv (store w) \<Longrightarrow> store_inv (store (snd (snd (ServeConn h hr is w))))"
proof (induction "is" arbitrary: w)
  case (Cons x "is")
  obtain i wr where x: "x = (i, wr)" by (cases x)
  show ?case
  proof (cases "decodeRequest h i")
    case (Inr req)
    obtain r v where v: "Handle h hr (q_Method req) (q_Params req) w = (r, v)" by fastforce
    have "store_inv (store v)"
      using Handle_inv [OF Cons.prems, of h hr "q_Method req" "q_Params req"] v by simp
    with Cons.IH [of v] Cons.prems Inr v show ?thesis
      by (auto simp: x split: prod.splits)
  qed (use Cons.prems in \<open>auto simp: x split: prod.splits\<close>)
qed simp

text \<open>A world whose store is reached by serving connections and opening subscriptions.\<close>

inductive served :: "host \<Rightarrow> Handler \<Rightarrow> World \<Rightarrow> World \<Rightarrow> bool" for h hr where
  serve: "served h hr w (snd (snd (ServeConn h hr is w)))"
| subscribe: "served h hr w (w\<lparr>store := snd (snd (openSubscription h req (store w)))\<rparr>)"
| unsubscribe: "served h hr w (w\<lparr>store := cancel i (store w)\<rparr>)"
| forward: "subscribeTurn ch (store w) = Some (t, s) \<Longrightarrow> served h hr w (w\<lparr>store := s\<rparr>)"

inductive_cases servedE: "served h hr w v"

lemma openSubscription_inv:
  "store_inv s \<Longrightarrow> store_inv (snd (snd (openSubscription h req s)))"
  by (auto simp: openSubscription_def split: sum.splits prod.splits intro: store_inv_intros)

lemma subscribeTurn_inv: "store_inv s \<Longrightarrow> subscribeTurn ch s = Some (t, s') \<Longrightarrow> store_inv s'"
  using store_inv_recv [of s ch]
  by (auto simp: subscribeTurn_def split: prod.splits option.splits if_splits)

interpretation served_system: invariant_system "\<lambda>w. store w = New" "served h hr"
  "\<lambda>w. store_inv (store w)"
  by unfold_locales
    (auto simp: store_inv_New elim!: servedE intro: ServeConn_inv openSubscription_inv
      store_inv_cancel subscribeTurn_inv)



section \<open>Observations and reads\<close>

lemma Handle_reading [api_simps]:
  "Handle h hr ''sessions/get'' params w =
     withParams (decodeParams h ''sessions/get'' idFields zeroID params) sessionsGet w"
  "Handle h hr ''processes/get'' params w =
     withParams (decodeParams h ''processes/get'' idFields zeroID params) processesGet w"
  "Handle h hr ''lineage/get'' params w =
     withParams (decodeParams h ''lineage/get'' lineageFields zeroID params) lineageGet w"
  "Handle h hr ''events/list'' params w =
     withParams (decodeParams h ''events/list'' eventsFields zeroEvents params) eventsList w"
  by (simp_all add: Handle_def methods_def)

lemma decode_id [api_simps]:
  "decodeParams h m idFields zeroID (Some (JObj [(''id'', JStr k)])) = Inr \<lparr>i_ID = k\<rparr>"
  by (simp add: decodeParams_def decode_struct_def idFields_def field_for_def fld_def dec_string_def
      zeroID_def)


definition exampleSessionParams :: json where
  "exampleSessionParams = JObj [(''id'', JStr ''codex:1''), (''Status'', JStr ''blocked'')]"

lemma example_params:
  "decodeParams exampleHost m (sessionFields exampleHost) zeroSession (Some exampleSessionParams) =
     Inr (zeroSession\<lparr>s_ID := ''codex:1'', s_Status := ''blocked''\<rparr>)"
  by (simp add: exampleSessionParams_def decodeParams_def decode_struct_def sessionFields_def
      field_for_def fld_def dec_string_def char_of_def bit_0)


text \<open>
  C20. Observations are validated: they are rejected exactly when their parameters do not decode, or
  lack a session's ID, a workspace's ID and path, or an edge's ends or type; the answer is then
  \<open>invalid params\<close> with the reason.
\<close>

theorem observations_validated:
  "(fst (Handle h hr ''observations/upsertSession'' params w) = Inl e \<longleftrightarrow>
     (case decodeParams h ''observations/upsertSession'' (sessionFields h) zeroSession params of
        Inl err \<Rightarrow> e = invalidParams err
      | Inr x \<Rightarrow> s_ID x = '''' \<and> e = invalidParams ''id is required'')) \<and>
   (fst (Handle h hr ''observations/upsertWorkspace'' params w) = Inl e \<longleftrightarrow>
     (case decodeParams h ''observations/upsertWorkspace'' (workspaceFields h) zeroWorkspace params of
        Inl err \<Rightarrow> e = invalidParams err
      | Inr x \<Rightarrow> w_ID x = '''' \<and> w_Path x = '''' \<and> e = invalidParams ''id or path is required'')) \<and>
   (fst (Handle h hr ''observations/upsertEdge'' params w) = Inl e \<longleftrightarrow>
     (case decodeParams h ''observations/upsertEdge'' (edgeFields h) zeroEdge params of
        Inl err \<Rightarrow> e = invalidParams err
      | Inr x \<Rightarrow> (e_From x = '''' \<or> e_To x = '''' \<or> e_Type x = '''') \<and>
          e = invalidParams ''from, to, and type are required''))"
  by (auto simp: Handle_writing withParams_def observeSession_def observeWorkspace_def
      observeEdge_def answers_store split: sum.splits)

text \<open>
  C18. \<open>sessions/list\<close> reconciles first and then lists: with a process table it answers with
  the sessions of the reconciled store that pass the filter, each once, ordered by attention and
  activity; when the lister fails it answers with an internal error that carries the lister's message
  and changes nothing.
\<close>

theorem sessions_list_spec:
  assumes "store_inv (store w)"
    and "decodeParams h ''sessions/list'' listFields zeroFilter params = Inr f"
  shows "case procs w (calls w) of
      Inl err \<Rightarrow> \<exists>w'. Handle h hr ''sessions/list'' params w = (Inl (internalErr err), w') \<and>
        store w' = store w
    | Inr ps \<Rightarrow> \<exists>xs w'. Handle h hr ''sessions/list'' params w = (Inr (RSessions xs), w') \<and>
        store w' = store (reconcileWith h ps (called w)) \<and>
        set xs = {x. GetSession (s_ID x) (store w') = Some x \<and> keepSession f x} \<and>
        distinct (map s_ID xs) \<and> sorted_wrt (\<lambda>x y. \<not> sessionLess y x) xs"
proof (cases "procs w (calls w)")
  case (Inl err)
  then show ?thesis
    by (simp add: Handle_writing assms(2) withParams_def sessionsList_def
        reconcileProcessSessions_def listProcesses_def)
next
  case (Inr ps)
  let ?v = "reconcileWith h ps (called w)"
  have keyed: "gm_keyed s_ID (sessions (store ?v))"
    using phase_inv(4) [of "called w" h ps] assms(1) by (simp add: store_inv_def)
  have "Handle h hr ''sessions/list'' params w =
      (Inr (RSessions (ListSessions (orders ?v (ranges ?v)) f (store ?v))), snd (ranged (\<lambda>ord. ListSessions ord f) ?v))"
    by (simp add: Handle_writing assms(2) withParams_def sessionsList_def answers_def
        reconcileProcessSessions_def listProcesses_def Inr called_def timed_store)
  then show ?thesis
    using session_list.listing_lookup [OF keyed] session_list.listing_distinct [OF keyed]
      session_list.listing_sorted by (auto simp: Inr timed_store GetSession_def)
qed

theorem sessions_list_spec_witness:
  "\<exists>xs w'. Handle exampleHost exampleHandler ''sessions/list'' None (exampleWorld exampleAgents New) =
      (Inr (RSessions xs), w') \<and> distinct (map s_ID xs) \<and> sorted_wrt (\<lambda>x y. \<not> sessionLess y x) xs"
  using sessions_list_spec [of "exampleWorld exampleAgents New" exampleHost None zeroFilter exampleHandler]
  by (auto simp: store_inv_New decodeParams_def)

section \<open>Connections\<close>

text \<open>The answers to a list of requests, handled in order.\<close>

fun handleAll :: "host \<Rightarrow> Handler \<Rightarrow> Request list \<Rightarrow> World \<Rightarrow> Response list \<times> World" where
  "handleAll h hr [] w = ([], w)"
| "handleAll h hr (req # reqs) w =
     (case Handle h hr (q_Method req) (q_Params req) w of
        (r, w) \<Rightarrow> (case handleAll h hr reqs w of (rs, w) \<Rightarrow> (responseTo req r # rs, w)))"

definition plain_request :: "host \<Rightarrow> incoming \<times> bool \<Rightarrow> Request \<Rightarrow> bool" where
  "plain_request h i req \<longleftrightarrow>
     snd i \<and> decodeRequest h (fst i) = Inr req \<and> q_Method req \<noteq> ''events/subscribe''"

lemma ServeConn_plain:
  "list_all2 (plain_request h) is reqs \<Longrightarrow>
     ServeConn h hr (is @ rest) w =
       (case handleAll h hr reqs w of
          (rs, v) \<Rightarrow> (case ServeConn h hr rest v of (rs', sub, u) \<Rightarrow> (rs @ rs', sub, u)))"
  by (induction "is" reqs arbitrary: w rule: list_all2_induct)
    (auto simp: plain_request_def split: prod.splits)

lemma handleAll_ids: "map t_ID (fst (handleAll h hr reqs w)) = map q_ID reqs"
  by (induction reqs arbitrary: w) (simp_all add: responseTo_def case_prod_beta)

lemma handleAll_exclusive:
  "r \<in> set (fst (handleAll h hr reqs w)) \<Longrightarrow>
     t_JSONRPC r = ''2.0'' \<and> (t_Result r = None \<longleftrightarrow> t_Error r \<noteq> None)"
  by (induction reqs arbitrary: w) (auto simp: responseTo_def case_prod_beta split: sum.splits)

text \<open>
  C19. A connection answers its requests one by one: the responses are those of \<open>Handle\<close> on
  the requests in order, each with the ID of its request and with exactly one of result and error.
  Input that is no request ends the connection, after one parse error without an ID unless it is the
  end of the stream, and nothing after it is read.
\<close>

theorem serve_conn_answers:
  assumes "list_all2 (plain_request h) is reqs" and "decodeRequest h i = Inl (eof, err)"
    and "ServeConn h hr (is @ (i, wr) # later) w = (rs, sub, w')"
  shows "rs = fst (handleAll h hr reqs w) @ (if eof then [] else [parseErrorResponse err]) \<and>
    w' = snd (handleAll h hr reqs w) \<and> sub = None \<and>
    map t_ID (take (length reqs) rs) = map q_ID reqs \<and>
    (\<forall>r \<in> set rs. t_JSONRPC r = ''2.0'' \<and> (t_Result r = None \<longleftrightarrow> t_Error r \<noteq> None))"
proof -
  have rs: "rs = fst (handleAll h hr reqs w) @ (if eof then [] else [parseErrorResponse err])"
    and "w' = snd (handleAll h hr reqs w)" "sub = None"
    using assms(3) ServeConn_plain [OF assms(1), of hr "(i, wr) # later" w]
    by (auto simp: assms(2) split: prod.splits)
  moreover have "length (fst (handleAll h hr reqs w)) = length reqs"
    using handleAll_ids [of h hr reqs w] by (metis length_map)
  ultimately show ?thesis
    using handleAll_ids [of h hr reqs w] handleAll_exclusive [of _ h hr reqs w]
    by (auto simp: parseErrorResponse_def split: if_splits)
qed

definition exampleRequest :: json where
  "exampleRequest = JObj [(''id'', JNum ''3''), (''method'', JStr ''health/check'')]"

lemma example_request:
  "decodeRequest exampleHost (Value exampleRequest) =
     Inr (zeroRequest\<lparr>q_ID := Some (JNum ''3''), q_Method := ''health/check''\<rparr>)"
  by (simp add: exampleRequest_def decode_struct_def requestFields_def field_for_def fld_def
      dec_raw_def dec_string_def)

theorem serve_conn_answers_witness:
  "fst (ServeConn exampleHost exampleHandler ([(Value exampleRequest, True)] @ [(EOF, True)])
     (exampleWorld [] New)) =
   fst (handleAll exampleHost exampleHandler
     [zeroRequest\<lparr>q_ID := Some (JNum ''3''), q_Method := ''health/check''\<rparr>] (exampleWorld [] New))"
proof -
  let ?s = "ServeConn exampleHost exampleHandler ([(Value exampleRequest, True)] @ [(EOF, True)])
     (exampleWorld [] New)"
  let ?req = "zeroRequest\<lparr>q_ID := Some (JNum ''3''), q_Method := ''health/check''\<rparr>"
  have "list_all2 (plain_request exampleHost) [(Value exampleRequest, True)] [?req]"
    unfolding plain_request_def list_all2_Cons fst_conv snd_conv example_request by simp
  moreover have "decodeRequest exampleHost EOF = Inl (True, ''EOF'')" by simp
  moreover have "?s = (fst ?s, fst (snd ?s), snd (snd ?s))" by (simp only: prod.collapse)
  ultimately have "fst ?s = fst (handleAll exampleHost exampleHandler [?req] (exampleWorld [] New)) @
      (if True then [] else [parseErrorResponse ''EOF''])"
    by (rule serve_conn_answers [THEN conjunct1])
  then show ?thesis by (simp only: if_True append_Nil2)
qed

text \<open>
  The status filter of the CLI: splitting a comma-separated list gives back its items, and blank
  items never reach the filter.
\<close>

theorem parse_status_filter:
  "(xs \<noteq> [] \<and> (\<forall>x \<in> set xs. x \<noteq> '''' \<and> CHR '','' \<notin> set x \<and> TrimSpace x = x) \<longrightarrow>
      ParseStatusFilter (Join xs '','') = xs) \<and>
   (\<forall>x \<in> set (ParseStatusFilter value). x \<noteq> '''')"
proof -
  have "ParseStatusFilter (Join xs '','') = xs"
    if xs: "xs \<noteq> []" "\<forall>x \<in> set xs. x \<noteq> '''' \<and> CHR '','' \<notin> set x \<and> TrimSpace x = x"
  proof -
    have "map TrimSpace xs = xs" "filter (\<lambda>x. x \<noteq> '''') xs = xs"
      using xs by (auto intro: map_idI)
    moreover have "Split (CHR '','') (Join xs '','') = xs"
      by (rule Split_Join) (use xs in auto)
    moreover have "Join xs '','' \<noteq> ''''"
      using xs by (cases xs; cases "tl xs") auto
    ultimately show ?thesis
      by (simp add: ParseStatusFilter_def)
  qed
  then show ?thesis
    by (auto simp: ParseStatusFilter_def)
qed

theorem parse_status_filter_witness:
  "ParseStatusFilter (Join [''working'', ''blocked''] '','') = [''working'', ''blocked'']"
proof -
  have "TrimSpace ''working'' = ''working''" "TrimSpace ''blocked'' = ''blocked''"
    by code_simp+
  then show ?thesis
    using parse_status_filter [of "[''working'', ''blocked'']"] by simp
qed

end
