(* ===== verification/Pubsub.thy ===== *)
theory Pubsub
  imports Store_Inv
begin

text \<open>
  Publishing and subscribing as concurrent goroutines, \<open>internal/store/store.go\<close> lines 388 to
  444. A step is what one goroutine does without another in between: a critical section, one send or
  one receive. \<open>sends\<close> holds the calls of \<open>appendEvent\<close> that have left the critical
  section, each with the channels it has still to send to; \<open>replays\<close> holds the goroutines
  \<open>Subscribe\<close> started, each with the rest of its backlog. \<open>pushed\<close> and
  \<open>published\<close> are observations for the specification: what was ever put into a channel and
  the number of events.
\<close>

section \<open>The machine\<close>

record Pub =
  hub :: Store
  sends :: "(Event \<times> nat list) multiset"
  replays :: "(Event list \<times> nat) multiset"
  pushed :: "nat \<Rightarrow> Event list"
  published :: nat

definition startPub :: Pub where
  "startPub = \<lparr>hub = New, sends = {#}, replays = {#}, pushed = (\<lambda>_. []), published = 0\<rparr>"

definition open_chan :: "Store \<Rightarrow> nat \<Rightarrow> bool" where
  "open_chan s ch \<longleftrightarrow> ch < length (chans s) \<and> \<not> ch_closed (chans s ! ch)"

definition room :: "Store \<Rightarrow> nat \<Rightarrow> bool" where
  "room s ch \<longleftrightarrow> open_chan s ch \<and> length (ch_buf (chans s ! ch)) < channel_cap"

definition pushIf :: "bool \<Rightarrow> nat \<Rightarrow> Event \<Rightarrow> (nat \<Rightarrow> Event list) \<Rightarrow> nat \<Rightarrow> Event list" where
  "pushIf b ch e f = (if b then f(ch := f ch @ [e]) else f)"

text \<open>
  Every step but cancelling. \<open>publish\<close> is the critical section of \<open>appendEvent\<close>, and
  the channels are visited in any order; \<open>send\<close> is one turn of its loop, which drops the event
  when the buffer is full; \<open>replay\<close> is one send of the backlog goroutine, which waits while the
  buffer is full; a send on a closed channel panics in both. Once a goroutine has panicked the process
  is gone and nothing runs. \<open>edit\<close> stands for the critical sections that change the tables.
\<close>

inductive core_step :: "Pub \<Rightarrow> Pub \<Rightarrow> bool" where
  publish: "\<not> panicked (hub p) \<Longrightarrow>
    appendEvent_locked (stampEvent now e) (hub p) = (e', subs, s) \<Longrightarrow>
    core_step p (p\<lparr>hub := s, sends := add_mset (e', permute ord subs) (sends p),
      published := Suc (published p)\<rparr>)"
| send: "\<not> panicked (hub p) \<Longrightarrow> sends p = add_mset (e, ch # chs) rest \<Longrightarrow>
    core_step p (p\<lparr>hub := trySend e ch (hub p), sends := add_mset (e, chs) rest,
      pushed := pushIf (room (hub p) ch) ch e (pushed p)\<rparr>)"
| subscribe: "\<not> panicked (hub p) \<Longrightarrow> Subscribe since (hub p) = (i, ch, backlog, s) \<Longrightarrow>
    core_step p (p\<lparr>hub := s, replays := add_mset (backlog, ch) (replays p)\<rparr>)"
| replay: "\<not> panicked (hub p) \<Longrightarrow> replays p = add_mset (e # es, ch) rest \<Longrightarrow>
    room (hub p) ch \<or> \<not> open_chan (hub p) ch \<Longrightarrow>
    core_step p (p\<lparr>hub := trySend e ch (hub p), replays := add_mset (es, ch) rest,
      pushed := pushIf (room (hub p) ch) ch e (pushed p)\<rparr>)"
| receive: "\<not> panicked (hub p) \<Longrightarrow> core_step p (p\<lparr>hub := snd (recvEvent ch (hub p))\<rparr>)"
| edit: "\<not> panicked (hub p) \<Longrightarrow>
    core_step p (p\<lparr>hub := (hub p)\<lparr>sessions := a, workspaces := b, edges := c, sources := d\<rparr>\<rparr>)"

text \<open>All steps, with cancelling at any time; and the steps in which a subscription is cancelled
  only when no goroutine is about to send to its channel.\<close>

inductive pub_step :: "Pub \<Rightarrow> Pub \<Rightarrow> bool" where
  core: "core_step p q \<Longrightarrow> pub_step p q"
| cancels: "\<not> panicked (hub p) \<Longrightarrow> pub_step p (p\<lparr>hub := cancel i (hub p)\<rparr>)"

definition in_flight :: "Pub \<Rightarrow> nat \<Rightarrow> bool" where
  "in_flight p ch \<longleftrightarrow>
     (\<exists>x \<in># sends p. ch \<in> set (snd x)) \<or> (\<exists>x \<in># replays p. fst x \<noteq> [] \<and> snd x = ch)"

inductive quiet_step :: "Pub \<Rightarrow> Pub \<Rightarrow> bool" where
  core: "core_step p q \<Longrightarrow> quiet_step p q"
| cancels: "\<not> panicked (hub p) \<Longrightarrow>
    (\<And>ch. gm_get (subscribers (hub p)) i = Some ch \<Longrightarrow> \<not> in_flight p ch) \<Longrightarrow>
    quiet_step p (p\<lparr>hub := cancel i (hub p)\<rparr>)"

inductive_cases core_stepE: "core_step p q"
inductive_cases pub_stepE: "pub_step p q"
inductive_cases quiet_stepE: "quiet_step p q"

section \<open>Cancelling in flight\<close>


section \<open>Cancelling at rest\<close>

lemma trySend_open_chan:
  assumes "chan_inv s" and "open_chan s ch"
  shows "chan_inv (trySend e ch s)" "open_chan (trySend e ch s) d \<longleftrightarrow> open_chan s d"
proof -
  have eq: "trySend e ch s = s\<lparr>chans := (chans s)[ch := push e (chans s ! ch)]\<rparr>"
    using assms by (intro trySend_open) (auto simp: chan_inv_def open_chan_def)
  have cl: "ch_closed ((chans s)[ch := push e (chans s ! ch)] ! d) = ch_closed (chans s ! d)" for d
    by (cases "d = ch") (use assms in \<open>auto simp: open_chan_def\<close>)
  show "open_chan (trySend e ch s) d \<longleftrightarrow> open_chan s d"
    by (simp add: open_chan_def eq cl)
  have "length (ch_buf c) \<le> channel_cap" if "c \<in> set ((chans s)[ch := push e (chans s ! ch)])" for c
    using that assms set_update_subset_insert [of "chans s" ch "push e (chans s ! ch)"]
    by (auto simp: chan_inv_def open_chan_def push_def)
  then show "chan_inv (trySend e ch s)"
    using assms(1) by (simp add: chan_inv_def eq cl)
qed

lemma recv_open_chan [simp]: "open_chan (snd (recvEvent ch s)) d \<longleftrightarrow> open_chan s d"
proof (cases rule: recvEvent_cases [of ch s])
  case (2 es)
  then show ?thesis
    by (cases "d = ch") (auto simp: open_chan_def)
qed simp

lemma cancel_open_chan:
  "open_chan s d \<Longrightarrow> gm_get (subscribers s) i \<noteq> Some d \<Longrightarrow> open_chan (cancel i s) d"
  by (auto simp: open_chan_def cancel_def nth_list_update split: option.splits)

lemma locked_frame:
  assumes "appendEvent_locked e s = (e', subs, s')"
  shows "chans s' = chans s" "subscribers s' = subscribers s" "panicked s' = panicked s"
    "subs = map snd (subscribers s)" "v_Seq e' = wrap64 (nextSeq s + 1)"
    "nextSeq s' = wrap64 (nextSeq s + 1)" "events s' = trimEvents (maxEvents s) (events s @ [e'])"
    "maxEvents s' = maxEvents s"
  using assms by (auto simp: appendEvent_locked_def Let_def trimEvents_eq)

lemma Subscribe_open_chan:
  assumes "Subscribe since s = (i, ch, backlog, s')"
  shows "open_chan s' ch" "open_chan s d \<Longrightarrow> open_chan s' d"
  using assms by (auto simp: Subscribe_def Let_def open_chan_def nth_append)

definition quiet_inv :: "Pub \<Rightarrow> bool" where
  "quiet_inv p \<longleftrightarrow> chan_inv (hub p) \<and> (\<forall>ch. in_flight p ch \<longrightarrow> open_chan (hub p) ch)"

lemma quiet_inv_core:
  assumes "core_step p q" and "quiet_inv p"
  shows "quiet_inv q"
  using assms
proof (cases rule: core_step.cases)
  case (publish now e e' subs s ord)
  note f = locked_frame [OF publish(3)]
  have "open_chan (hub p) ch" if "ch \<in> set (permute ord subs)" for ch
    using that assms(2) f(4) by (auto simp: quiet_inv_def chan_inv_def open_chan_def)
  then show ?thesis
    using assms(2) f publish by (auto simp: quiet_inv_def in_flight_def open_chan_def chan_inv_def)
next
  case (send e ch chs rest)
  have op: "open_chan (hub p) ch"
    using assms(2) send(3) by (auto simp: quiet_inv_def in_flight_def)
  then show ?thesis
    using assms(2) send trySend_open_chan [of "hub p" ch e]
    by (auto simp: quiet_inv_def in_flight_def)
next
  case (subscribe since i ch backlog s)
  show ?thesis
    using assms(2) subscribe(1) Subscribe_open_chan [OF subscribe(3)] chan_inv_Subscribe [OF _ subscribe(3)]
    by (auto simp: quiet_inv_def in_flight_def)
next
  case (replay e es ch rest)
  have op: "open_chan (hub p) ch"
    using assms(2) replay(3) by (auto simp: quiet_inv_def in_flight_def)
  then show ?thesis
    using assms(2) replay trySend_open_chan [of "hub p" ch e]
    by (auto simp: quiet_inv_def in_flight_def)
next
  case (receive ch)
  then show ?thesis
    using assms(2) chan_inv_recv [of "hub p" ch] by (simp add: quiet_inv_def in_flight_def)
next
  case (edit a b c d)
  then show ?thesis
    using assms(2) by (simp add: quiet_inv_def in_flight_def open_chan_def chan_inv_def)
qed

lemma quiet_inv_step: "quiet_step p q \<Longrightarrow> quiet_inv p \<Longrightarrow> quiet_inv q"
proof (induction rule: quiet_step.induct)
  case (core p q)
  then show ?case by (rule quiet_inv_core)
next
  case (cancels p i)
  have "open_chan (cancel i (hub p)) ch" if "in_flight p ch" for ch
    using cancels that by (intro cancel_open_chan) (auto simp: quiet_inv_def)
  then show ?case
    using cancels(3) chan_inv_cancel by (simp add: quiet_inv_def in_flight_def)
qed

lemma quiet_inv_start: "quiet_inv startPub"
  by (simp add: quiet_inv_def startPub_def in_flight_def chan_inv_def New_def)

interpretation quiet_system: invariant_system "\<lambda>p. p = startPub" quiet_step quiet_inv
  by unfold_locales (auto intro: quiet_inv_start quiet_inv_step)

text \<open>
  C7. The crash needs a cancellation in flight: as long as a subscription is cancelled only when no
  publisher and no backlog goroutine has a send to its channel outstanding, no run panics, whatever
  the interleaving of the other goroutines; subscribed channels are open and no buffer exceeds 128.
\<close>

theorem quiet_runs_never_panic:
  assumes "quiet_step\<^sup>*\<^sup>* startPub p"
  shows "\<not> panicked (hub p) \<and> (\<forall>c \<in> set (chans (hub p)). length (ch_buf c) \<le> 128) \<and>
    (\<forall>i ch. gm_get (subscribers (hub p)) i = Some ch \<longrightarrow> open_chan (hub p) ch)"
proof -
  have "chan_inv (hub p)"
    using quiet_system.inv_reach [OF refl assms] by (simp add: quiet_inv_def)
  then show ?thesis
    by (auto simp: chan_inv_def channel_cap_def open_chan_def gm_get_def dest!: map_of_SomeD)
qed

theorem quiet_runs_never_panic_witness:
  "\<not> panicked (hub (startPub\<lparr>hub := cancel 0 (hub startPub)\<rparr>))"
proof -
  have "quiet_step startPub (startPub\<lparr>hub := cancel 0 (hub startPub)\<rparr>)"
    by (rule quiet_step.cancels) (simp_all add: startPub_def New_def)
  then show ?thesis
    using quiet_runs_never_panic [OF r_into_rtranclp] by blast
qed

section \<open>At most once\<close>

text \<open>The sequence numbers on their way to a channel: put into it, or still to be sent to it.\<close>

definition flight :: "Pub \<Rightarrow> nat \<Rightarrow> int multiset" where
  "flight p ch = mset (map v_Seq (pushed p ch)) +
     image_mset (\<lambda>x. v_Seq (fst x)) (filter_mset (\<lambda>x. ch \<in> set (snd x)) (sends p)) +
     (\<Sum>x \<in># replays p. if snd x = ch then mset (map v_Seq (fst x)) else {#})"

definition once :: "Pub \<Rightarrow> bool" where
  "once p \<longleftrightarrow>
     nextSeq (hub p) = int (published p) \<and> length (events (hub p)) \<le> published p \<and>
     (\<forall>ch n. count (flight p ch) n \<le> 1) \<and>
     (\<forall>ch. \<forall>n \<in># flight p ch. n \<le> int (published p)) \<and>
     (\<forall>ch. length (chans (hub p)) \<le> ch \<longrightarrow> flight p ch = {#})"

text \<open>Sequence numbers are unique as long as the 64-bit counter has not wrapped.\<close>

definition once_inv :: "Pub \<Rightarrow> bool" where
  "once_inv p \<longleftrightarrow>
     log_inv (hub p) \<and> distinct (map snd (subscribers (hub p))) \<and>
     (\<forall>x \<in> set (subscribers (hub p)). snd x < length (chans (hub p))) \<and>
     (\<forall>x \<in># sends p. distinct (snd x)) \<and>
     (int (published p) \<le> max_int64 \<longrightarrow> once p)"

lemma once_mono:
  assumes "once p" and "nextSeq (hub q) = nextSeq (hub p)" "events (hub q) = events (hub p)"
    "length (chans (hub p)) \<le> length (chans (hub q))" "published q = published p"
    and sub: "\<And>ch. flight q ch \<subseteq># flight p ch"
  shows "once q"
proof -
  have "count (flight q ch) n \<le> count (flight p ch) n" for ch n
    using sub by (simp add: mset_subset_eq_count)
  moreover have "n \<in># flight q ch \<Longrightarrow> n \<in># flight p ch" for ch n
    using sub by (rule mset_subset_eqD)
  ultimately show ?thesis
    using assms(1-5) sub unfolding once_def
    by (metis (no_types, lifting) order_trans subset_mset.le_zero_eq)
qed

lemma flight_send:
  assumes "sends p = add_mset (e, ch # chs) rest" and "distinct (ch # chs)"
  shows "flight (p\<lparr>hub := s, sends := add_mset (e, chs) rest, pushed := pushIf b ch e (pushed p)\<rparr>) d
     \<subseteq># flight p d"
  using assms by (auto simp: flight_def pushIf_def)

lemma flight_replay:
  assumes "replays p = add_mset (e # es, ch) rest"
  shows "flight (p\<lparr>hub := s, replays := add_mset (es, ch) rest, pushed := pushIf b ch e (pushed p)\<rparr>) d
     \<subseteq># flight p d"
  using assms by (auto simp: flight_def pushIf_def)

lemma flight_hub [simp]: "flight (p\<lparr>hub := s\<rparr>) ch = flight p ch"
  by (simp add: flight_def)

lemma log_inv_locked:
  assumes "log_inv s" and "appendEvent_locked (stampEvent now e) s = (e', subs, s')"
  shows "log_inv s'"
  using log_inv_append [OF assms(1), of now e] assms(2)
  by (simp add: appendEvent_def log_inv_def store_frame)

lemma once_publish:
  assumes "once p" and "appendEvent_locked (stampEvent now e) (hub p) = (e', subs, s)"
    and "distinct (map snd (subscribers (hub p)))"
    and "\<forall>x \<in> set (subscribers (hub p)). snd x < length (chans (hub p))"
    and "int (Suc (published p)) \<le> max_int64"
  shows "once (p\<lparr>hub := s, sends := add_mset (e', permute ord subs) (sends p),
    published := Suc (published p)\<rparr>)" (is "once ?q")
proof -
  note f = locked_frame [OF assms(2)]
  have seq: "wrap64 (nextSeq (hub p) + 1) = int (published p) + 1"
    using assms(1,5) by (simp add: once_def wrap64_Suc)
  have fl: "flight ?q ch = flight p ch + (if ch \<in> set subs then {#int (published p) + 1#} else {#})" for ch
    by (simp add: flight_def f(5) seq)
  have new: "count (flight p ch) (int (published p) + 1) = 0" for ch
  proof -
    have "\<forall>n \<in># flight p ch. n \<le> int (published p)"
      using assms(1) by (simp add: once_def)
    then show ?thesis
      by (auto simp: count_eq_zero_iff)
  qed
  have "count (flight ?q ch) n \<le> 1" for ch n
  proof -
    have "count (flight p ch) n \<le> 1"
      using assms(1) by (simp add: once_def)
    then show ?thesis
      using new [of ch] by (auto simp: fl)
  qed
  moreover have "\<forall>n \<in># flight ?q ch. n \<le> 1 + int (published p)" for ch
  proof -
    have "\<forall>n \<in># flight p ch. n \<le> int (published p)"
      using assms(1) by (simp add: once_def)
    then show ?thesis
      unfolding fl by (auto split: if_splits)
  qed
  moreover have "flight ?q ch = {#}" if ch: "length (chans s) \<le> ch" for ch
  proof -
    have "flight p ch = {#}"
      using assms(1) ch f(1) by (simp add: once_def)
    moreover have "ch \<notin> set subs"
      using assms(4) ch f(1,4) by auto
    ultimately show ?thesis by (simp add: fl)
  qed
  ultimately show ?thesis
    using assms(1) f(6,7) seq by (simp add: once_def min_le_iff_disj)
qed

lemma distinct_log_seqs:
  assumes "log_inv s" and "int (length (events s)) \<le> nextSeq s" and "nextSeq s \<le> max_int64"
  shows "distinct (map v_Seq (events s))" and "e \<in> set (events s) \<Longrightarrow> v_Seq e \<le> nextSeq s"
proof -
  note seq = log_inv_seqs [OF assms]
  show "distinct (map v_Seq (events s))"
    unfolding distinct_conv_nth by (auto simp: seq)
  show "v_Seq e \<le> nextSeq s" if "e \<in> set (events s)"
    using that by (auto simp: in_set_conv_nth seq)
qed

lemma once_subscribe:
  assumes "once p" and "log_inv (hub p)" and "int (published p) \<le> max_int64"
    and "Subscribe since (hub p) = (i, ch, backlog, s)"
  shows "once (p\<lparr>hub := s, replays := add_mset (backlog, ch) (replays p)\<rparr>)" (is "once ?q")
proof -
  note fr = Subscribe_frame [OF assms(4)]
  have ch: "ch = length (chans (hub p))" "length (chans s) = Suc ch"
    "backlog = filter (\<lambda>e. v_Seq e > since) (events (hub p))"
    using assms(4) by (auto simp: Subscribe_def Let_def)
  have fl: "flight ?q d = flight p d + (if d = ch then mset (map v_Seq backlog) else {#})" for d
    by (simp add: flight_def)
  have log: "distinct (map v_Seq (events (hub p)))"
    "\<And>e. e \<in> set (events (hub p)) \<Longrightarrow> v_Seq e \<le> int (published p)"
    using distinct_log_seqs [OF assms(2)] assms(1,3) by (simp_all add: once_def)
  have empty: "flight p ch = {#}"
    using assms(1) ch(1) by (simp add: once_def)
  have "distinct (map v_Seq backlog)"
    using log(1) by (simp add: ch(3) distinct_map_filter)
  then have "count (flight ?q d) n \<le> 1" for d n
    using assms(1) empty by (auto simp: fl once_def distinct_count_atmost_1)
  moreover have "\<forall>n \<in># flight ?q d. n \<le> int (published p)" for d
  proof (cases "d = ch")
    case True
    then show ?thesis using log(2) unfolding fl by (auto simp: empty ch(3))
  next
    case False
    then show ?thesis using assms(1) by (simp add: fl once_def)
  qed
  moreover have "flight ?q d = {#}" if "length (chans s) \<le> d" for d
    unfolding fl using assms(1) that ch by (simp add: once_def)
  ultimately show ?thesis
    using assms(1) fr by (simp add: once_def)
qed

lemma once_inv_core:
  assumes "core_step p q" and inv: "once_inv p"
  shows "once_inv q"
  using assms(1)
proof (cases rule: core_step.cases)
  case (publish now e e' subs s ord)
  note f = locked_frame [OF publish(3)]
  have "once q" if "int (published q) \<le> max_int64"
    unfolding publish(1) by (rule once_publish) (use inv publish that in \<open>auto simp: once_inv_def\<close>)
  then show ?thesis
    using inv f log_inv_locked [OF _ publish(3)] by (auto simp: once_inv_def publish(1))
next
  case (send e ch chs rest)
  have "distinct (ch # chs)"
    using inv send(3) by (auto simp: once_inv_def)
  then have "once q" if "once p"
    using once_mono [OF that, of q] flight_send [OF send(3)] send(1) by (simp add: store_frame)
  then show ?thesis
    using inv send by (auto simp: once_inv_def log_inv_def store_frame)
next
  case (subscribe since i ch backlog s)
  have "once q" if "int (published q) \<le> max_int64"
    unfolding subscribe(1)
    by (rule once_subscribe) (use inv subscribe that in \<open>auto simp: once_inv_def\<close>)
  moreover have "log_inv s"
    using inv Subscribe_frame [OF subscribe(3)] by (simp add: once_inv_def log_inv_def)
  moreover have "distinct (map snd (subscribers s))" "\<forall>x \<in> set (subscribers s). snd x < length (chans s)"
  proof -
    have s: "subscribers s = gm_put i (length (chans (hub p))) (subscribers (hub p))"
      "length (chans s) = Suc (length (chans (hub p)))"
      using subscribe(3) by (auto simp: Subscribe_def Let_def)
    show "distinct (map snd (subscribers s))"
      unfolding s gm_put_def by (rule distinct_snd_update) (use inv in \<open>auto simp: once_inv_def\<close>)
    show "\<forall>x \<in> set (subscribers s). snd x < length (chans s)"
      using inv set_gm_put [of i "length (chans (hub p))" "subscribers (hub p)"]
      by (fastforce simp: s once_inv_def)
  qed
  ultimately show ?thesis
    using inv by (simp add: once_inv_def subscribe(1))
next
  case (replay e es ch rest)
  have "once q" if "once p"
    using once_mono [OF that, of q] flight_replay [OF replay(3)] replay(1) by (simp add: store_frame)
  then show ?thesis
    using inv replay by (auto simp: once_inv_def log_inv_def store_frame)
next
  case (receive ch)
  have "nextSeq (hub q) = nextSeq (hub p)" "events (hub q) = events (hub p)"
    "length (chans (hub q)) = length (chans (hub p))" "subscribers (hub q) = subscribers (hub p)"
    "maxEvents (hub q) = maxEvents (hub p)"
    using receive by (cases rule: recvEvent_cases [of ch "hub p"]; simp)+
  then show ?thesis
    using inv once_mono [of p q] receive(1) by (simp add: once_inv_def log_inv_def)
next
  case (edit a b c d)
  have "once q" if "once p"
    using once_mono [OF that, of q] edit(1) by simp
  then show ?thesis
    using inv edit(1) by (simp add: once_inv_def log_inv_def)
qed

lemma once_inv_step: "pub_step p q \<Longrightarrow> once_inv p \<Longrightarrow> once_inv q"
proof (induction rule: pub_step.induct)
  case (core p q)
  then show ?case by (rule once_inv_core)
next
  case (cancels p i)
  let ?q = "p\<lparr>hub := cancel i (hub p)\<rparr>"
  have len: "length (chans (cancel i (hub p))) = length (chans (hub p))"
    by (simp add: cancel_def split: option.splits)
  have sub: "set (subscribers (cancel i (hub p))) \<subseteq> set (subscribers (hub p))"
    "distinct (map snd (subscribers (hub p))) \<Longrightarrow> distinct (map snd (subscribers (cancel i (hub p))))"
    by (auto simp: cancel_def gm_del_def AList.delete_eq distinct_map_filter split: option.splits)
  have "once ?q" if "once p"
    using once_mono [OF that, of ?q] by (simp add: store_frame len)
  then show ?case
    using cancels(2) sub by (auto simp: once_inv_def log_inv_def store_frame len)
qed

lemma once_inv_start: "once_inv startPub"
  by (simp add: once_inv_def once_def startPub_def New_def log_inv_def flight_def)

interpretation pub_system: invariant_system "\<lambda>p. p = startPub" pub_step once_inv
  by unfold_locales (auto intro: once_inv_start once_inv_step)

text \<open>
  C8. No subscriber gets an event twice: in every interleaving of publishers, subscriptions, backlog
  goroutines, receivers and cancellations, the events put into a channel have pairwise different
  sequence numbers, so an event is never delivered both from the backlog and live. (Until the 64-bit
  counter wraps.)
\<close>

theorem delivered_at_most_once:
  assumes "pub_step\<^sup>*\<^sup>* startPub p" and "int (published p) \<le> max_int64"
  shows "distinct (map v_Seq (pushed p ch))"
proof -
  have "once p"
    using pub_system.inv_reach [OF refl assms(1)] assms(2) by (simp add: once_inv_def)
  then have one: "count (flight p ch) n \<le> 1" for n
    by (simp add: once_def)
  have sub: "count (mset (map v_Seq (pushed p ch))) n \<le> count (flight p ch) n" for n
    by (simp add: flight_def)
  have "count (mset (map v_Seq (pushed p ch))) n \<le> 1" for n
    using le_trans [OF sub one] .
  then show ?thesis
    using sub one
    by (metis count_mset_0_iff distinct_count_atmost_1 le_antisym not_one_le_zero linorder_not_le less_one)
qed

text \<open>A run in which the live event overtakes the backlog of a new subscription.\<close>

lemma overtaking_run:
  "\<exists>p. core_step\<^sup>*\<^sup>* startPub p \<and> published p = 2 \<and> map v_Seq (pushed p 0) = [2, 1]"
proof -
  obtain e1 s1 where a1: "appendEvent_locked (stampEvent 7 zeroEvent) New = (e1, [], s1)"
    by (simp add: appendEvent_locked_def New_def Let_def)
  then have s1: "\<not> panicked s1" "chans s1 = []" "subscribers s1 = []" "events s1 = [e1]"
    "v_Seq e1 = 1" "nextSeq s1 = 1" "nextSubID s1 = 0"
    by (auto simp: appendEvent_locked_def New_def Let_def wrap64_def)
  obtain s2 where sub: "Subscribe 0 s1 = (0, 0, [e1], s2)"
    using s1 by (simp add: Subscribe_def Let_def)
  then have s2: "\<not> panicked s2" "chans s2 = [\<lparr>ch_buf = [], ch_closed = False\<rparr>]"
    "subscribers s2 = [(0, 0)]" "nextSeq s2 = 1"
    using s1 by (auto simp: Subscribe_def Let_def gm_put_def)
  then obtain e2 s3 where a2: "appendEvent_locked (stampEvent 8 zeroEvent) s2 = (e2, [0], s3)"
    by (simp add: appendEvent_locked_def Let_def)
  then have s3: "\<not> panicked s3" "chans s3 = [\<lparr>ch_buf = [], ch_closed = False\<rparr>]" "v_Seq e2 = 2"
    using s2 by (auto simp: appendEvent_locked_def Let_def wrap64_def)
  have s4: "\<not> panicked (trySend e2 0 s3)" "chans (trySend e2 0 s3) = [\<lparr>ch_buf = [e2], ch_closed = False\<rparr>]"
    using s3 by (simp_all add: trySend_def channel_cap_def)
  let ?p1 = "startPub\<lparr>hub := s1, sends := add_mset (e1, permute [] []) (sends startPub),
    published := Suc (published startPub)\<rparr>"
  let ?p2 = "?p1\<lparr>hub := s2, replays := add_mset ([e1], 0) (replays ?p1)\<rparr>"
  let ?p3 = "?p2\<lparr>hub := s3, sends := add_mset (e2, permute [] [0]) (sends ?p2),
    published := Suc (published ?p2)\<rparr>"
  let ?p4 = "?p3\<lparr>hub := trySend e2 0 (hub ?p3), sends := add_mset (e2, []) (sends ?p2),
    pushed := pushIf (room (hub ?p3) 0) 0 e2 (pushed ?p3)\<rparr>"
  let ?p5 = "?p4\<lparr>hub := trySend e1 0 (hub ?p4), replays := add_mset ([], 0) (replays ?p1),
    pushed := pushIf (room (hub ?p4) 0) 0 e1 (pushed ?p4)\<rparr>"
  have "core_step startPub ?p1"
    by (rule core_step.publish) (use a1 in \<open>simp_all add: startPub_def New_def\<close>)
  moreover have "core_step ?p1 ?p2"
    by (rule core_step.subscribe) (use sub s1 in simp_all)
  moreover have "core_step ?p2 ?p3"
    by (rule core_step.publish) (use a2 s2 in simp_all)
  moreover have "core_step ?p3 ?p4"
    by (rule core_step.send) (use s3 in simp_all)
  moreover have room: "room s3 0" "room (trySend e2 0 s3) 0"
    using s3 s4 by (simp_all add: room_def open_chan_def channel_cap_def)
  have "core_step ?p4 ?p5"
    by (rule core_step.replay) (use s4 room in simp_all)
  moreover have "published ?p5 = 2" "map v_Seq (pushed ?p5 0) = [2, 1]"
    using room s1 s3 by (simp_all add: pushIf_def startPub_def)
  ultimately show ?thesis
    by (meson rtranclp.rtrancl_refl rtranclp.rtrancl_into_rtrancl)
qed

lemma core_run_pub: "core_step\<^sup>*\<^sup>* p q \<Longrightarrow> pub_step\<^sup>*\<^sup>* p q"
  by (induction rule: rtranclp_induct) (auto intro: rtranclp.rtrancl_into_rtrancl pub_step.core)

theorem delivered_at_most_once_witness:
  "\<exists>p. pub_step\<^sup>*\<^sup>* startPub p \<and> distinct (map v_Seq (pushed p 0)) \<and> length (pushed p 0) = 2"
proof -
  obtain p where p: "core_step\<^sup>*\<^sup>* startPub p" "published p = 2" "map v_Seq (pushed p 0) = [2, 1]"
    using overtaking_run by (elim exE conjE)
  have "distinct (map v_Seq (pushed p 0))"
    by (rule delivered_at_most_once [OF core_run_pub [OF p(1)]]) (simp add: p(2) max_int64_def)
  moreover have "length (pushed p 0) = 2"
    using arg_cong [OF p(3), of length] by simp
  ultimately show ?thesis
    using core_run_pub [OF p(1)] by (intro exI conjI)
qed


end
