(* ===== verification/Daemon.thy ===== *)
theory Daemon
  imports Handle_Props
begin

text \<open>
  The daemon, \<open>internal/daemon/server.go\<close>: a fresh store with the built-in sources, the
  handler on it, and the loop that accepts connections.
\<close>

section \<open>Sources\<close>

definition seed :: "time \<Rightarrow> string \<Rightarrow> string \<Rightarrow> string \<Rightarrow> string \<Rightarrow> string \<Rightarrow> string list \<Rightarrow> string list \<Rightarrow> Source" where
  "seed now id' name kind status support caps diags =
     zeroSource\<lparr>o_ID := id', o_Name := name, o_Kind := kind, o_Enabled := True, o_Status := status,
       o_SupportLevel := support, o_Capabilities := caps, o_Diagnostics := diags, o_ObservedAt := now\<rparr>"

definition seeds :: "time \<Rightarrow> Source list" where
  "seeds now =
     [seed now ''native'' ''Native Observation API'' ''api'' ''active'' ''native''
        [''sessions'', ''workspaces'', ''lineage'', ''events'']
        [],
      seed now ''process'' ''Process Table'' ''runtime'' ''active'' ''compatible''
        [''processes'']
        [],
      seed now ''git-worktree'' ''Git Worktree'' ''workspace'' ''planned'' ''not_installed''
        [''workspaces'']
        [''workspace discovery is declared but not implemented in this build''],
      seed now ''tmux'' ''tmux'' ''runtime'' ''planned'' ''not_installed''
        [''processes'', ''sessions'']
        [''tmux integration is declared but not implemented in this build''],
      seed now ''claude'' ''Claude Code'' ''session'' ''partial'' ''process_probe''
        [''sessions'', ''processes'']
        [''passive process detection is active; deeper Claude session telemetry is not implemented in this build''],
      seed now ''codex'' ''Codex'' ''session'' ''partial'' ''process_probe''
        [''sessions'', ''processes'']
        [''passive process detection is active; deeper Codex session telemetry is not implemented in this build''],
      seed now ''opencode'' ''OpenCode'' ''session'' ''partial'' ''process_probe''
        [''sessions'', ''processes'']
        [''passive process detection is active; deeper OpenCode session telemetry is not implemented in this build''],
      seed now ''hermes'' ''Hermes'' ''session'' ''partial'' ''process_probe''
        [''sessions'', ''processes'']
        [''passive process detection is active; deeper Hermes session telemetry is not implemented in this build''],
      seed now ''openclaw'' ''OpenClaw'' ''session'' ''partial'' ''process_probe''
        [''sessions'', ''processes'']
        [''passive process detection is active; deeper OpenClaw session telemetry is not implemented in this build''],
      seed now ''nanoclaw'' ''NanoClaw'' ''session'' ''partial'' ''process_probe''
        [''sessions'', ''processes'']
        [''passive process detection is active; deeper NanoClaw session telemetry is not implemented in this build''],
      seed now ''mcp'' ''MCP'' ''protocol'' ''planned'' ''not_installed''
        [''tool_calls'', ''events'']
        [''MCP source is part of the core bundle but not implemented in this build'']]"

definition seedSources :: "World \<Rightarrow> World" where
  "seedSources w =
     (case timeNow w of
        (now, w) \<Rightarrow> fold (\<lambda>source w. snd (timed1 (\<lambda>n. UpsertSource n source) w)) (seeds now) w)"

section \<open>The server\<close>

record Server =
  handler :: Handler

text \<open>\<open>New\<close>: the store of the world is the one the server creates.\<close>

definition NewServer :: "World \<Rightarrow> Server \<times> World" where
  "NewServer w =
     (case NewHandler (seedSources (w\<lparr>store := New\<rparr>)) of (hr, w) \<Rightarrow> (\<lparr>handler = hr\<rparr>, w))"

definition SetServerShutdown :: "bool \<Rightarrow> Server \<Rightarrow> Server" where
  "SetServerShutdown isSet s = s\<lparr>handler := SetShutdown isSet (handler s)\<rparr>"

text \<open>
  What \<open>Accept\<close> returns: a connection, or an error, together with whether the context is
  cancelled by then and whether the error is \<open>net.ErrClosed\<close>. \<open>Serve\<close> yields the
  connections it started a goroutine for and, once it returns, its error or \<open>None\<close> for nil.
\<close>

datatype 'c accepted = Accept 'c | AcceptError bool bool string

fun Serve :: "'c accepted list \<Rightarrow> 'c list \<times> string option option" where
  "Serve [] = ([], None)"
| "Serve (Accept c # as) = (case Serve as of (cs, r) \<Rightarrow> (c # cs, r))"
| "Serve (AcceptError ctxDone isClosed err # as) =
     ([], Some (if ctxDone then None else if isClosed then None else Some err))"

section \<open>Requests keep the sources\<close>

lemma inferLoop_sources: "sources (store (snd (fold (inferStep h now) ps st))) = sources (store (snd st))"
proof (induction ps arbitrary: st)
  case (Cons p ps)
  have "sources (store (snd (inferStep h now p st))) = sources (store (snd st))"
    by (cases st) (simp add: inferStep_eq recordAgent_eq split: option.splits)
  with Cons show ?case by simp
qed simp

lemma linkLoop_sources: "sources (store (snd (fold (linkStep now pids) ps st))) = sources (store (snd st))"
proof (induction ps arbitrary: st)
  case (Cons p ps)
  have "sources (store (snd (linkStep now pids p st))) = sources (store (snd st))"
    by (cases st) (simp add: linkStep_eq Let_def api_simps store_frame linkChild_frame)
  with Cons show ?case by simp
qed simp

lemma reconcileWith_sources: "sources (store (reconcileWith h ps w)) = sources (store w)"
proof -
  have "sources (store (snd (linkPhase h ps w))) = sources (store w)"
    by (simp add: linkPhase_def inferPhase_def case_prod_beta linkLoop_sources inferLoop_sources api_simps)
  then show ?thesis
    by (simp add: reconcileWith_phases dropPhase_def ranged_def dropEdges_frame dropSessions_frame)
qed

lemma write_methods_sources:
  "sources (store (snd (sessionsList h f w))) = sources (store w)"
  "sources (store (snd (observeSession x w))) = sources (store w)"
  "sources (store (snd (observeRemoval p w))) = sources (store w)"
  "sources (store (snd (observeWorkspace y w))) = sources (store w)"
  "sources (store (snd (observeEdge z w))) = sources (store w)"
proof -
  show "sources (store (snd (sessionsList h f w))) = sources (store w)"
    by (cases "procs w (calls w)")
      (simp_all add: sessionsList_def reconcileProcessSessions_def listProcesses_def
        answers_store timed_store reconcileWith_sources)
qed (simp_all add: method_defs api_simps store_frame)

lemma withParams_sources:
  "(\<And>r. sources (store (snd (body r w))) = sources (store w)) \<Longrightarrow>
     sources (store (snd (withParams p body w))) = sources (store w)"
  by (cases p) (simp_all add: withParams_def)

lemma Handle_sources: "sources (store (snd (Handle h hr method params w))) = sources (store w)"
proof (cases "method \<in> set writing_methods")
  case True
  then show ?thesis
    by (cases rule: writing_methodE) (simp_all only: Handle_writing withParams_sources write_methods_sources)
qed (simp add: reads_store)

lemma ServeConn_sources: "sources (store (snd (snd (ServeConn h hr is w)))) = sources (store w)"
proof (induction "is" arbitrary: w)
  case (Cons x "is")
  obtain i wr where x: "x = (i, wr)" by (cases x)
  show ?case
  proof (cases "decodeRequest h i")
    case (Inr req)
    then show ?thesis
      using Cons.IH Handle_sources [of h hr "q_Method req" "q_Params req" w]
      by (simp add: x case_prod_beta)
  qed (simp add: x case_prod_beta)
qed simp

lemma served_sources: "served h hr w v \<Longrightarrow> sources (store v) = sources (store w)"
proof (induction rule: served.induct)
  case (subscribe w req)
  show ?case
    by (auto simp: openSubscription_def Subscribe_def Let_def split: sum.splits)
next
  case (forward ch w t s)
  have "sources (snd (recvEvent ch (store w))) = sources (store w)"
    by (cases rule: recvEvent_cases [of ch "store w"]) simp_all
  with forward show ?case
    by (auto simp: subscribeTurn_def split: prod.splits option.splits if_splits)
qed (simp_all add: ServeConn_sources store_frame)

section \<open>The sources of a running daemon\<close>

lemma seeded_sources:
  assumes "distinct (map o_ID xs)" and "\<forall>x \<in> set xs. o_ID x \<noteq> '''' \<and> o_ObservedAt x \<noteq> 0"
  shows "gm_get (sources (store (fold (\<lambda>x w. snd (timed1 (\<lambda>n. UpsertSource n x) w)) xs w))) =
    gm_get (sources (store w)) ++ map_of (map (\<lambda>x. (o_ID x, x)) xs)"
  using assms
proof (induction xs arbitrary: w)
  case (Cons x xs)
  have x: "gm_get (sources (store (snd (timed1 (\<lambda>n. UpsertSource n x) w)))) =
      (gm_get (sources (store w)))(o_ID x \<mapsto> x)"
    using Cons.prems(2) by (simp add: api_simps UpsertSource_def defaultSource_def gm_get_put Let_def)
  have "o_ID x \<notin> dom (map_of (map (\<lambda>x. (o_ID x, x)) xs))"
    using Cons.prems(1) by (auto simp: dom_map_of_conv_image_fst image_iff)
  then show ?case
    using Cons by (simp add: x map_add_upd_left) (simp add: fun_eq_iff map_add_def)
qed simp

lemma seeds_ids:
  "map o_ID (seeds now) = [''native'', ''process'', ''git-worktree'', ''tmux'', ''claude'', ''codex'',
     ''opencode'', ''hermes'', ''openclaw'', ''nanoclaw'', ''mcp'']"
  "x \<in> set (seeds now) \<Longrightarrow> o_ObservedAt x = now \<and> o_Enabled x"
  by (auto simp: seeds_def seed_def)

lemma NewServer_store:
  assumes "clock w (ticks w) \<noteq> 0"
  shows "GetSource k (store (snd (NewServer w))) =
      map_of (map (\<lambda>x. (o_ID x, x)) (seeds (clock w (ticks w)))) k"
    and "store_inv (store (snd (NewServer w)))"
proof -
  let ?xs = "seeds (clock w (ticks w))"
  have st: "store (snd (NewServer w)) = store (fold (\<lambda>x w. snd (timed1 (\<lambda>n. UpsertSource n x) w)) ?xs
      (snd (timeNow (w\<lparr>store := New\<rparr>))))"
    by (simp add: NewServer_def NewHandler_def seedSources_def timeNow_def)
  have "distinct (map o_ID ?xs)" "\<forall>x \<in> set ?xs. o_ID x \<noteq> ''''"
    by (simp add: seeds_ids) (simp add: seeds_def seed_def)
  then show "GetSource k (store (snd (NewServer w))) = map_of (map (\<lambda>x. (o_ID x, x)) ?xs) k"
    using seeded_sources [of ?xs] seeds_ids(2) [of _ "clock w (ticks w)"] assms
    by (simp add: st GetSource_def api_simps) (simp add: New_def map_add_def split: option.splits)
  have "store_inv (store v) \<Longrightarrow>
      store_inv (store (fold (\<lambda>x w. snd (timed1 (\<lambda>n. UpsertSource n x) w)) xs v))" for xs v
    by (induction xs arbitrary: v) (simp_all add: api_simps store_inv_UpsertSource)
  then show "store_inv (store (snd (NewServer w)))"
    unfolding st by (simp add: api_simps store_inv_New)
qed

text \<open>
  C30. A running daemon knows every agent it can detect: from the moment the server is created and after
  any sequence of served requests, the store satisfies its invariant and every source the process
  inference can name is registered, enabled and declares the process capability, so
  \<open>sources/doctor\<close> never answers 404 for the source of an inferred session.
\<close>

theorem daemon_knows_agents:
  assumes "NewServer w = (srv, w')" and "clock w (ticks w) \<noteq> 0"
    and "(served h (handler srv))\<^sup>*\<^sup>* w' v" and "inferAgentSource h' p = Some source"
  shows "store_inv (store v) \<and> (\<exists>x. GetSource source (store v) = Some x \<and> o_ID x = source \<and>
    o_Enabled x \<and> ''processes'' \<in> set (o_Capabilities x))"
proof -
  have w': "w' = snd (NewServer w)"
    using assms(1) by simp
  have "store_inv (store v)"
    using served_system.inv_steps [OF assms(3)] NewServer_store(2) [OF assms(2)] w' by simp
  moreover have "sources (store v) = sources (store w')"
    using assms(3) by (induction rule: rtranclp_induct) (auto dest: served_sources)
  then have "GetSource source (store v) = map_of (map (\<lambda>x. (o_ID x, x)) (seeds (clock w (ticks w)))) source"
    using NewServer_store(1) [OF assms(2)] w' by (simp add: GetSource_def)
  then have "\<exists>x. GetSource source (store v) = Some x \<and> o_ID x = source \<and> o_Enabled x \<and>
      ''processes'' \<in> set (o_Capabilities x)"
    using inferAgentSource_known [OF assms(4)] by (auto simp: seeds_def seed_def)
  ultimately show ?thesis by blast
qed

theorem daemon_knows_agents_witness:
  "\<exists>x. GetSource ''codex'' (store (snd (NewServer (exampleWorld [] New)))) = Some x \<and> o_Enabled x"
proof -
  let ?w = "exampleWorld [] New"
  have "NewServer ?w = (fst (NewServer ?w), snd (NewServer ?w))" by simp
  from daemon_knows_agents [OF this _ rtranclp.rtrancl_refl example_source(2)]
  show ?thesis by auto
qed

end
