(* ===== verification/Ipc.thy ===== *)
theory Ipc
  imports Go_Strings
begin

text \<open>
  Where the daemon listens, \<open>internal/ipc\<close>, with the lexical part of \<open>path/filepath\<close>
  it uses. \<open>sys\<close> is what a command of the program asks of its process environment and file
  system. The sockets and pipes themselves are not modelled; \<open>listen\<close> is the list of its calls.
\<close>

record sys =
  sys_host :: host
  env :: "string \<Rightarrow> string"              \<comment> \<open>\<open>os.Getenv\<close>\<close>
  temp_dir :: string                    \<comment> \<open>\<open>os.TempDir\<close>\<close>
  uid :: int                            \<comment> \<open>\<open>os.Getuid\<close>\<close>
  win_join :: "string \<Rightarrow> string \<Rightarrow> string" \<comment> \<open>\<open>filepath.Join\<close> on Windows\<close>

abbreviation goos_of :: "sys \<Rightarrow> goos" where
  "goos_of y \<equiv> runtime_GOOS (sys_host y)"

section \<open>Lexical paths\<close>

text \<open>\<open>filepath.Clean\<close> on Unix: elements are pushed on a stack, a parent reference pops.\<close>

definition clean_push :: "bool \<Rightarrow> string \<Rightarrow> string list \<Rightarrow> string list" where
  "clean_push rooted e st =
     (if e = '''' \<or> e = ''.'' then st
      else if e = ''..''
      then (case st of
              [] \<Rightarrow> if rooted then [] else [''..'']
            | t # ts \<Rightarrow> if t = ''..'' then ''..'' # st else ts)
      else e # st)"

definition clean_body :: "bool \<Rightarrow> string \<Rightarrow> string" where
  "clean_body rooted path = Join (rev (fold (clean_push rooted) (Split (CHR ''/'') path) [])) ''/''"

definition Clean :: "string \<Rightarrow> string" where
  "Clean path =
     (let rooted = HasPrefix path ''/'';
          body = clean_body rooted path
      in if rooted then ''/'' @ body else if body = '''' then ''.'' else body)"

definition JoinPath :: "string list \<Rightarrow> string" where
  "JoinPath es = (case dropWhile (\<lambda>e. e = '''') es of [] \<Rightarrow> '''' | es' \<Rightarrow> Clean (Join es' ''/''))"

definition Ext :: "host \<Rightarrow> string \<Rightarrow> string" where
  "Ext h path =
     (if CHR ''.'' \<in> set (takeWhile (\<lambda>c. \<not> IsPathSeparator h c) (rev path))
      then CHR ''.'' # rev (takeWhile (\<lambda>c. c \<noteq> CHR ''.'') (rev path))
      else '''')"

text \<open>\<open>filepath.Dir\<close> on Unix: everything up to the last slash, cleaned.\<close>

definition Dir :: "string \<Rightarrow> string" where
  "Dir path = Clean (rev (dropWhile (\<lambda>c. c \<noteq> CHR ''/'') (rev path)))"

section \<open>The address\<close>

definition EnvSocket :: string where
  "EnvSocket = ''SCORE_SOCKET''"

definition userID_unix :: "sys \<Rightarrow> string" where
  "userID_unix y = Itoa (uid y)"

definition userID_windows :: "sys \<Rightarrow> string" where
  "userID_windows y = (if env y ''USERNAME'' \<noteq> '''' then env y ''USERNAME'' else ''user'')"

definition userID :: "sys \<Rightarrow> string" where
  "userID y = (if goos_of y = Windows then userID_windows y else userID_unix y)"

definition DefaultAddress :: "sys \<Rightarrow> string" where
  "DefaultAddress y =
     (if env y EnvSocket \<noteq> '''' then env y EnvSocket
      else if goos_of y = Windows
      then [CHR 0x5C, CHR 0x5C, CHR ''.'', CHR 0x5C] @ ''pipe'' @ [CHR 0x5C] @ ''score-daemon''
      else if env y ''XDG_RUNTIME_DIR'' \<noteq> '''' then JoinPath [env y ''XDG_RUNTIME_DIR'', ''score.sock'']
      else JoinPath [temp_dir y, ''score-'' @ userID y @ ''.sock''])"

text \<open>
  \<open>listen\<close> on Unix: a file in the way is removed, the socket is bound, its mode restricted.
  \<open>bind\<close> is the error of \<open>net.Listen\<close>, if any.
\<close>

datatype socket_call = SRemove string | SListen string | SChmod string nat

definition listen_unix :: "(string \<Rightarrow> string option) \<Rightarrow> string \<Rightarrow> socket_call list \<times> (string + string)" where
  "listen_unix bind address =
     (case bind address of
        Some err \<Rightarrow> ([SRemove address, SListen address], Inl err)
      | None \<Rightarrow> ([SRemove address, SListen address, SChmod address 384], Inr address))"

text \<open>On Windows a named pipe is opened; \<open>bind\<close> is then the error of \<open>winio.ListenPipe\<close>.\<close>

definition listen_windows :: "(string \<Rightarrow> string option) \<Rightarrow> string \<Rightarrow> socket_call list \<times> (string + string)" where
  "listen_windows bind address =
     ([SListen address], case bind address of Some err \<Rightarrow> Inl err | None \<Rightarrow> Inr address)"

definition ListenDefault ::
  "(string \<Rightarrow> string option) \<Rightarrow> sys \<Rightarrow> socket_call list \<times> (string + string) \<times> string" where
  "ListenDefault bind y =
     (let address = DefaultAddress y
      in case (if goos_of y = Windows then listen_windows bind address else listen_unix bind address) of
           (calls, r) \<Rightarrow> (calls, r, address))"

text \<open>Dialling; \<open>dial\<close> stands for \<open>net.Dial\<close> or \<open>winio.DialPipe\<close>.\<close>

definition DialDefault :: "(string \<Rightarrow> string + 'c) \<Rightarrow> sys \<Rightarrow> (string + 'c) \<times> string" where
  "DialDefault dial y = (let address = DefaultAddress y in (dial address, address))"

definition DialDefaultTimeout ::
  "(string \<Rightarrow> time \<Rightarrow> string + 'c) \<Rightarrow> sys \<Rightarrow> time \<Rightarrow> (string + 'c) \<times> string" where
  "DialDefaultTimeout dial y timeout = (let address = DefaultAddress y in (dial address timeout, address))"

section \<open>Extensions\<close>

lemma Ext_suffix: "\<exists>base. path = base @ Ext h path"
proof (cases "CHR ''.'' \<in> set (takeWhile (\<lambda>c. \<not> IsPathSeparator h c) (rev path))")
  case True
  then have "CHR ''.'' \<in> set (rev path)"
    by (meson set_takeWhileD)
  then obtain a b where ab: "rev path = a @ CHR ''.'' # b" "CHR ''.'' \<notin> set a"
    by (metis split_list_first)
  have "takeWhile (\<lambda>c. c \<noteq> CHR ''.'') (rev path) = a"
    unfolding ab(1) using ab(2) by (induction a) auto
  moreover have "path = rev b @ CHR ''.'' # rev a"
    using arg_cong [OF ab(1), of rev] by simp
  ultimately show ?thesis
    using True by (auto simp: Ext_def)
qed (simp add: Ext_def)

lemma Ext_append:
  assumes "CHR ''.'' \<notin> set e" and "\<forall>c \<in> set e. \<not> IsPathSeparator h c"
  shows "Ext h (p @ CHR ''.'' # e) = CHR ''.'' # e"
proof -
  have "takeWhile (\<lambda>c. \<not> IsPathSeparator h c) (rev e @ CHR ''.'' # rev p) =
      rev e @ CHR ''.'' # takeWhile (\<lambda>c. \<not> IsPathSeparator h c) (rev p)"
    using assms(2) by (simp add: takeWhile_append IsPathSeparator_def)
  moreover have "takeWhile (\<lambda>c. c \<noteq> CHR ''.'') (rev e @ CHR ''.'' # rev p) = rev e"
    using assms(1) by (subst takeWhile_append) auto
  ultimately show ?thesis
    by (simp add: Ext_def)
qed

section \<open>The default socket is a .sock file\<close>

lemma Split_last:
  "sep \<notin> set e \<Longrightarrow> Split sep (s @ sep # e) = Split sep s @ [e]"
  by (induction s) (auto simp: Split_clean split: list.splits)

lemma Join_snoc: "xs \<noteq> [] \<Longrightarrow> Join (xs @ [e]) sep = Join xs sep @ sep @ e"
  by (induction xs sep rule: Join.induct) auto

lemma clean_body_last:
  assumes "Split (CHR ''/'') path = xs @ [e]" and "e \<noteq> ''''" and "e \<noteq> ''.''" and "e \<noteq> ''..''"
  shows "\<exists>p. clean_body rooted path = p @ e"
proof -
  define st where "st = fold (clean_push rooted) xs []"
  have "clean_body rooted path = Join (rev st @ [e]) ''/''"
    using assms by (simp add: clean_body_def st_def clean_push_def)
  then show ?thesis
    using Join_snoc [of "rev st" e "''/''"] by (cases "rev st = []") auto
qed

lemma Clean_last:
  assumes "Split (CHR ''/'') path = xs @ [e]" and "e \<noteq> ''''" and "e \<noteq> ''.''" and "e \<noteq> ''..''"
  shows "\<exists>p. Clean path = p @ e"
proof -
  obtain p where p: "clean_body (HasPrefix path ''/'') path = p @ e"
    using clean_body_last [OF assms] by blast
  have "Clean path = (''/'' @ p) @ e \<or> Clean path = p @ e"
    using p assms(2) by (auto simp: Clean_def Let_def split: if_splits)
  then show ?thesis by blast
qed

lemma JoinPath_last:
  assumes "CHR ''/'' \<notin> set e" and "e \<noteq> ''''" and "e \<noteq> ''.''" and "e \<noteq> ''..''"
  shows "\<exists>p. JoinPath [d, e] = p @ e"
proof (cases "d = ''''")
  case True
  then show ?thesis
    using Clean_last [of e "[]" e] assms by (simp add: JoinPath_def Split_clean)
next
  case False
  have "Split (CHR ''/'') (d @ ''/'' @ e) = Split (CHR ''/'') d @ [e]"
    using assms(1) by (simp add: Split_last)
  then show ?thesis
    using Clean_last [OF _ assms(2-4)] False by (simp add: JoinPath_def)
qed

lemma Itoa_no_slash: "CHR ''/'' \<notin> set (Itoa n)"
  using Itoa_chars [of "CHR ''/''" n] by (auto simp: char_digit_def)

lemma Ext_DefaultAddress:
  assumes "goos_of y \<noteq> Windows" and "env y EnvSocket = ''''"
  shows "Ext (sys_host y) (DefaultAddress y) = ''.sock''"
proof -
  have sock: "Ext (sys_host y) (p @ ''.sock'') = ''.sock''" for p
    using Ext_append [of "''sock''" "sys_host y" p] assms(1) by (simp add: IsPathSeparator_def)
  have "\<exists>p. DefaultAddress y = p @ ''.sock''"
  proof (cases "env y ''XDG_RUNTIME_DIR'' = ''''")
    case True
    then obtain p where "DefaultAddress y = p @ (''score-'' @ Itoa (uid y) @ ''.sock'')"
      using assms JoinPath_last [of "''score-'' @ Itoa (uid y) @ ''.sock''" "temp_dir y"]
      by (auto simp: DefaultAddress_def userID_def userID_unix_def Itoa_no_slash)
    then show ?thesis by (intro exI [of _ "p @ ''score-'' @ Itoa (uid y)"]) simp
  next
    case False
    then obtain p where "DefaultAddress y = p @ ''score.sock''"
      using assms JoinPath_last [of "''score.sock''" "env y ''XDG_RUNTIME_DIR''"]
      by (auto simp: DefaultAddress_def)
    then show ?thesis by (intro exI [of _ "p @ ''score''"]) simp
  qed
  then show ?thesis
    using sock by auto
qed

end
