(* ===== verification/Flags.thy ===== *)
theory Flags
  imports Go_Strings
begin

text \<open>
  Go's \<open>flag\<close> package as the commands of \<open>cmd/score\<close> use it: a flag set with
  \<open>ExitOnError\<close>, boolean, string and \<open>int64\<close> flags. Parsing goes over the arguments from
  the left and stops at the first one that is no flag, at a single dash and after a double dash; the
  rest are the positional arguments.
\<close>

datatype fkind = FBool | FString | FInt64

datatype fval = VBool bool | VString string | VInt int

text \<open>An error is printed with the defaults and exits with 2; \<open>-h\<close> and \<open>-help\<close> exit with 0.\<close>

datatype flag_error = ErrHelp | BadSyntax string | Undefined string | NeedsArgument string | Invalid string

fun flag_exit :: "flag_error \<Rightarrow> int" where
  "flag_exit ErrHelp = 0"
| "flag_exit _ = 2"

type_synonym flagset = "(string \<times> fkind) list"

definition ParseBool :: "string \<Rightarrow> bool option" where
  "ParseBool s =
     (if s \<in> set [''1'', ''t'', ''T'', ''TRUE'', ''true'', ''True''] then Some True
      else if s \<in> set [''0'', ''f'', ''F'', ''FALSE'', ''false'', ''False''] then Some False
      else None)"

text \<open>\<open>strconv.ParseInt(s, 0, 64)\<close>, which also reads other bases, is an argument.\<close>

definition set_flag :: "(string \<Rightarrow> int option) \<Rightarrow> fkind \<Rightarrow> string \<Rightarrow> fval option" where
  "set_flag parseInt kind value =
     (case kind of
        FBool \<Rightarrow> map_option VBool (ParseBool value)
      | FString \<Rightarrow> Some (VString value)
      | FInt64 \<Rightarrow> map_option VInt (parseInt value))"

text \<open>\<open>-name\<close> or \<open>-name=value\<close>, split after the first character of the name.\<close>

definition split_flag :: "string \<Rightarrow> string \<times> string option" where
  "split_flag name =
     (case name of
        [] \<Rightarrow> ([], None)
      | c # cs \<Rightarrow>
          if CHR ''='' \<in> set cs
          then (c # takeWhile (\<lambda>d. d \<noteq> CHR ''='') cs, Some (tl (dropWhile (\<lambda>d. d \<noteq> CHR ''='') cs)))
          else (c # cs, None))"

definition is_flag :: "string \<Rightarrow> bool" where
  "is_flag s \<longleftrightarrow> 2 \<le> length s \<and> hd s = CHR ''-''"

definition flag_name :: "string \<Rightarrow> string" where
  "flag_name s = (if s ! 1 = CHR ''-'' then drop 2 s else drop 1 s)"

fun parseFlags ::
  "flagset \<Rightarrow> (string \<Rightarrow> int option) \<Rightarrow> (string \<times> fval) list \<Rightarrow> string list \<Rightarrow>
     flag_error + (string \<times> fval) list \<times> string list" where
  "parseFlags fs pi vs [] = Inr (vs, [])"
| "parseFlags fs pi vs (s # args) =
     (if \<not> is_flag s then Inr (vs, s # args)
      else if s = ''--'' then Inr (vs, args)
      else let n = flag_name s
           in if n = '''' \<or> hd n = CHR ''-'' \<or> hd n = CHR ''='' then Inl (BadSyntax s)
              else case split_flag n of
                (name, value) \<Rightarrow>
                  (case map_of fs name of
                     None \<Rightarrow> Inl (if name = ''help'' \<or> name = ''h'' then ErrHelp else Undefined name)
                   | Some FBool \<Rightarrow>
                       (case value of
                          None \<Rightarrow> parseFlags fs pi ((name, VBool True) # vs) args
                        | Some v \<Rightarrow>
                            (case set_flag pi FBool v of
                               None \<Rightarrow> Inl (Invalid name)
                             | Some x \<Rightarrow> parseFlags fs pi ((name, x) # vs) args))
                   | Some kind \<Rightarrow>
                       (case value of
                          Some v \<Rightarrow>
                            (case set_flag pi kind v of
                               None \<Rightarrow> Inl (Invalid name)
                             | Some x \<Rightarrow> parseFlags fs pi ((name, x) # vs) args)
                        | None \<Rightarrow>
                            (case args of
                               [] \<Rightarrow> Inl (NeedsArgument name)
                             | v # rest \<Rightarrow>
                                 (case set_flag pi kind v of
                                    None \<Rightarrow> Inl (Invalid name)
                                  | Some x \<Rightarrow> parseFlags fs pi ((name, x) # vs) rest)))))"

text \<open>Reading a flag: the last setting, or its default.\<close>

definition flag_bool :: "(string \<times> fval) list \<Rightarrow> string \<Rightarrow> bool" where
  "flag_bool vs name = (case map_of vs name of Some (VBool b) \<Rightarrow> b | _ \<Rightarrow> False)"

definition flag_string :: "string \<Rightarrow> (string \<times> fval) list \<Rightarrow> string \<Rightarrow> string" where
  "flag_string d vs name = (case map_of vs name of Some (VString s) \<Rightarrow> s | _ \<Rightarrow> d)"

definition flag_int :: "(string \<times> fval) list \<Rightarrow> string \<Rightarrow> int" where
  "flag_int vs name = (case map_of vs name of Some (VInt n) \<Rightarrow> n | _ \<Rightarrow> 0)"

lemma parseFlags_positional: "\<not> is_flag s \<Longrightarrow> parseFlags fs pi vs (s # args) = Inr (vs, s # args)"
  by simp

end
