(* ===== verification/Scored.thy ===== *)
theory Scored
  imports Daemon Ipc Flags
begin

text \<open>
  The daemon's program, \<open>cmd/scored/main.go\<close>: listen, create the server, give it a shutdown
  function, serve until the listener closes. A run is what the operating system answers to the bind and
  to each \<open>Accept\<close>; a signal or a \<open>daemon/shutdown\<close> request shows as a cancelled context or
  a closed listener there.
\<close>

record 'c Run =
  run_exit :: "(int \<times> string) option"     \<comment> \<open>exit code and standard error, once the program ends\<close>
  run_calls :: "socket_call list"
  run_conns :: "'c list"                   \<comment> \<open>connections a goroutine was started for\<close>
  run_server :: "(Server \<times> World) option"

text \<open>\<open>isCanceled\<close> is \<open>errors.Is(err, context.Canceled)\<close>.\<close>

definition scoredMain ::
  "(string \<Rightarrow> string option) \<Rightarrow> sys \<Rightarrow> (string \<Rightarrow> bool) \<Rightarrow> string list \<Rightarrow> 'c accepted list \<Rightarrow> World \<Rightarrow> 'c Run" where
  "scoredMain bind y isCanceled args as w =
     (case parseFlags [] (\<lambda>_. None) [] args of
        Inl err \<Rightarrow> \<lparr>run_exit = Some (flag_exit err, ''''), run_calls = [], run_conns = [], run_server = None\<rparr>
      | Inr _ \<Rightarrow>
          (case ListenDefault bind y of
             (scs, Inl err, _) \<Rightarrow>
               \<lparr>run_exit = Some (1, ''scored: listen failed: '' @ err @ [CHR 0x0A]), run_calls = scs,
                run_conns = [], run_server = None\<rparr>
           | (scs, Inr _, _) \<Rightarrow>
               (case NewServer w of
                  (server, w) \<Rightarrow>
                    (case Serve as of
                       (conns, r) \<Rightarrow>
                         \<lparr>run_exit = map_option (\<lambda>err. case err of
                              None \<Rightarrow> (0, '''')
                            | Some e \<Rightarrow> if isCanceled e then (0, '''')
                                else (1, ''scored: '' @ e @ [CHR 0x0A])) r,
                          run_calls = scs, run_conns = conns,
                          run_server = Some (SetServerShutdown True server, w)\<rparr>))))"

lemma Serve_prefix:
  "Serve (map Accept cs @ AcceptError ctxDone isClosed err # as) =
     (cs, Some (if ctxDone \<or> isClosed then None else Some err))"
  by (induction cs) simp_all

lemma Serve_running: "Serve (map Accept cs) = (cs, None)"
  by (induction cs) simp_all

text \<open>
  C33. The daemon's life. On Unix it removes a file in its way, binds and restricts the socket to its
  owner before it serves; it starts a handler for every connection it accepts and keeps serving until
  \<open>Accept\<close> fails; it then exits with 0 if it was told to stop (a cancelled context or a closed
  listener) and with 1 and a message otherwise. While it serves, \<open>daemon/shutdown\<close> is always
  configured and its answer schedules exactly one shutdown. If it cannot listen it exits with 1 and
  serves nobody.\<close>

theorem scored_life:
  assumes "goos_of y \<noteq> Windows"
  shows "(\<forall>err. bind (DefaultAddress y) = Some err \<longrightarrow>
      run_exit (scoredMain bind y isCanceled [] as w) = Some (1, ''scored: listen failed: '' @ err @ [CHR 0x0A]) \<and>
      run_conns (scoredMain bind y isCanceled [] as w) = []) \<and>
    (bind (DefaultAddress y) = None \<longrightarrow>
      run_calls (scoredMain bind y isCanceled [] as w) =
        [SRemove (DefaultAddress y), SListen (DefaultAddress y), SChmod (DefaultAddress y) 384] \<and>
      run_conns (scoredMain bind y isCanceled [] (map Accept cs) w) = cs \<and>
      run_exit (scoredMain bind y isCanceled [] (map Accept cs) w) = None \<and>
      run_conns (scoredMain bind y isCanceled [] (map Accept cs @ AcceptError ctxDone isClosed e # as) w) = cs \<and>
      run_exit (scoredMain bind y isCanceled [] (map Accept cs @ AcceptError ctxDone isClosed e # as) w) =
        Some (if ctxDone \<or> isClosed \<or> isCanceled e then (0, '''') else (1, ''scored: '' @ e @ [CHR 0x0A])) \<and>
      (\<exists>srv w'. run_server (scoredMain bind y isCanceled [] as w) = Some (srv, w') \<and>
        (\<forall>h params v. Handle h (handler srv) ''daemon/shutdown'' params v =
           (Inr (RFlag ''shutdown'' True), v\<lparr>shutdowns := Suc (shutdowns v)\<rparr>))))"
proof (intro conjI allI impI)
  have listen: "ListenDefault bind y = (case bind (DefaultAddress y) of
      Some err \<Rightarrow> ([SRemove (DefaultAddress y), SListen (DefaultAddress y)], Inl err, DefaultAddress y)
    | None \<Rightarrow> ([SRemove (DefaultAddress y), SListen (DefaultAddress y), SChmod (DefaultAddress y) 384],
        Inr (DefaultAddress y), DefaultAddress y))"
    using assms by (simp add: ListenDefault_def listen_unix_def Let_def split: option.splits)
  note main = scoredMain_def listen Serve_prefix Serve_running case_prod_beta
  show "run_exit (scoredMain bind y isCanceled [] as w) = Some (1, ''scored: listen failed: '' @ err @ [CHR 0x0A])"
    "run_conns (scoredMain bind y isCanceled [] as w) = []" if "bind (DefaultAddress y) = Some err" for err
    using that by (simp_all add: main)
  assume ok: "bind (DefaultAddress y) = None"
  show "run_calls (scoredMain bind y isCanceled [] as w) =
      [SRemove (DefaultAddress y), SListen (DefaultAddress y), SChmod (DefaultAddress y) 384]"
    "run_conns (scoredMain bind y isCanceled [] (map Accept cs) w) = cs"
    "run_exit (scoredMain bind y isCanceled [] (map Accept cs) w) = None"
    "run_conns (scoredMain bind y isCanceled [] (map Accept cs @ AcceptError ctxDone isClosed e # as) w) = cs"
    "run_exit (scoredMain bind y isCanceled [] (map Accept cs @ AcceptError ctxDone isClosed e # as) w) =
      Some (if ctxDone \<or> isClosed \<or> isCanceled e then (0, '''') else (1, ''scored: '' @ e @ [CHR 0x0A]))"
    using ok by (simp_all add: main)
  have "Handle h (SetShutdown True hr) ''daemon/shutdown'' params v =
      (Inr (RFlag ''shutdown'' True), v\<lparr>shutdowns := Suc (shutdowns v)\<rparr>)" for h hr params v
    by (simp add: Handle_def methods_def daemonShutdown_def SetShutdown_def)
  then show "\<exists>srv w'. run_server (scoredMain bind y isCanceled [] as w) = Some (srv, w') \<and>
      (\<forall>h params v. Handle h (handler srv) ''daemon/shutdown'' params v =
         (Inr (RFlag ''shutdown'' True), v\<lparr>shutdowns := Suc (shutdowns v)\<rparr>))"
    using ok by (simp add: main SetServerShutdown_def)
qed

definition exampleSys :: sys where
  "exampleSys = \<lparr>sys_host = bareHost, env = (\<lambda>_. ''''), temp_dir = ''/tmp'', uid = 1000, win_join = (\<lambda>a b. a @ b)\<rparr>"

theorem scored_life_witness:
  "run_exit (scoredMain (\<lambda>_. None) exampleSys (\<lambda>_. False) []
     [Accept (0::nat), AcceptError True True ''closed''] (exampleWorld [] New)) = Some (0, '''')"
proof -
  have "goos_of exampleSys \<noteq> Windows"
    by (simp add: exampleSys_def bareHost_def)
  from scored_life [OF this, where bind = "\<lambda>_. None" and cs = "[0::nat]" and ctxDone = True and isClosed = True
      and e = "''closed''" and as = "[]" and isCanceled = "\<lambda>_. False" and w = "exampleWorld [] New"]
  show ?thesis by simp
qed

end
