(* ===== verification/Encode.thy ===== *)
theory Encode
  imports Api
begin

text \<open>
  \<open>json.Marshal\<close> of what the daemon and its clients send, as \<open>encoding/json\<close> documents
  it: the fields of a struct in order under their tags, those tagged \<open>omitempty\<close> left out when
  empty (a struct and a \<open>time.Time\<close> are never empty), the keys of a map sorted. Also the
  decoders the client needs beyond those of the API. A document is a \<open>json\<close> value; its text is
  not modelled. Replacing invalid UTF-8, printing a \<open>float64\<close> and formatting a time belong to
  the host. A nil and an empty slice are not told apart, so one without \<open>omitempty\<close> is written
  as \<open>[]\<close>.
\<close>

section \<open>Values\<close>

definition enc_string :: "host \<Rightarrow> string \<Rightarrow> json" where
  "enc_string h s = JStr (coerce_text h s)"

definition enc_strings :: "host \<Rightarrow> string list \<Rightarrow> json" where
  "enc_strings h xs = JArr (map (enc_string h) xs)"

definition enc_int :: "int \<Rightarrow> json" where
  "enc_int n = JNum (Itoa n)"

definition enc_time :: "host \<Rightarrow> time \<Rightarrow> json" where
  "enc_time h t = JStr (format_time h t)"

definition keyLess :: "string \<times> 'a \<Rightarrow> string \<times> 'a \<Rightarrow> bool" where
  "keyLess x y \<longleftrightarrow> fst x < fst y"

primrec json_of :: "host \<Rightarrow> goval \<Rightarrow> json" where
  "json_of h GNil = JNull"
| "json_of h (GBool b) = JBool b"
| "json_of h (GNumber lit) = JNum (float_text h lit)"
| "json_of h (GInt n) = JNum (Itoa n)"
| "json_of h (GString s) = enc_string h s"
| "json_of h (GSlice xs) = JArr (map (json_of h) xs)"
| "json_of h (GMap m) =
     JObj (map (map_prod (coerce_text h) id) (sort_slice keyLess (map (map_prod id (json_of h)) m)))"

definition enc_meta :: "host \<Rightarrow> gometa \<Rightarrow> json" where
  "enc_meta h m = json_of h (GMap m)"

section \<open>Structs\<close>

text \<open>The entries of a struct; an omitted one has no value.\<close>

definition present :: "(string \<times> json option) list \<Rightarrow> (string \<times> json) list" where
  "present es = List.map_filter (\<lambda>(k, v). map_option (Pair k) v) es"

definition omitempty :: "bool \<Rightarrow> json \<Rightarrow> json option" where
  "omitempty isEmpty v = (if isEmpty then None else Some v)"

abbreviation opt_string :: "host \<Rightarrow> string \<Rightarrow> json option" where
  "opt_string h s \<equiv> omitempty (s = '''') (enc_string h s)"

abbreviation opt_strings :: "host \<Rightarrow> string list \<Rightarrow> json option" where
  "opt_strings h xs \<equiv> omitempty (xs = []) (enc_strings h xs)"

abbreviation opt_meta :: "host \<Rightarrow> gometa \<Rightarrow> json option" where
  "opt_meta h m \<equiv> omitempty (m = []) (enc_meta h m)"

abbreviation opt_int :: "int \<Rightarrow> json option" where
  "opt_int n \<equiv> omitempty (n = 0) (enc_int n)"

definition agentEntries :: "host \<Rightarrow> Agent \<Rightarrow> (string \<times> json option) list" where
  "agentEntries h a =
     [(''name'', opt_string h (a_Name a)),
      (''vendor'', opt_string h (a_Vendor a)),
      (''adapter'', opt_string h (a_Adapter a))]"

definition enc_agent :: "host \<Rightarrow> Agent \<Rightarrow> json" where
  "enc_agent h a = JObj (present (agentEntries h a))"

definition capabilitiesEntries :: "Capabilities \<Rightarrow> (string \<times> json option) list" where
  "capabilitiesEntries c =
     [(''logs'', Some (JBool (c_Logs c))),
      (''children'', Some (JBool (c_Children c))),
      (''attach'', Some (JBool (c_Attach c))),
      (''stop'', Some (JBool (c_Stop c))),
      (''sendPrompt'', Some (JBool (c_SendPrompt c))),
      (''approvals'', Some (JBool (c_Approvals c)))]"

definition enc_capabilities :: "Capabilities \<Rightarrow> json" where
  "enc_capabilities c = JObj (present (capabilitiesEntries c))"

definition sessionEntries :: "host \<Rightarrow> Session \<Rightarrow> (string \<times> json option) list" where
  "sessionEntries h s =
     [(''id'', Some (enc_string h (s_ID s))),
      (''kind'', Some (enc_string h (s_Kind s))),
      (''agent'', Some (enc_agent h (s_Agent s))),
      (''title'', opt_string h (s_Title s)),
      (''summary'', opt_string h (s_Summary s)),
      (''status'', Some (enc_string h (s_Status s))),
      (''attention'', Some (enc_string h (s_Attention s))),
      (''statusDetail'', opt_string h (s_StatusDetail s)),
      (''confidence'', Some (enc_string h (s_Confidence s))),
      (''source'', Some (enc_string h (s_Source s))),
      (''cwd'', opt_string h (s_CWD s)),
      (''workspaceRoots'', opt_strings h (s_WorkspaceRoots s)),
      (''startedAt'', Some (enc_time h (s_StartedAt s))),
      (''lastActivityAt'', Some (enc_time h (s_LastActivityAt s))),
      (''endedAt'', map_option (enc_time h) (s_EndedAt s)),
      (''parentSessionId'', opt_string h (s_ParentSessionID s)),
      (''rootSessionId'', opt_string h (s_RootSessionID s)),
      (''runtimeIds'', opt_strings h (s_RuntimeIDs s)),
      (''workspaceIds'', opt_strings h (s_WorkspaceIDs s)),
      (''artifactIds'', opt_strings h (s_ArtifactIDs s)),
      (''capabilities'', Some (enc_capabilities (s_Capabilities s))),
      (''meta'', opt_meta h (s_Meta s))]"

definition enc_session :: "host \<Rightarrow> Session \<Rightarrow> json" where
  "enc_session h s = JObj (present (sessionEntries h s))"

definition enc_process :: "host \<Rightarrow> Process \<Rightarrow> json" where
  "enc_process h p = JObj (present
     [(''id'', Some (enc_string h (p_ID p))),
      (''kind'', Some (enc_string h (p_Kind p))),
      (''pid'', opt_int (p_PID p)),
      (''ppid'', opt_int (p_PPID p)),
      (''command'', opt_string h (p_Command p)),
      (''args'', opt_string h (p_Args p)),
      (''cwd'', opt_string h (p_CWD p)),
      (''sessionIds'', opt_strings h (p_SessionIDs p)),
      (''liveness'', Some (enc_string h (p_Liveness p))),
      (''source'', Some (enc_string h (p_Source p))),
      (''confidence'', Some (enc_string h (p_Confidence p))),
      (''observedAt'', Some (enc_time h (p_ObservedAt p))),
      (''meta'', opt_meta h (p_Meta p))])"

definition workspaceEntries :: "host \<Rightarrow> Workspace \<Rightarrow> (string \<times> json option) list" where
  "workspaceEntries h w =
     [(''id'', Some (enc_string h (w_ID w))),
      (''kind'', Some (enc_string h (w_Kind w))),
      (''path'', Some (enc_string h (w_Path w))),
      (''repoRoot'', opt_string h (w_RepoRoot w)),
      (''branch'', opt_string h (w_Branch w)),
      (''sessionIds'', opt_strings h (w_SessionIDs w)),
      (''source'', Some (enc_string h (w_Source w))),
      (''confidence'', Some (enc_string h (w_Confidence w))),
      (''observedAt'', Some (enc_time h (w_ObservedAt w))),
      (''meta'', opt_meta h (w_Meta w))]"

definition enc_workspace :: "host \<Rightarrow> Workspace \<Rightarrow> json" where
  "enc_workspace h w = JObj (present (workspaceEntries h w))"

definition edgeEntries :: "host \<Rightarrow> Edge \<Rightarrow> (string \<times> json option) list" where
  "edgeEntries h e =
     [(''id'', Some (enc_string h (e_ID e))),
      (''from'', Some (enc_string h (e_From e))),
      (''to'', Some (enc_string h (e_To e))),
      (''type'', Some (enc_string h (e_Type e))),
      (''source'', Some (enc_string h (e_Source e))),
      (''confidence'', Some (enc_string h (e_Confidence e))),
      (''observedAt'', Some (enc_time h (e_ObservedAt e)))]"

definition enc_edge :: "host \<Rightarrow> Edge \<Rightarrow> json" where
  "enc_edge h e = JObj (present (edgeEntries h e))"

definition eventEntries :: "host \<Rightarrow> Event \<Rightarrow> (string \<times> json option) list" where
  "eventEntries h v =
     [(''seq'', Some (enc_int (v_Seq v))),
      (''type'', Some (enc_string h (v_Type v))),
      (''sessionId'', opt_string h (v_SessionID v)),
      (''processId'', opt_string h (v_ProcessID v)),
      (''workspaceId'', opt_string h (v_WorkspaceID v)),
      (''edgeId'', opt_string h (v_EdgeID v)),
      (''summary'', opt_string h (v_Summary v)),
      (''source'', opt_string h (v_Source v)),
      (''observedAt'', Some (enc_time h (v_ObservedAt v))),
      (''data'', opt_meta h (v_Data v))]"

definition enc_event :: "host \<Rightarrow> Event \<Rightarrow> json" where
  "enc_event h v = JObj (present (eventEntries h v))"

definition enc_source :: "host \<Rightarrow> Source \<Rightarrow> json" where
  "enc_source h x = JObj (present
     [(''id'', Some (enc_string h (o_ID x))),
      (''name'', Some (enc_string h (o_Name x))),
      (''kind'', Some (enc_string h (o_Kind x))),
      (''enabled'', Some (JBool (o_Enabled x))),
      (''status'', Some (enc_string h (o_Status x))),
      (''supportLevel'', Some (enc_string h (o_SupportLevel x))),
      (''detectedAgentVersion'', opt_string h (o_DetectedVersion x)),
      (''detectedAgentPath'', opt_string h (o_DetectedPath x)),
      (''capabilities'', opt_strings h (o_Capabilities x)),
      (''diagnostics'', opt_strings h (o_Diagnostics x)),
      (''observedAt'', Some (enc_time h (o_ObservedAt x))),
      (''meta'', opt_meta h (o_Meta x))])"

definition enc_lineage :: "host \<Rightarrow> Lineage \<Rightarrow> json" where
  "enc_lineage h x = JObj (present
     [(''rootSessionId'', opt_string h (l_RootSessionID x)),
      (''sessions'', Some (JArr (map (enc_session h) (l_Sessions x)))),
      (''processes'', omitempty (l_Processes x = []) (JArr (map (enc_process h) (l_Processes x)))),
      (''workspaces'', omitempty (l_Workspaces x = []) (JArr (map (enc_workspace h) (l_Workspaces x)))),
      (''edges'', Some (JArr (map (enc_edge h) (l_Edges x))))])"

section \<open>Messages\<close>

text \<open>The result of a method; those that are maps in the source have their keys sorted.\<close>

definition enc_result :: "host \<Rightarrow> result \<Rightarrow> json" where
  "enc_result h r =
     (case r of
        RInfo name daemon api pid startedAt \<Rightarrow>
          JObj [(''api'', enc_string h api), (''daemon'', enc_string h daemon),
            (''name'', enc_string h name), (''pid'', enc_int pid), (''startedAt'', enc_time h startedAt)]
      | RFlag k b \<Rightarrow> JObj [(k, JBool b)]
      | RText k s \<Rightarrow> JObj [(k, enc_string h s)]
      | RSessions xs \<Rightarrow> JArr (map (enc_session h) xs)
      | RSession x \<Rightarrow> enc_session h x
      | RProcesses xs \<Rightarrow> JArr (map (enc_process h) xs)
      | RProcess x \<Rightarrow> enc_process h x
      | RWorkspaces xs \<Rightarrow> JArr (map (enc_workspace h) xs)
      | RWorkspace x \<Rightarrow> enc_workspace h x
      | RLineage x \<Rightarrow> enc_lineage h x
      | REvents xs \<Rightarrow> JArr (map (enc_event h) xs)
      | RSources xs \<Rightarrow> JArr (map (enc_source h) xs)
      | RSource x \<Rightarrow> enc_source h x
      | REdge x \<Rightarrow> enc_edge h x)"

definition enc_error :: "host \<Rightarrow> RpcError \<Rightarrow> json" where
  "enc_error h e =
     JObj [(''code'', enc_int (r_Code e)), (''message'', enc_string h (r_Message e))]"

definition enc_request :: "host \<Rightarrow> Request \<Rightarrow> json" where
  "enc_request h q = JObj (present
     [(''jsonrpc'', opt_string h (q_JSONRPC q)),
      (''id'', q_ID q),
      (''method'', Some (enc_string h (q_Method q))),
      (''params'', q_Params q)])"

definition enc_response :: "host \<Rightarrow> Response \<Rightarrow> json" where
  "enc_response h t = JObj (present
     [(''jsonrpc'', Some (enc_string h (t_JSONRPC t))),
      (''id'', t_ID t),
      (''result'', map_option (enc_result h) (t_Result t)),
      (''error'', map_option (enc_error h) (t_Error t))])"

definition enc_notification :: "host \<Rightarrow> Notification \<Rightarrow> json" where
  "enc_notification h n = JObj (present
     [(''jsonrpc'', Some (enc_string h (n_JSONRPC n))),
      (''method'', Some (enc_string h (n_Method n))),
      (''params'', Some (enc_event h (n_Params n)))])"

section \<open>Decoders of the client\<close>

definition processFields :: "host \<Rightarrow> Process field list" where
  "processFields h =
     [fld ''id'' dec_string p_ID p_ID_update,
      fld ''kind'' dec_string p_Kind p_Kind_update,
      fld ''pid'' dec_int p_PID p_PID_update,
      fld ''ppid'' dec_int p_PPID p_PPID_update,
      fld ''command'' dec_string p_Command p_Command_update,
      fld ''args'' dec_string p_Args p_Args_update,
      fld ''cwd'' dec_string p_CWD p_CWD_update,
      fld ''sessionIds'' dec_strings p_SessionIDs p_SessionIDs_update,
      fld ''liveness'' dec_string p_Liveness p_Liveness_update,
      fld ''source'' dec_string p_Source p_Source_update,
      fld ''confidence'' dec_string p_Confidence p_Confidence_update,
      fld ''observedAt'' (dec_time h) p_ObservedAt p_ObservedAt_update,
      fld ''meta'' dec_meta p_Meta p_Meta_update]"

definition eventFields :: "host \<Rightarrow> Event field list" where
  "eventFields h =
     [fld ''seq'' dec_int v_Seq v_Seq_update,
      fld ''type'' dec_string v_Type v_Type_update,
      fld ''sessionId'' dec_string v_SessionID v_SessionID_update,
      fld ''processId'' dec_string v_ProcessID v_ProcessID_update,
      fld ''workspaceId'' dec_string v_WorkspaceID v_WorkspaceID_update,
      fld ''edgeId'' dec_string v_EdgeID v_EdgeID_update,
      fld ''summary'' dec_string v_Summary v_Summary_update,
      fld ''source'' dec_string v_Source v_Source_update,
      fld ''observedAt'' (dec_time h) v_ObservedAt v_ObservedAt_update,
      fld ''data'' dec_meta v_Data v_Data_update]"

definition sourceFields :: "host \<Rightarrow> Source field list" where
  "sourceFields h =
     [fld ''id'' dec_string o_ID o_ID_update,
      fld ''name'' dec_string o_Name o_Name_update,
      fld ''kind'' dec_string o_Kind o_Kind_update,
      fld ''enabled'' dec_bool o_Enabled o_Enabled_update,
      fld ''status'' dec_string o_Status o_Status_update,
      fld ''supportLevel'' dec_string o_SupportLevel o_SupportLevel_update,
      fld ''detectedAgentVersion'' dec_string o_DetectedVersion o_DetectedVersion_update,
      fld ''detectedAgentPath'' dec_string o_DetectedPath o_DetectedPath_update,
      fld ''capabilities'' dec_strings o_Capabilities o_Capabilities_update,
      fld ''diagnostics'' dec_strings o_Diagnostics o_Diagnostics_update,
      fld ''observedAt'' (dec_time h) o_ObservedAt o_ObservedAt_update,
      fld ''meta'' dec_meta o_Meta o_Meta_update]"

text \<open>A slice of structs, each decoded into a zero value.\<close>

definition dec_slice :: "(json \<Rightarrow> 'a option) \<Rightarrow> 'a list \<Rightarrow> json \<Rightarrow> 'a list option" where
  "dec_slice dec cur j =
     (case j of JNull \<Rightarrow> Some [] | JArr xs \<Rightarrow> those (map dec xs) | _ \<Rightarrow> None)"

definition dec_session :: "host \<Rightarrow> json \<Rightarrow> Session option" where
  "dec_session h = decode_struct (sessionFields h) zeroSession"

definition dec_process :: "host \<Rightarrow> json \<Rightarrow> Process option" where
  "dec_process h = decode_struct (processFields h) zeroProcess"

definition dec_workspace :: "host \<Rightarrow> json \<Rightarrow> Workspace option" where
  "dec_workspace h = decode_struct (workspaceFields h) zeroWorkspace"

definition dec_edge :: "host \<Rightarrow> json \<Rightarrow> Edge option" where
  "dec_edge h = decode_struct (edgeFields h) zeroEdge"

definition dec_event :: "host \<Rightarrow> json \<Rightarrow> Event option" where
  "dec_event h = decode_struct (eventFields h) zeroEvent"

definition dec_source :: "host \<Rightarrow> json \<Rightarrow> Source option" where
  "dec_source h = decode_struct (sourceFields h) zeroSource"

definition lineageResultFields :: "host \<Rightarrow> Lineage field list" where
  "lineageResultFields h =
     [fld ''rootSessionId'' dec_string l_RootSessionID l_RootSessionID_update,
      fld ''sessions'' (dec_slice (dec_session h)) l_Sessions l_Sessions_update,
      fld ''processes'' (dec_slice (dec_process h)) l_Processes l_Processes_update,
      fld ''workspaces'' (dec_slice (dec_workspace h)) l_Workspaces l_Workspaces_update,
      fld ''edges'' (dec_slice (dec_edge h)) l_Edges l_Edges_update]"

definition dec_lineage :: "host \<Rightarrow> json \<Rightarrow> Lineage option" where
  "dec_lineage h = decode_struct (lineageResultFields h)
     \<lparr>l_RootSessionID = '''', l_Sessions = [], l_Processes = [], l_Workspaces = [], l_Edges = []\<rparr>"

end
