(* ===== verification/Wire.thy ===== *)
theory Wire
  imports Encode
begin

text \<open>
  What arrives of a value that was sent. A value may travel directly (the parameters of a request) or
  be decoded into an \<open>interface{}\<close> and encoded again on the way (the result of a call, in
  \<open>client.go\<close>). The locale \<open>transport\<close> states what both have in common, and the round
  trips of the structs are proved once from it.
\<close>

section \<open>Entries of an object\<close>

lemma present_Cons:
  "present ((k, v) # es) = (case v of None \<Rightarrow> present es | Some j \<Rightarrow> (k, j) # present es)"
  by (simp add: present_def map_filter_simps split: option.splits)

lemma present_Nil [simp]: "present [] = []"
  by (simp add: present_def map_filter_simps)

lemma in_present: "(k, j) \<in> set (present es) \<longleftrightarrow> (k, Some j) \<in> set es"
  by (induction es) (auto simp: present_Cons split: option.splits)

lemma present_keys: "k \<in> fst ` set (present es) \<Longrightarrow> k \<in> fst ` set es"
  by (force simp: in_present)

lemma distinct_present: "distinct (map fst es) \<Longrightarrow> distinct (map fst (present es))"
proof (induction es)
  case (Cons e es)
  then show ?case
    using present_keys [of "fst e" es] by (cases e) (auto simp: present_Cons split: option.splits)
qed simp

lemma map_of_present:
  "distinct (map fst es) \<Longrightarrow> map_of (present es) k = Option.bind (map_of es k) (\<lambda>v. v)"
proof (induction es)
  case (Cons e es)
  obtain k' v where e: "e = (k', v)" by (cases e)
  have "k' \<notin> fst ` set (present es)"
    using Cons.prems present_keys [of k' es] by (auto simp: e)
  then have "map_of (present es) k' = None"
    by (simp add: map_of_eq_None_iff)
  with Cons show ?case
    by (auto simp: e present_Cons split: option.splits)
qed simp

section \<open>Decoding by field\<close>

lemma field_for_exact: "map_of fs k = Some u \<Longrightarrow> field_for fs k = Some u"
  by (simp add: field_for_def)

text \<open>A field of the record that only the entry of its name changes.\<close>

definition reads_field ::
  "'r field list \<Rightarrow> string \<Rightarrow> ('a \<Rightarrow> json \<Rightarrow> 'a option) \<Rightarrow> ('r \<Rightarrow> 'a) \<Rightarrow> bool" where
  "reads_field fs name dec sel \<longleftrightarrow>
     list_all (\<lambda>(n, u). \<forall>r v r'. u r v = Some r' \<longrightarrow>
       (if n = name then dec (sel r) v = Some (sel r') else sel r' = sel r)) fs"

lemma reads_fieldD:
  "reads_field fs name dec sel \<Longrightarrow> map_of fs n = Some u \<Longrightarrow> u r v = Some r' \<Longrightarrow>
     (if n = name then dec (sel r) v = Some (sel r') else sel r' = sel r)"
  unfolding reads_field_def list_all_iff by (drule map_of_SomeD) fastforce

lemma decode_entries_field:
  assumes "decode_entries fs r kvs = Some r'" and "distinct (map fst kvs)"
    and "fst ` set kvs \<subseteq> fst ` set fs" and "reads_field fs name dec sel"
  shows "case map_of kvs name of None \<Rightarrow> sel r' = sel r | Some v \<Rightarrow> dec (sel r) v = Some (sel r')"
  using assms(1-3)
proof (induction kvs arbitrary: r)
  case (Cons kv kvs)
  obtain k v where kv: "kv = (k, v)" by (cases kv)
  have "k \<in> fst ` set fs"
    using Cons.prems(3) by (simp add: kv)
  then obtain u where u: "map_of fs k = Some u"
    by (metis domIff dom_map_of_conv_image_fst not_None_eq)
  obtain r1 where r1: "u r v = Some r1" "decode_entries fs r1 kvs = Some r'"
    using Cons.prems(1) by (auto simp: kv field_for_exact [OF u] split: option.splits)
  have step: "if k = name then dec (sel r) v = Some (sel r1) else sel r1 = sel r"
    by (rule reads_fieldD [OF assms(4) u r1(1)])
  have rest: "case map_of kvs name of None \<Rightarrow> sel r' = sel r1 | Some v \<Rightarrow> dec (sel r1) v = Some (sel r')"
    using Cons r1(2) by simp
  show ?case
  proof (cases "k = name")
    case True
    then have "map_of kvs name = None"
      using Cons.prems(2) by (simp add: kv map_of_eq_None_iff)
    with True step rest show ?thesis by (simp add: kv)
  next
    case False
    with step rest show ?thesis by (simp add: kv split: option.splits)
  qed
qed simp

lemma decode_entries_total:
  "list_all (\<lambda>(k, v). \<exists>u. map_of fs k = Some u \<and> (\<forall>r. u r v \<noteq> None)) kvs \<Longrightarrow>
     \<exists>r'. decode_entries fs r kvs = Some r'"
proof (induction kvs arbitrary: r)
  case (Cons kv kvs)
  obtain k v where kv: "kv = (k, v)" by (cases kv)
  obtain u where u: "map_of fs k = Some u" "\<forall>r. u r v \<noteq> None"
    using Cons.prems by (auto simp: kv)
  obtain r1 where "u r v = Some r1" using u(2) by blast
  with Cons show ?case by (simp add: kv field_for_exact [OF u(1)])
qed simp

section \<open>Transports\<close>

definition clean :: "host \<Rightarrow> string \<Rightarrow> bool" where
  "clean h s \<longleftrightarrow> coerce_text h s = s"

definition clean_int :: "host \<Rightarrow> int \<Rightarrow> bool" where
  "clean_int h n \<longleftrightarrow> float_text h (Itoa n) = Itoa n \<and> min_int64 \<le> n \<and> n \<le> max_int64"

definition clean_time :: "host \<Rightarrow> time \<Rightarrow> bool" where
  "clean_time h t \<longleftrightarrow> parse_time h (format_time h t) = Some t \<and> clean h (format_time h t)"

text \<open>What a field holds after decoding: its old value, or what its entry decodes to.\<close>

definition arrives :: "(json \<Rightarrow> json) \<Rightarrow> (string \<times> json option) list \<Rightarrow> string \<Rightarrow>
    ('a \<Rightarrow> json \<Rightarrow> 'a option) \<Rightarrow> 'a \<Rightarrow> 'a option" where
  "arrives carry es name dec cur =
     (case Option.bind (map_of es name) (\<lambda>v. v) of None \<Rightarrow> Some cur | Some v \<Rightarrow> dec cur (carry v))"

locale transport =
  fixes h :: host and carry :: "json \<Rightarrow> json"
  assumes carry_bool: "carry (JBool b) = JBool b"
    and carry_str: "clean h s \<Longrightarrow> carry (JStr s) = JStr s"
    and carry_int: "clean_int h n \<Longrightarrow> carry (JNum (Itoa n)) = JNum (Itoa n)"
    and carry_arr: "carry (JArr xs) = JArr (map carry xs)"
    and carry_obj: "distinct (map fst kvs) \<Longrightarrow> list_all (clean h) (map fst kvs) \<Longrightarrow>
      \<exists>kvs'. carry (JObj kvs) = JObj kvs' \<and> distinct (map fst kvs') \<and>
        set kvs' = map_prod (\<lambda>k. k) carry ` set kvs"
begin

lemma string_carried: "clean h s \<Longrightarrow> dec_string cur (carry (enc_string h s)) = Some s"
  by (simp add: enc_string_def clean_def carry_str dec_string_def)

lemma strings_carried:
  assumes "list_all (clean h) xs"
  shows "dec_strings cur (carry (enc_strings h xs)) = Some xs"
proof -
  have "those (map (dec_string '''') (map (carry \<circ> enc_string h) xs)) = Some xs"
    using assms by (induction xs) (simp_all add: string_carried)
  then show ?thesis
    by (simp add: enc_strings_def carry_arr dec_strings_def)
qed

lemma bool_carried: "dec_bool cur (carry (JBool b)) = Some b"
  by (simp add: carry_bool dec_bool_def)

lemma int_carried: "clean_int h n \<Longrightarrow> dec_int cur (carry (enc_int n)) = Some n"
  by (simp add: enc_int_def carry_int dec_int_def Atoi_Itoa clean_int_def)

lemma time_carried: "clean_time h t \<Longrightarrow> dec_time h cur (carry (enc_time h t)) = Some t"
  by (simp add: enc_time_def clean_time_def carry_str dec_time_def)

lemma time_ptr_carried: "clean_time h t \<Longrightarrow> dec_time_ptr h cur (carry (enc_time h t)) = Some (Some t)"
  by (simp add: enc_time_def clean_time_def carry_str dec_time_ptr_def)

lemma slice_carried:
  "list_all (\<lambda>x. dec (carry (enc x)) = Some (f x)) xs \<Longrightarrow>
     dec_slice dec cur (carry (JArr (map enc xs))) = Some (map f xs)"
  unfolding dec_slice_def carry_arr by (simp, induction xs) simp_all

text \<open>A struct whose entries are known to the decoder.\<close>

lemma object_carried:
  assumes "distinct (map fst es)" and "list_all (clean h) (map fst es)"
  obtains kvs where "carry (JObj (present es)) = JObj kvs" "distinct (map fst kvs)"
    "set kvs = map_prod (\<lambda>k. k) carry ` set (present es)"
    "\<And>k. map_of kvs k = map_option carry (Option.bind (map_of es k) (\<lambda>v. v))"
proof -
  have "list_all (clean h) (map fst (present es))"
    using assms(2) present_keys [of _ es] by (fastforce simp: list_all_iff)
  then obtain kvs where kvs: "carry (JObj (present es)) = JObj kvs" "distinct (map fst kvs)"
    "set kvs = map_prod (\<lambda>k. k) carry ` set (present es)"
    using carry_obj [OF distinct_present [OF assms(1)]] by blast
  have "map_of kvs k = map_option carry (map_of (present es) k)" for k
  proof (cases "map_of (present es) k")
    case None
    then have "k \<notin> fst ` set kvs"
      by (force simp: kvs(3) map_of_eq_None_iff)
    then have "map_of kvs k = None"
      by (simp add: map_of_eq_None_iff)
    with None show ?thesis by simp
  next
    case (Some v)
    then have "(k, carry v) \<in> set kvs"
      by (auto simp: kvs(3) image_iff dest!: map_of_SomeD intro!: bexI [of _ "(k, v)"])
    with Some show ?thesis by (simp add: kvs(2))
  qed
  with kvs that show thesis
    by (simp add: map_of_present [OF assms(1)])
qed

lemma struct_total:
  assumes "distinct (map fst es)" and "list_all (clean h) (map fst es)"
    and "list_all (\<lambda>(k, v). case v of None \<Rightarrow> True
           | Some j \<Rightarrow> \<exists>u. map_of fs k = Some u \<and> (\<forall>r. u r (carry j) \<noteq> None)) es"
  shows "\<exists>r'. decode_struct fs r (carry (JObj (present es))) = Some r'"
proof -
  obtain kvs where kvs: "carry (JObj (present es)) = JObj kvs"
    "set kvs = map_prod (\<lambda>k. k) carry ` set (present es)"
    by (rule object_carried [OF assms(1,2)]) blast
  have "list_all (\<lambda>(k, v). \<exists>u. map_of fs k = Some u \<and> (\<forall>r. u r v \<noteq> None)) kvs"
    using assms(3) by (force simp: list_all_iff kvs(2) in_present split: option.splits)
  from decode_entries_total [OF this] show ?thesis
    by (simp add: kvs(1) decode_struct_def)
qed

lemma struct_field:
  assumes "distinct (map fst es)" and "list_all (clean h) (map fst es)"
    and "set (map fst es) \<subseteq> fst ` set fs"
    and "decode_struct fs r (carry (JObj (present es))) = Some r'"
    and "reads_field fs name dec sel"
  shows "Some (sel r') = arrives carry es name dec (sel r)"
proof -
  obtain kvs where kvs: "carry (JObj (present es)) = JObj kvs" "distinct (map fst kvs)"
    "set kvs = map_prod (\<lambda>k. k) carry ` set (present es)"
    "\<And>k. map_of kvs k = map_option carry (Option.bind (map_of es k) (\<lambda>v. v))"
    by (rule object_carried [OF assms(1,2)]) blast
  have "fst ` set kvs \<subseteq> fst ` set fs"
  proof
    fix k
    assume "k \<in> fst ` set kvs"
    then have "k \<in> fst ` set (present es)"
      by (force simp: kvs(3))
    then show "k \<in> fst ` set fs"
      using present_keys [of k es] assms(3) by auto
  qed
  with assms(4,5) kvs(1,2) have
    "case map_of kvs name of None \<Rightarrow> sel r' = sel r | Some v \<Rightarrow> dec (sel r) v = Some (sel r')"
    by (intro decode_entries_field) (simp_all add: decode_struct_def)
  then show ?thesis
    by (simp add: kvs(4) arrives_def split: option.splits)
qed

end

section \<open>Both ways to travel\<close>

text \<open>\<open>Client.Call\<close> decodes the result into an \<open>interface{}\<close> and encodes that again.\<close>

definition relay :: "host \<Rightarrow> json \<Rightarrow> json" where
  "relay h j = json_of h (goval_of j)"

lemma put_all_distinct: "distinct (map fst (m @ kvs)) \<Longrightarrow> put_all m kvs = m @ kvs"
proof (induction kvs arbitrary: m)
  case (Cons kv kvs)
  obtain k v where kv: "kv = (k, v)" by (cases kv)
  have "gm_put k v m = m @ [(k, v)]"
    using Cons.prems unfolding gm_put_def kv by (induction m) auto
  with Cons show ?case by (simp add: put_all_def kv)
qed (simp add: put_all_def)

lemma relay_obj:
  assumes "distinct (map fst kvs)" and "list_all (clean h) (map fst kvs)"
  shows "\<exists>kvs'. relay h (JObj kvs) = JObj kvs' \<and> distinct (map fst kvs') \<and>
    set kvs' = map_prod (\<lambda>k. k) (relay h) ` set kvs"
proof -
  let ?s = "sort_slice keyLess (map (map_prod (\<lambda>k. k) (relay h)) kvs)"
  have fst_map: "map fst (map (map_prod (\<lambda>k. k) f) xs) = map fst xs" for f :: "'a \<Rightarrow> 'b" and xs :: "('c \<times> 'a) list"
    by (induction xs) auto
  have "put_all [] (map (map_prod id goval_of) kvs) = map (map_prod id goval_of) kvs"
    using assms(1) fst_map [of goval_of kvs] by (subst put_all_distinct) (simp_all add: id_def comp_def)
  then have "relay h (JObj kvs) = JObj (map (map_prod (coerce_text h) id) ?s)"
    by (simp add: relay_def [abs_def] id_def map_prod_def case_prod_beta' comp_def)
  moreover have "map (map_prod (coerce_text h) id) ?s = ?s"
    using assms(2) by (intro map_idI) (auto simp: list_all_iff clean_def map_prod_def)
  moreover have "distinct (map fst ?s)"
    using assms(1) fst_map [of "relay h" kvs] by (simp add: comp_def)
  ultimately show ?thesis
    by (intro exI [of _ ?s]) simp
qed

interpretation direct: transport h "\<lambda>j. j" for h
  by unfold_locales (auto simp: map_prod_def intro!: image_eqI)

interpretation relayed: transport h "relay h" for h
  by unfold_locales (rule relay_obj | simp add: relay_def [abs_def] enc_string_def clean_def clean_int_def)+

section \<open>The structs arrive\<close>

lemmas field_law_defs = reads_field_def fld_def map_option_eq_Some

lemma reads_agent:
  "reads_field agentFields ''name'' dec_string a_Name"
  "reads_field agentFields ''vendor'' dec_string a_Vendor"
  "reads_field agentFields ''adapter'' dec_string a_Adapter"
  by (auto simp: field_law_defs agentFields_def)

lemma reads_capabilities:
  "reads_field capabilitiesFields ''logs'' dec_bool c_Logs"
  "reads_field capabilitiesFields ''children'' dec_bool c_Children"
  "reads_field capabilitiesFields ''attach'' dec_bool c_Attach"
  "reads_field capabilitiesFields ''stop'' dec_bool c_Stop"
  "reads_field capabilitiesFields ''sendPrompt'' dec_bool c_SendPrompt"
  "reads_field capabilitiesFields ''approvals'' dec_bool c_Approvals"
  by (auto simp: field_law_defs capabilitiesFields_def)

lemma reads_session:
  "reads_field (sessionFields h) ''id'' dec_string s_ID"
  "reads_field (sessionFields h) ''kind'' dec_string s_Kind"
  "reads_field (sessionFields h) ''agent'' (decode_struct agentFields) s_Agent"
  "reads_field (sessionFields h) ''title'' dec_string s_Title"
  "reads_field (sessionFields h) ''summary'' dec_string s_Summary"
  "reads_field (sessionFields h) ''status'' dec_string s_Status"
  "reads_field (sessionFields h) ''attention'' dec_string s_Attention"
  "reads_field (sessionFields h) ''statusDetail'' dec_string s_StatusDetail"
  "reads_field (sessionFields h) ''confidence'' dec_string s_Confidence"
  "reads_field (sessionFields h) ''source'' dec_string s_Source"
  "reads_field (sessionFields h) ''cwd'' dec_string s_CWD"
  "reads_field (sessionFields h) ''workspaceRoots'' dec_strings s_WorkspaceRoots"
  "reads_field (sessionFields h) ''startedAt'' (dec_time h) s_StartedAt"
  "reads_field (sessionFields h) ''lastActivityAt'' (dec_time h) s_LastActivityAt"
  "reads_field (sessionFields h) ''endedAt'' (dec_time_ptr h) s_EndedAt"
  "reads_field (sessionFields h) ''parentSessionId'' dec_string s_ParentSessionID"
  "reads_field (sessionFields h) ''rootSessionId'' dec_string s_RootSessionID"
  "reads_field (sessionFields h) ''runtimeIds'' dec_strings s_RuntimeIDs"
  "reads_field (sessionFields h) ''workspaceIds'' dec_strings s_WorkspaceIDs"
  "reads_field (sessionFields h) ''artifactIds'' dec_strings s_ArtifactIDs"
  "reads_field (sessionFields h) ''capabilities'' (decode_struct capabilitiesFields) s_Capabilities"
  "reads_field (sessionFields h) ''meta'' dec_meta s_Meta"
  by (auto simp: field_law_defs sessionFields_def)

text \<open>
  What the round trips rely on of \<open>encoding/json\<close>: ASCII text is written as it is, so is the
  concatenation of two texts that are (valid UTF-8), and so are the integers a \<open>float64\<close>
  represents exactly.
\<close>

definition json_host :: "host \<Rightarrow> bool" where
  "json_host h \<longleftrightarrow> (\<forall>s. list_all ascii_char s \<longrightarrow> clean h s) \<and>
     (\<forall>s t. clean h s \<and> clean h t \<longrightarrow> clean h (s @ t)) \<and>
     (\<forall>n. \<bar>n\<bar> \<le> 2 ^ 53 \<longrightarrow> float_text h (Itoa n) = Itoa n)"

lemma clean_ascii: "json_host h \<Longrightarrow> list_all ascii_char s \<Longrightarrow> clean h s"
  by (simp add: json_host_def)

lemma clean_append: "json_host h \<Longrightarrow> clean h s \<Longrightarrow> clean h t \<Longrightarrow> clean h (s @ t)"
  by (simp add: json_host_def)

lemma clean_Itoa: "json_host h \<Longrightarrow> clean h (Itoa n)"
proof (rule clean_ascii)
  show "list_all ascii_char (Itoa n)"
    using Itoa_chars [of _ n] by (fastforce simp: list_all_iff char_digit_def ascii_char_def Let_def split: if_splits)
qed

lemma clean_Join:
  "json_host h \<Longrightarrow> list_all (clean h) xs \<Longrightarrow> clean h sep \<Longrightarrow> clean h (Join xs sep)"
  by (induction xs sep rule: Join.induct) (simp_all add: clean_append clean_ascii)

lemma clean_small: "json_host h \<Longrightarrow> \<bar>n\<bar> \<le> 2 ^ 53 \<Longrightarrow> clean_int h n"
  by (auto simp: json_host_def clean_int_def min_int64_def max_int64_def)

definition meta_ok :: "host \<Rightarrow> gometa \<Rightarrow> bool" where
  "meta_ok h m \<longleftrightarrow> distinct (map fst m) \<and> list_all (clean h) (map fst m)"

definition agent_ok :: "host \<Rightarrow> Agent \<Rightarrow> bool" where
  "agent_ok h a \<longleftrightarrow> clean h (a_Name a) \<and> clean h (a_Vendor a) \<and> clean h (a_Adapter a)"

definition session_ok :: "host \<Rightarrow> Session \<Rightarrow> bool" where
  "session_ok h s \<longleftrightarrow>
     list_all (clean h) [s_ID s, s_Kind s, s_Title s, s_Summary s, s_Status s, s_Attention s,
       s_StatusDetail s, s_Confidence s, s_Source s, s_CWD s, s_ParentSessionID s, s_RootSessionID s] \<and>
     agent_ok h (s_Agent s) \<and>
     list_all (clean h) (s_WorkspaceRoots s) \<and> list_all (clean h) (s_RuntimeIDs s) \<and>
     list_all (clean h) (s_WorkspaceIDs s) \<and> list_all (clean h) (s_ArtifactIDs s) \<and>
     clean_time h (s_StartedAt s) \<and> clean_time h (s_LastActivityAt s) \<and>
     (case s_EndedAt s of None \<Rightarrow> True | Some t \<Rightarrow> clean_time h t) \<and> meta_ok h (s_Meta s)"

lemma entry_keys:
  assumes "json_host h"
  shows "distinct (map fst (agentEntries h a))" "list_all (clean h) (map fst (agentEntries h a))"
    "distinct (map fst (capabilitiesEntries c))" "list_all (clean h) (map fst (capabilitiesEntries c))"
    "distinct (map fst (sessionEntries h s))" "list_all (clean h) (map fst (sessionEntries h s))"
  using clean_ascii [OF assms]
  by (simp_all add: agentEntries_def capabilitiesEntries_def sessionEntries_def ascii_char_def)

definition workspace_ok :: "host \<Rightarrow> Workspace \<Rightarrow> bool" where
  "workspace_ok h w \<longleftrightarrow>
     list_all (clean h) [w_ID w, w_Kind w, w_Path w, w_RepoRoot w, w_Branch w, w_Source w, w_Confidence w] \<and>
     list_all (clean h) (w_SessionIDs w) \<and> clean_time h (w_ObservedAt w) \<and> meta_ok h (w_Meta w)"

lemma reads_workspace:
  "reads_field (workspaceFields h) ''id'' dec_string w_ID"
  "reads_field (workspaceFields h) ''kind'' dec_string w_Kind"
  "reads_field (workspaceFields h) ''path'' dec_string w_Path"
  "reads_field (workspaceFields h) ''repoRoot'' dec_string w_RepoRoot"
  "reads_field (workspaceFields h) ''branch'' dec_string w_Branch"
  "reads_field (workspaceFields h) ''sessionIds'' dec_strings w_SessionIDs"
  "reads_field (workspaceFields h) ''source'' dec_string w_Source"
  "reads_field (workspaceFields h) ''confidence'' dec_string w_Confidence"
  "reads_field (workspaceFields h) ''observedAt'' (dec_time h) w_ObservedAt"
  "reads_field (workspaceFields h) ''meta'' dec_meta w_Meta"
  by (auto simp: field_law_defs workspaceFields_def)

lemma workspace_keys:
  assumes "json_host h"
  shows "distinct (map fst (workspaceEntries h w))" "list_all (clean h) (map fst (workspaceEntries h w))"
  using clean_ascii [OF assms] by (simp_all add: workspaceEntries_def ascii_char_def)

definition edge_ok :: "host \<Rightarrow> Edge \<Rightarrow> bool" where
  "edge_ok h e \<longleftrightarrow>
     list_all (clean h) [e_ID e, e_From e, e_To e, e_Type e, e_Source e, e_Confidence e] \<and>
     clean_time h (e_ObservedAt e)"

lemma reads_edge:
  "reads_field (edgeFields h) ''id'' dec_string e_ID"
  "reads_field (edgeFields h) ''from'' dec_string e_From"
  "reads_field (edgeFields h) ''to'' dec_string e_To"
  "reads_field (edgeFields h) ''type'' dec_string e_Type"
  "reads_field (edgeFields h) ''source'' dec_string e_Source"
  "reads_field (edgeFields h) ''confidence'' dec_string e_Confidence"
  "reads_field (edgeFields h) ''observedAt'' (dec_time h) e_ObservedAt"
  by (auto simp: field_law_defs edgeFields_def)

lemma edge_keys:
  assumes "json_host h"
  shows "distinct (map fst (edgeEntries h e))" "list_all (clean h) (map fst (edgeEntries h e))"
  using clean_ascii [OF assms] by (simp_all add: edgeEntries_def ascii_char_def)

definition event_ok :: "host \<Rightarrow> Event \<Rightarrow> bool" where
  "event_ok h v \<longleftrightarrow>
     list_all (clean h) [v_Type v, v_SessionID v, v_ProcessID v, v_WorkspaceID v, v_EdgeID v, v_Summary v,
       v_Source v] \<and> clean_int h (v_Seq v) \<and> clean_time h (v_ObservedAt v) \<and> meta_ok h (v_Data v)"

lemma reads_event:
  "reads_field (eventFields h) ''seq'' dec_int v_Seq"
  "reads_field (eventFields h) ''type'' dec_string v_Type"
  "reads_field (eventFields h) ''sessionId'' dec_string v_SessionID"
  "reads_field (eventFields h) ''processId'' dec_string v_ProcessID"
  "reads_field (eventFields h) ''workspaceId'' dec_string v_WorkspaceID"
  "reads_field (eventFields h) ''edgeId'' dec_string v_EdgeID"
  "reads_field (eventFields h) ''summary'' dec_string v_Summary"
  "reads_field (eventFields h) ''source'' dec_string v_Source"
  "reads_field (eventFields h) ''observedAt'' (dec_time h) v_ObservedAt"
  "reads_field (eventFields h) ''data'' dec_meta v_Data"
  by (auto simp: field_law_defs eventFields_def)

lemma event_keys:
  assumes "json_host h"
  shows "distinct (map fst (eventEntries h v))" "list_all (clean h) (map fst (eventEntries h v))"
  using clean_ascii [OF assms] by (simp_all add: eventEntries_def ascii_char_def)

text \<open>A \<open>map[string]interface{}\<close> on arrival.\<close>

definition recv_meta :: "host \<Rightarrow> (json \<Rightarrow> json) \<Rightarrow> gometa \<Rightarrow> gometa" where
  "recv_meta h carry m = (case dec_meta [] (carry (enc_meta h m)) of Some m' \<Rightarrow> m' | None \<Rightarrow> [])"

context transport
begin

lemma meta_object:
  assumes "meta_ok h m"
  obtains kvs where "carry (enc_meta h m) = JObj kvs" "distinct (map fst kvs)"
    "set kvs = (\<lambda>(k, v). (k, carry (json_of h v))) ` set m"
proof -
  let ?s = "sort_slice keyLess (map (map_prod id (json_of h)) m)"
  have keys: "map fst (map (map_prod id f) xs) = map fst xs" for f :: "goval \<Rightarrow> json" and xs :: gometa
    by (induction xs) auto
  have "map (map_prod (coerce_text h) id) ?s = ?s"
    using assms by (intro map_idI) (auto simp: meta_ok_def list_all_iff clean_def)
  then have enc: "enc_meta h m = JObj ?s"
    by (simp add: enc_meta_def)
  have "distinct (map fst ?s)" "list_all (clean h) (map fst ?s)"
    using assms keys [of "json_of h" m] by (auto simp: meta_ok_def list_all_iff)
  from carry_obj [OF this] that show thesis
    unfolding enc by (force simp: image_image map_prod_def case_prod_beta')
qed

lemma meta_carried:
  assumes "meta_ok h m"
  shows "dec_meta [] (carry (enc_meta h m)) = Some (recv_meta h carry m)"
    and "\<exists>z. dec_meta cur (carry (enc_meta h m)) = Some z"
    and "gm_get (recv_meta h carry m) k = map_option (\<lambda>v. goval_of (carry (json_of h v))) (gm_get m k)"
proof -
  obtain kvs where kvs: "carry (enc_meta h m) = JObj kvs" "distinct (map fst kvs)"
    "set kvs = (\<lambda>(k, v). (k, carry (json_of h v))) ` set m"
    by (rule meta_object [OF assms])
  show "dec_meta [] (carry (enc_meta h m)) = Some (recv_meta h carry m)" "\<exists>z. dec_meta cur (carry (enc_meta h m)) = Some z"
    by (simp_all add: recv_meta_def kvs(1) dec_meta_def)
  have "distinct (map fst (map (map_prod id goval_of) kvs))"
    using kvs(2) by (simp add: comp_def)
  then have "recv_meta h carry m = map (map_prod id goval_of) kvs"
    by (simp add: recv_meta_def kvs(1) dec_meta_def put_all_distinct)
  moreover have "map_of kvs k = map_option (\<lambda>v. carry (json_of h v)) (map_of m k)"
  proof (cases "map_of m k")
    case None
    then have "k \<notin> fst ` set kvs"
      by (force simp: kvs(3) map_of_eq_None_iff)
    then have "map_of kvs k = None"
      by (simp add: map_of_eq_None_iff)
    with None show ?thesis by simp
  next
    case (Some v)
    then have "(k, carry (json_of h v)) \<in> set kvs"
      by (force simp: kvs(3) dest: map_of_SomeD)
    with Some show ?thesis by (simp add: kvs(2))
  qed
  moreover have "map_of (map (map_prod id goval_of) kvs) k = map_option goval_of (map_of kvs k)"
    by (induction kvs) auto
  ultimately show "gm_get (recv_meta h carry m) k = map_option (\<lambda>v. goval_of (carry (json_of h v))) (gm_get m k)"
    by (simp add: gm_get_def option.map_comp comp_def)
qed

lemma meta_ok_carried:
  assumes "meta_ok h m"
  shows "meta_ok h (recv_meta h carry m)"
proof -
  obtain kvs where kvs: "carry (enc_meta h m) = JObj kvs" "distinct (map fst kvs)"
    "set kvs = (\<lambda>(k, v). (k, carry (json_of h v))) ` set m"
    by (rule meta_object [OF assms])
  have "distinct (map fst (map (map_prod id goval_of) kvs))"
    using kvs(2) by (simp add: comp_def)
  then have "recv_meta h carry m = map (map_prod id goval_of) kvs"
    by (simp add: recv_meta_def kvs(1) dec_meta_def put_all_distinct)
  moreover have "list_all (clean h) (map fst kvs)"
    using assms by (auto simp: kvs(3) list_all_iff meta_ok_def)
  ultimately show ?thesis
    using kvs(2) by (simp add: meta_ok_def comp_def)
qed

lemma agent_carried:
  assumes "json_host h" and "agent_ok h a"
  shows "decode_struct agentFields zeroAgent (carry (enc_agent h a)) = Some a"
    and "\<exists>z. decode_struct agentFields cur (carry (enc_agent h a)) = Some z"
proof -
  have total: "\<exists>r'. decode_struct agentFields r (carry (enc_agent h a)) = Some r'" for r
    unfolding enc_agent_def
    by (rule struct_total [OF entry_keys(1,2) [OF assms(1)]])
      (use assms(2) in \<open>simp add: agentEntries_def agentFields_def fld_def agent_ok_def omitempty_def string_carried\<close>)
  then show "\<exists>z. decode_struct agentFields cur (carry (enc_agent h a)) = Some z"
    by auto
  obtain r where r: "decode_struct agentFields zeroAgent (carry (enc_agent h a)) = Some r"
    using total by blast
  have "set (map fst (agentEntries h a)) \<subseteq> fst ` set agentFields"
    by (simp add: agentEntries_def agentFields_def fld_def)
  note field = struct_field [OF entry_keys(1,2) [OF assms(1)] this r [unfolded enc_agent_def]]
  have "r = a"
    using reads_agent [THEN field] assms(2)
    by (simp add: arrives_def agentEntries_def agent_ok_def omitempty_def string_carried zeroAgent_def split: if_splits)
  with r show "decode_struct agentFields zeroAgent (carry (enc_agent h a)) = Some a"
    by simp
qed

lemma capabilities_carried:
  assumes "json_host h"
  shows "decode_struct capabilitiesFields zeroCapabilities (carry (enc_capabilities c)) = Some c"
    and "\<exists>z. decode_struct capabilitiesFields cur (carry (enc_capabilities c)) = Some z"
proof -
  have total: "\<exists>r'. decode_struct capabilitiesFields r (carry (enc_capabilities c)) = Some r'" for r
    unfolding enc_capabilities_def
    by (rule struct_total [OF entry_keys(3,4) [OF assms(1)]])
      (simp add: capabilitiesEntries_def capabilitiesFields_def fld_def bool_carried)
  then show "\<exists>z. decode_struct capabilitiesFields cur (carry (enc_capabilities c)) = Some z"
    by auto
  obtain r where r: "decode_struct capabilitiesFields zeroCapabilities (carry (enc_capabilities c)) = Some r"
    using total by blast
  have "set (map fst (capabilitiesEntries c)) \<subseteq> fst ` set capabilitiesFields"
    by (simp add: capabilitiesEntries_def capabilitiesFields_def fld_def)
  note field = struct_field [OF entry_keys(3,4) [OF assms(1)] this r [unfolded enc_capabilities_def]]
  have "c_Logs r = c_Logs c" "c_Children r = c_Children c" "c_Attach r = c_Attach c"
    "c_Stop r = c_Stop c" "c_SendPrompt r = c_SendPrompt c" "c_Approvals r = c_Approvals c"
    using reads_capabilities [THEN field] by (simp_all add: arrives_def capabilitiesEntries_def bool_carried)
  with r show "decode_struct capabilitiesFields zeroCapabilities (carry (enc_capabilities c)) = Some c"
    by simp
qed

lemmas values_carried = string_carried strings_carried bool_carried int_carried time_carried
  time_ptr_carried meta_carried agent_carried capabilities_carried

lemma empty_meta_carried: "recv_meta h carry [] = []"
  using carry_obj [of "[]"] by (auto simp: recv_meta_def enc_meta_def dec_meta_def put_all_def sort_slice_def)

lemma session_arrives:
  assumes "json_host h" and "session_ok h s"
  shows "arrives carry (sessionEntries h s) ''id'' dec_string (s_ID zeroSession) = Some (s_ID s)"
    "arrives carry (sessionEntries h s) ''kind'' dec_string (s_Kind zeroSession) = Some (s_Kind s)"
    "arrives carry (sessionEntries h s) ''agent'' (decode_struct agentFields) (s_Agent zeroSession) = Some (s_Agent s)"
    "arrives carry (sessionEntries h s) ''title'' dec_string (s_Title zeroSession) = Some (s_Title s)"
    "arrives carry (sessionEntries h s) ''summary'' dec_string (s_Summary zeroSession) = Some (s_Summary s)"
    "arrives carry (sessionEntries h s) ''status'' dec_string (s_Status zeroSession) = Some (s_Status s)"
    "arrives carry (sessionEntries h s) ''attention'' dec_string (s_Attention zeroSession) = Some (s_Attention s)"
    "arrives carry (sessionEntries h s) ''statusDetail'' dec_string (s_StatusDetail zeroSession) = Some (s_StatusDetail s)"
    "arrives carry (sessionEntries h s) ''confidence'' dec_string (s_Confidence zeroSession) = Some (s_Confidence s)"
    "arrives carry (sessionEntries h s) ''source'' dec_string (s_Source zeroSession) = Some (s_Source s)"
    "arrives carry (sessionEntries h s) ''cwd'' dec_string (s_CWD zeroSession) = Some (s_CWD s)"
    "arrives carry (sessionEntries h s) ''workspaceRoots'' dec_strings (s_WorkspaceRoots zeroSession) = Some (s_WorkspaceRoots s)"
    "arrives carry (sessionEntries h s) ''startedAt'' (dec_time h) (s_StartedAt zeroSession) = Some (s_StartedAt s)"
    "arrives carry (sessionEntries h s) ''lastActivityAt'' (dec_time h) (s_LastActivityAt zeroSession) = Some (s_LastActivityAt s)"
    "arrives carry (sessionEntries h s) ''endedAt'' (dec_time_ptr h) (s_EndedAt zeroSession) = Some (s_EndedAt s)"
    "arrives carry (sessionEntries h s) ''parentSessionId'' dec_string (s_ParentSessionID zeroSession) = Some (s_ParentSessionID s)"
    "arrives carry (sessionEntries h s) ''rootSessionId'' dec_string (s_RootSessionID zeroSession) = Some (s_RootSessionID s)"
    "arrives carry (sessionEntries h s) ''runtimeIds'' dec_strings (s_RuntimeIDs zeroSession) = Some (s_RuntimeIDs s)"
    "arrives carry (sessionEntries h s) ''workspaceIds'' dec_strings (s_WorkspaceIDs zeroSession) = Some (s_WorkspaceIDs s)"
    "arrives carry (sessionEntries h s) ''artifactIds'' dec_strings (s_ArtifactIDs zeroSession) = Some (s_ArtifactIDs s)"
    "arrives carry (sessionEntries h s) ''capabilities'' (decode_struct capabilitiesFields) (s_Capabilities zeroSession) = Some (s_Capabilities s)"
    "arrives carry (sessionEntries h s) ''meta'' dec_meta (s_Meta zeroSession) = Some (recv_meta h carry (s_Meta s))"
  using assms(2) [unfolded session_ok_def list.pred_inject]
  by (simp_all add: arrives_def sessionEntries_def omitempty_def values_carried assms(1) zeroSession_def
      empty_meta_carried split: option.splits)

lemma session_carried:
  assumes "json_host h" and "session_ok h s"
  shows "dec_session h (carry (enc_session h s)) = Some (s\<lparr>s_Meta := recv_meta h carry (s_Meta s)\<rparr>)"
proof -
  have "\<exists>r. dec_session h (carry (enc_session h s)) = Some r"
    unfolding enc_session_def dec_session_def
    by (rule struct_total [OF entry_keys(5,6) [OF assms(1)]])
      (use assms(2) [unfolded session_ok_def list.pred_inject] in \<open>simp add: sessionEntries_def
        sessionFields_def fld_def omitempty_def values_carried assms(1) split: option.splits\<close>)
  then obtain r where r: "dec_session h (carry (enc_session h s)) = Some r" by blast
  have "set (map fst (sessionEntries h s)) \<subseteq> fst ` set (sessionFields h)"
    by (simp add: sessionEntries_def sessionFields_def fld_def)
  note field = struct_field [OF entry_keys(5,6) [OF assms(1)] this r [unfolded enc_session_def dec_session_def]]
  have
    "Some (s_ID r) = Some (s_ID s)" "Some (s_Kind r) = Some (s_Kind s)"
    "Some (s_Agent r) = Some (s_Agent s)" "Some (s_Title r) = Some (s_Title s)"
    "Some (s_Summary r) = Some (s_Summary s)" "Some (s_Status r) = Some (s_Status s)"
    "Some (s_Attention r) = Some (s_Attention s)"
    "Some (s_StatusDetail r) = Some (s_StatusDetail s)"
    "Some (s_Confidence r) = Some (s_Confidence s)" "Some (s_Source r) = Some (s_Source s)"
    "Some (s_CWD r) = Some (s_CWD s)" "Some (s_WorkspaceRoots r) = Some (s_WorkspaceRoots s)"
    "Some (s_StartedAt r) = Some (s_StartedAt s)"
    "Some (s_LastActivityAt r) = Some (s_LastActivityAt s)"
    "Some (s_EndedAt r) = Some (s_EndedAt s)"
    "Some (s_ParentSessionID r) = Some (s_ParentSessionID s)"
    "Some (s_RootSessionID r) = Some (s_RootSessionID s)"
    "Some (s_RuntimeIDs r) = Some (s_RuntimeIDs s)"
    "Some (s_WorkspaceIDs r) = Some (s_WorkspaceIDs s)"
    "Some (s_ArtifactIDs r) = Some (s_ArtifactIDs s)"
    "Some (s_Capabilities r) = Some (s_Capabilities s)"
    "Some (s_Meta r) = Some (recv_meta h carry (s_Meta s))"
    by (simp_all only: reads_session [THEN field] session_arrives [OF assms])
  then have "r = s\<lparr>s_Meta := recv_meta h carry (s_Meta s)\<rparr>"
    by simp
  with r show ?thesis by simp
qed

lemma workspace_arrives:
  assumes "json_host h" and "workspace_ok h w"
  shows "arrives carry (workspaceEntries h w) ''id'' dec_string (w_ID zeroWorkspace) = Some (w_ID w)"
    "arrives carry (workspaceEntries h w) ''kind'' dec_string (w_Kind zeroWorkspace) = Some (w_Kind w)"
    "arrives carry (workspaceEntries h w) ''path'' dec_string (w_Path zeroWorkspace) = Some (w_Path w)"
    "arrives carry (workspaceEntries h w) ''repoRoot'' dec_string (w_RepoRoot zeroWorkspace) = Some (w_RepoRoot w)"
    "arrives carry (workspaceEntries h w) ''branch'' dec_string (w_Branch zeroWorkspace) = Some (w_Branch w)"
    "arrives carry (workspaceEntries h w) ''sessionIds'' dec_strings (w_SessionIDs zeroWorkspace) = Some (w_SessionIDs w)"
    "arrives carry (workspaceEntries h w) ''source'' dec_string (w_Source zeroWorkspace) = Some (w_Source w)"
    "arrives carry (workspaceEntries h w) ''confidence'' dec_string (w_Confidence zeroWorkspace) = Some (w_Confidence w)"
    "arrives carry (workspaceEntries h w) ''observedAt'' (dec_time h) (w_ObservedAt zeroWorkspace) = Some (w_ObservedAt w)"
    "arrives carry (workspaceEntries h w) ''meta'' dec_meta (w_Meta zeroWorkspace) = Some (recv_meta h carry (w_Meta w))"
  using assms(2) [unfolded workspace_ok_def list.pred_inject]
  by (simp_all add: arrives_def workspaceEntries_def omitempty_def values_carried assms(1) zeroWorkspace_def
      empty_meta_carried)

lemma workspace_carried:
  assumes "json_host h" and "workspace_ok h w"
  shows "dec_workspace h (carry (enc_workspace h w)) = Some (w\<lparr>w_Meta := recv_meta h carry (w_Meta w)\<rparr>)"
proof -
  have "\<exists>r. dec_workspace h (carry (enc_workspace h w)) = Some r"
    unfolding enc_workspace_def dec_workspace_def
    by (rule struct_total [OF workspace_keys [OF assms(1)]])
      (use assms(2) [unfolded workspace_ok_def list.pred_inject] in \<open>simp add: workspaceEntries_def
        workspaceFields_def fld_def omitempty_def values_carried assms(1)\<close>)
  then obtain r where r: "dec_workspace h (carry (enc_workspace h w)) = Some r" by blast
  have "set (map fst (workspaceEntries h w)) \<subseteq> fst ` set (workspaceFields h)"
    by (simp add: workspaceEntries_def workspaceFields_def fld_def)
  note field = struct_field [OF workspace_keys [OF assms(1)] this r [unfolded enc_workspace_def dec_workspace_def]]
  have
    "Some (w_ID r) = Some (w_ID w)" "Some (w_Kind r) = Some (w_Kind w)"
    "Some (w_Path r) = Some (w_Path w)" "Some (w_RepoRoot r) = Some (w_RepoRoot w)"
    "Some (w_Branch r) = Some (w_Branch w)" "Some (w_SessionIDs r) = Some (w_SessionIDs w)"
    "Some (w_Source r) = Some (w_Source w)" "Some (w_Confidence r) = Some (w_Confidence w)"
    "Some (w_ObservedAt r) = Some (w_ObservedAt w)"
    "Some (w_Meta r) = Some (recv_meta h carry (w_Meta w))"
    by (simp_all only: reads_workspace [THEN field] workspace_arrives [OF assms])
  then have "r = (w\<lparr>w_Meta := recv_meta h carry (w_Meta w)\<rparr>)"
    by simp
  with r show ?thesis by simp
qed

lemma edge_arrives:
  assumes "json_host h" and "edge_ok h e"
  shows "arrives carry (edgeEntries h e) ''id'' dec_string (e_ID zeroEdge) = Some (e_ID e)"
    "arrives carry (edgeEntries h e) ''from'' dec_string (e_From zeroEdge) = Some (e_From e)"
    "arrives carry (edgeEntries h e) ''to'' dec_string (e_To zeroEdge) = Some (e_To e)"
    "arrives carry (edgeEntries h e) ''type'' dec_string (e_Type zeroEdge) = Some (e_Type e)"
    "arrives carry (edgeEntries h e) ''source'' dec_string (e_Source zeroEdge) = Some (e_Source e)"
    "arrives carry (edgeEntries h e) ''confidence'' dec_string (e_Confidence zeroEdge) = Some (e_Confidence e)"
    "arrives carry (edgeEntries h e) ''observedAt'' (dec_time h) (e_ObservedAt zeroEdge) = Some (e_ObservedAt e)"
  using assms(2) [unfolded edge_ok_def list.pred_inject]
  by (simp_all add: arrives_def edgeEntries_def omitempty_def values_carried assms(1) zeroEdge_def
      empty_meta_carried)

lemma edge_carried:
  assumes "json_host h" and "edge_ok h e"
  shows "dec_edge h (carry (enc_edge h e)) = Some e"
proof -
  have "\<exists>r. dec_edge h (carry (enc_edge h e)) = Some r"
    unfolding enc_edge_def dec_edge_def
    by (rule struct_total [OF edge_keys [OF assms(1)]])
      (use assms(2) [unfolded edge_ok_def list.pred_inject] in \<open>simp add: edgeEntries_def
        edgeFields_def fld_def omitempty_def values_carried assms(1)\<close>)
  then obtain r where r: "dec_edge h (carry (enc_edge h e)) = Some r" by blast
  have "set (map fst (edgeEntries h e)) \<subseteq> fst ` set (edgeFields h)"
    by (simp add: edgeEntries_def edgeFields_def fld_def)
  note field = struct_field [OF edge_keys [OF assms(1)] this r [unfolded enc_edge_def dec_edge_def]]
  have
    "Some (e_ID r) = Some (e_ID e)" "Some (e_From r) = Some (e_From e)"
    "Some (e_To r) = Some (e_To e)" "Some (e_Type r) = Some (e_Type e)"
    "Some (e_Source r) = Some (e_Source e)" "Some (e_Confidence r) = Some (e_Confidence e)"
    "Some (e_ObservedAt r) = Some (e_ObservedAt e)"
    by (simp_all only: reads_edge [THEN field] edge_arrives [OF assms])
  then have "r = e"
    by simp
  with r show ?thesis by simp
qed

lemma event_arrives:
  assumes "json_host h" and "event_ok h v"
  shows "arrives carry (eventEntries h v) ''seq'' dec_int (v_Seq zeroEvent) = Some (v_Seq v)"
    "arrives carry (eventEntries h v) ''type'' dec_string (v_Type zeroEvent) = Some (v_Type v)"
    "arrives carry (eventEntries h v) ''sessionId'' dec_string (v_SessionID zeroEvent) = Some (v_SessionID v)"
    "arrives carry (eventEntries h v) ''processId'' dec_string (v_ProcessID zeroEvent) = Some (v_ProcessID v)"
    "arrives carry (eventEntries h v) ''workspaceId'' dec_string (v_WorkspaceID zeroEvent) = Some (v_WorkspaceID v)"
    "arrives carry (eventEntries h v) ''edgeId'' dec_string (v_EdgeID zeroEvent) = Some (v_EdgeID v)"
    "arrives carry (eventEntries h v) ''summary'' dec_string (v_Summary zeroEvent) = Some (v_Summary v)"
    "arrives carry (eventEntries h v) ''source'' dec_string (v_Source zeroEvent) = Some (v_Source v)"
    "arrives carry (eventEntries h v) ''observedAt'' (dec_time h) (v_ObservedAt zeroEvent) = Some (v_ObservedAt v)"
    "arrives carry (eventEntries h v) ''data'' dec_meta (v_Data zeroEvent) = Some (recv_meta h carry (v_Data v))"
  using assms(2) [unfolded event_ok_def list.pred_inject]
  by (simp_all add: arrives_def eventEntries_def omitempty_def values_carried assms(1) zeroEvent_def
      empty_meta_carried)

lemma event_carried:
  assumes "json_host h" and "event_ok h v"
  shows "dec_event h (carry (enc_event h v)) = Some (v\<lparr>v_Data := recv_meta h carry (v_Data v)\<rparr>)"
proof -
  have "\<exists>r. dec_event h (carry (enc_event h v)) = Some r"
    unfolding enc_event_def dec_event_def
    by (rule struct_total [OF event_keys [OF assms(1)]])
      (use assms(2) [unfolded event_ok_def list.pred_inject] in \<open>simp add: eventEntries_def
        eventFields_def fld_def omitempty_def values_carried assms(1)\<close>)
  then obtain r where r: "dec_event h (carry (enc_event h v)) = Some r" by blast
  have "set (map fst (eventEntries h v)) \<subseteq> fst ` set (eventFields h)"
    by (simp add: eventEntries_def eventFields_def fld_def)
  note field = struct_field [OF event_keys [OF assms(1)] this r [unfolded enc_event_def dec_event_def]]
  have
    "Some (v_Seq r) = Some (v_Seq v)" "Some (v_Type r) = Some (v_Type v)"
    "Some (v_SessionID r) = Some (v_SessionID v)" "Some (v_ProcessID r) = Some (v_ProcessID v)"
    "Some (v_WorkspaceID r) = Some (v_WorkspaceID v)" "Some (v_EdgeID r) = Some (v_EdgeID v)"
    "Some (v_Summary r) = Some (v_Summary v)" "Some (v_Source r) = Some (v_Source v)"
    "Some (v_ObservedAt r) = Some (v_ObservedAt v)"
    "Some (v_Data r) = Some (recv_meta h carry (v_Data v))"
    by (simp_all only: reads_event [THEN field] event_arrives [OF assms])
  then have "r = (v\<lparr>v_Data := recv_meta h carry (v_Data v)\<rparr>)"
    by simp
  with r show ?thesis by simp
qed

end

section \<open>A concrete host\<close>

text \<open>ASCII text, integers and times printed in decimal.\<close>

definition wireHost :: host where
  "wireHost = bareHost\<lparr>format_time := Itoa,
     parse_time := (\<lambda>s. case Atoi s of (n, ok) \<Rightarrow> if ok then Some n else None)\<rparr>"

lemma wireHost_clean [simp]:
  "clean wireHost s" "list_all (clean wireHost) xs" "json_host wireHost"
  by (simp_all add: wireHost_def bareHost_def clean_def json_host_def list_all_iff)

lemma wireHost_int [simp]:
  "min_int64 \<le> n \<Longrightarrow> n \<le> max_int64 \<Longrightarrow> clean_int wireHost n"
  "min_int64 \<le> n \<Longrightarrow> n \<le> max_int64 \<Longrightarrow> clean_time wireHost n"
  by (simp_all add: clean_int_def clean_time_def) (simp_all add: wireHost_def bareHost_def Atoi_Itoa)

end
