(* ===== verification/Client.thy ===== *)
theory Client
  imports Wire Handle_Props Ipc
begin

text \<open>
  The client, \<open>internal/client/client.go\<close>. The other end of a connection is a function
  \<open>peer\<close> from a request document and a state to what arrives back, or to the error of writing
  the request; \<open>daemonPeer\<close> is the daemon's \<open>ServeConn\<close>. A decoder of the result stands
  for the Go value the caller passes; a caller that passes nil has the decoder that accepts everything.
  Encoding never fails on the values that occur.
\<close>

section \<open>Replies\<close>

text \<open>What the client decodes of a response and of a notification.\<close>

record Reply =
  rp_JSONRPC :: string
  rp_ID :: "json option"
  rp_Result :: goval
  rp_Error :: "RpcError option"

definition zeroReply :: Reply where
  "zeroReply = \<lparr>rp_JSONRPC = '''', rp_ID = None, rp_Result = GNil, rp_Error = None\<rparr>"

definition dec_any :: "goval \<Rightarrow> json \<Rightarrow> goval option" where
  "dec_any cur j = Some (goval_of j)"

definition errorFields :: "RpcError field list" where
  "errorFields =
     [fld ''code'' dec_int r_Code r_Code_update, fld ''message'' dec_string r_Message r_Message_update]"

definition zeroError :: RpcError where
  "zeroError = \<lparr>r_Code = 0, r_Message = ''''\<rparr>"

definition dec_error_ptr :: "RpcError option \<Rightarrow> json \<Rightarrow> RpcError option option" where
  "dec_error_ptr cur j =
     (case j of
        JNull \<Rightarrow> Some None
      | _ \<Rightarrow> map_option Some (decode_struct errorFields (case cur of None \<Rightarrow> zeroError | Some e \<Rightarrow> e) j))"

definition replyFields :: "Reply field list" where
  "replyFields =
     [fld ''jsonrpc'' dec_string rp_JSONRPC rp_JSONRPC_update,
      fld ''id'' dec_raw rp_ID rp_ID_update,
      fld ''result'' dec_any rp_Result rp_Result_update,
      fld ''error'' dec_error_ptr rp_Error rp_Error_update]"

record Note =
  nt_JSONRPC :: string
  nt_Method :: string
  nt_Params :: goval

definition zeroNote :: Note where
  "zeroNote = \<lparr>nt_JSONRPC = '''', nt_Method = '''', nt_Params = GNil\<rparr>"

definition noteFields :: "Note field list" where
  "noteFields =
     [fld ''jsonrpc'' dec_string nt_JSONRPC nt_JSONRPC_update,
      fld ''method'' dec_string nt_Method nt_Method_update,
      fld ''params'' dec_any nt_Params nt_Params_update]"

section \<open>Calls\<close>

record Client =
  cl_next :: int

definition newClient :: Client where
  "newClient = \<lparr>cl_next = 1\<rparr>"

text \<open>A client together with its connection, and the address that was dialled.\<close>

definition DialTimeout ::
  "(string \<Rightarrow> time \<Rightarrow> string + 'c) \<Rightarrow> sys \<Rightarrow> time \<Rightarrow> (string + 'c \<times> Client) \<times> string" where
  "DialTimeout dial y timeout =
     (case DialDefaultTimeout dial y timeout of
        (Inl err, address) \<Rightarrow> (Inl err, address)
      | (Inr conn, address) \<Rightarrow> (Inr (conn, newClient), address))"

definition Dial :: "(string \<Rightarrow> time \<Rightarrow> string + 'c) \<Rightarrow> sys \<Rightarrow> (string + 'c \<times> Client) \<times> string" where
  "Dial dial y = DialTimeout dial y 1000000000"

definition decodeReply :: "host \<Rightarrow> incoming \<Rightarrow> string + Reply" where
  "decodeReply h i =
     (case i of
        EOF \<Rightarrow> Inl ''EOF''
      | Malformed err \<Rightarrow> Inl err
      | Value j \<Rightarrow>
          (case decode_struct replyFields zeroReply j of
             None \<Rightarrow> Inl (unmarshal_error h ''response'' j)
           | Some rep \<Rightarrow> Inr rep))"

definition Call ::
  "host \<Rightarrow> (json \<Rightarrow> 's \<Rightarrow> (string + incoming) \<times> 's) \<Rightarrow> string \<Rightarrow> json option \<Rightarrow>
     (json \<Rightarrow> 'a option) \<Rightarrow> Client \<Rightarrow> 's \<Rightarrow> (string + 'a) \<times> Client \<times> 's" where
  "Call h peer method params dec c s =
     (let req = \<lparr>q_JSONRPC = ''2.0'', q_ID = Some (enc_int (cl_next c)), q_Method = method,
            q_Params = params\<rparr>;
          c = c\<lparr>cl_next := wrap64 (cl_next c + 1)\<rparr>
      in case peer (enc_request h req) s of
           (Inl err, s) \<Rightarrow> (Inl err, c, s)
         | (Inr i, s) \<Rightarrow>
             (case decodeReply h i of
                Inl err \<Rightarrow> (Inl err, c, s)
              | Inr resp \<Rightarrow>
                  (case rp_Error resp of
                     Some e \<Rightarrow> (Inl (r_Message e), c, s)
                   | None \<Rightarrow>
                       (case dec (json_of h (rp_Result resp)) of
                          None \<Rightarrow> (Inl (unmarshal_error h method (json_of h (rp_Result resp))), c, s)
                        | Some r \<Rightarrow> (Inr r, c, s)))))"

section \<open>Subscriptions\<close>

definition subscribeRequest :: "int \<Rightarrow> Client \<Rightarrow> Request \<times> Client" where
  "subscribeRequest since c =
     (\<lparr>q_JSONRPC = ''2.0'', q_ID = Some (enc_int (cl_next c)), q_Method = ''events/subscribe'',
        q_Params = Some (JObj [(''since'', enc_int since)])\<rparr>,
      c\<lparr>cl_next := wrap64 (cl_next c + 1)\<rparr>)"

text \<open>The goroutine that turns notifications into events, over what arrives on the connection.\<close>

fun readEvents :: "host \<Rightarrow> incoming list \<Rightarrow> Event list" where
  "readEvents h (Value j # is) =
     (case decode_struct noteFields zeroNote j of
        None \<Rightarrow> []
      | Some notif \<Rightarrow>
          if nt_Method notif \<noteq> ''events/event'' then readEvents h is
          else (case dec_event h (json_of h (nt_Params notif)) of
                  None \<Rightarrow> readEvents h is
                | Some event \<Rightarrow> event # readEvents h is))"
| "readEvents h is = []"

definition SubscribeEvents :: "host \<Rightarrow> incoming list \<Rightarrow> string + Event list" where
  "SubscribeEvents h is =
     (case is of
        [] \<Rightarrow> Inl ''EOF''
      | i # is \<Rightarrow>
          (case decodeReply h i of
             Inl err \<Rightarrow> Inl err
           | Inr resp \<Rightarrow>
               (case rp_Error resp of Some e \<Rightarrow> Inl (r_Message e) | None \<Rightarrow> Inr (readEvents h is))))"

section \<open>The daemon at the other end\<close>

definition daemonPeer :: "host \<Rightarrow> Handler \<Rightarrow> json \<Rightarrow> World \<Rightarrow> (string + incoming) \<times> World" where
  "daemonPeer h hr j w =
     (case ServeConn h hr [(Value j, True)] w of
        (rs, _, w) \<Rightarrow> (Inr (case rs of [] \<Rightarrow> EOF | r # _ \<Rightarrow> Value (enc_response h r)), w))"

text \<open>The codes \<open>Handle\<close> uses.\<close>

lemma withParams_code:
  assumes "withParams p body w = (Inl e, w')" and "\<And>r. body r w = (Inl e, w') \<Longrightarrow> \<bar>r_Code e\<bar> \<le> 2 ^ 53"
  shows "\<bar>r_Code e\<bar> \<le> 2 ^ 53"
  using assms by (cases p) (auto simp: withParams_def invalidParams_def error_code_defs)

lemma Handle_error_code:
  assumes "Handle h hr method params w = (Inl e, w')"
  shows "\<bar>r_Code e\<bar> \<le> 2 ^ 53"
proof -
  have "list_all (\<lambda>(n, f). \<forall>w e w'. f w = (Inl e, w') \<longrightarrow> \<bar>r_Code e\<bar> \<le> 2 ^ 53) (methods h hr params)"
    unfolding methods_def list.pred_inject prod.case
    by (intro conjI allI impI TrueI; (erule withParams_code)?)
      (auto simp: method_defs answers_def found_def notFound_def internalErr_def invalidParams_def
        error_code_defs sessionsList_def processesList_def processesGet_def Let_def
        split: if_splits option.splits sum.splits prod.splits)
  then show ?thesis
    using assms unfolding Handle_def list_all_iff
    by (force simp: error_code_defs split: option.splits dest!: map_of_SomeD)
qed

lemma request_arrives:
  assumes "json_host h" and "clean h (q_Method req)" and "q_JSONRPC req = ''2.0''"
  shows "decodeRequest h (Value (enc_request h req)) = Inr req"
proof -
  have "coerce_text h ''2.0'' = ''2.0''"
    using clean_ascii [OF assms(1), of "''2.0''"] by (simp add: clean_def ascii_char_def)
  with assms(2,3) show ?thesis
    by (cases "q_ID req"; cases "q_Params req")
      (simp_all add: enc_request_def present_Cons omitempty_def decode_struct_def field_for_def
        requestFields_def fld_def enc_string_def dec_string_def dec_raw_def clean_def zeroRequest_def)
qed

lemma error_arrives:
  assumes "\<bar>r_Code e\<bar> \<le> 2 ^ 53"
  shows "dec_error_ptr None (enc_error h e) = Some (Some (e\<lparr>r_Message := coerce_text h (r_Message e)\<rparr>))"
proof -
  have "Atoi (Itoa (r_Code e)) = (r_Code e, True)"
    using assms by (intro Atoi_Itoa) (simp_all add: min_int64_def max_int64_def abs_le_iff)
  then show ?thesis
    by (simp add: dec_error_ptr_def enc_error_def decode_struct_def field_for_def errorFields_def fld_def
        enc_int_def dec_int_def enc_string_def dec_string_def zeroError_def)
qed

text \<open>The reply a client decodes from the response to a request.\<close>

lemma reply_arrives:
  assumes "\<And>e. r = Inl e \<Longrightarrow> \<bar>r_Code e\<bar> \<le> 2 ^ 53"
  shows "\<exists>resp. decodeReply h (Value (enc_response h (responseTo req r))) = Inr resp \<and>
    (case r of
       Inl e \<Rightarrow> rp_Error resp = Some (e\<lparr>r_Message := coerce_text h (r_Message e)\<rparr>)
     | Inr x \<Rightarrow> rp_Error resp = None \<and> rp_Result resp = goval_of (enc_result h x))"
  using assms
  by (cases r; cases "q_ID req")
    (simp_all add: decodeReply_def enc_response_def responseTo_def present_Cons decode_struct_def
      field_for_def replyFields_def fld_def dec_raw_def dec_any_def error_arrives dec_string_def
      enc_string_def zeroReply_def)

section \<open>A call is a call of the handler\<close>

text \<open>The value a caller gets for an answer of the handler.\<close>

definition received :: "host \<Rightarrow> string \<Rightarrow> (json \<Rightarrow> 'a option) \<Rightarrow> RpcError + result \<Rightarrow> string + 'a" where
  "received h method dec r =
     (case r of
        Inl e \<Rightarrow> Inl (coerce_text h (r_Message e))
      | Inr x \<Rightarrow>
          (case dec (relay h (enc_result h x)) of
             None \<Rightarrow> Inl (unmarshal_error h method (relay h (enc_result h x)))
           | Some v \<Rightarrow> Inr v))"

lemma call_daemon:
  assumes "json_host h" and "clean h method" and "method \<noteq> ''events/subscribe''"
  shows "Call h (daemonPeer h hr) method params dec c w =
    (received h method dec (fst (Handle h hr method params w)), c\<lparr>cl_next := wrap64 (cl_next c + 1)\<rparr>,
     snd (Handle h hr method params w))"
proof -
  define req where "req = \<lparr>q_JSONRPC = ''2.0'', q_ID = Some (enc_int (cl_next c)), q_Method = method,
    q_Params = params\<rparr>"
  obtain r w' where H: "Handle h hr method params w = (r, w')" by fastforce
  have "decodeRequest h (Value (enc_request h req)) = Inr req"
    using assms(1,2) by (intro request_arrives) (simp_all add: req_def)
  then have peer: "daemonPeer h hr (enc_request h req) w = (Inr (Value (enc_response h (responseTo req r))), w')"
    using assms(3) H by (simp add: daemonPeer_def req_def)
  have "\<And>e. r = Inl e \<Longrightarrow> \<bar>r_Code e\<bar> \<le> 2 ^ 53"
    using Handle_error_code H by blast
  from reply_arrives [OF this, where h = h and req = req] obtain resp where resp:
    "decodeReply h (Value (enc_response h (responseTo req r))) = Inr resp"
    "case r of
       Inl e \<Rightarrow> rp_Error resp = Some (e\<lparr>r_Message := coerce_text h (r_Message e)\<rparr>)
     | Inr x \<Rightarrow> rp_Error resp = None \<and> rp_Result resp = goval_of (enc_result h x)"
    by blast
  show ?thesis
    unfolding Call_def req_def [symmetric] Let_def peer
    using resp H by (cases r) (simp_all add: received_def relay_def split: option.splits)
qed

text \<open>
  C13. A client's call is a call of the daemon's handler: when the peer is the daemon, \<open>Call\<close>
  leaves the daemon in the state \<open>Handle\<close> leaves it in and returns the handler's error message, or
  the handler's result after its passage through JSON and \<open>interface{}\<close>. Encoding the request,
  decoding it, encoding the response and decoding it lose nothing else.\<close>

theorem client_call_handles:
  assumes "json_host h" and "clean h method" and "method \<noteq> ''events/subscribe''"
    and "Handle h hr method params w = (r, w')"
  shows "Call h (daemonPeer h hr) method params dec c w =
    ((case r of
        Inl e \<Rightarrow> Inl (coerce_text h (r_Message e))
      | Inr x \<Rightarrow>
          (case dec (relay h (enc_result h x)) of
             None \<Rightarrow> Inl (unmarshal_error h method (relay h (enc_result h x)))
           | Some v \<Rightarrow> Inr v)),
     c\<lparr>cl_next := wrap64 (cl_next c + 1)\<rparr>, w')"
  using call_daemon [OF assms(1-3), of hr params dec c w] assms(4) by (simp add: received_def)

lemma example_health:
  "Handle wireHost exampleHandler ''health/check'' None w = (Inr (RText ''status'' ''ok''), w)"
  by (simp add: Handle_def methods_def)

theorem client_call_handles_witness:
  "fst (Call wireHost (daemonPeer wireHost exampleHandler) ''health/check'' None (\<lambda>j. Some j) newClient
     (exampleWorld [] New)) = Inr (JObj [(''status'', JStr ''ok'')])"
proof -
  have "relay wireHost (enc_result wireHost (RText ''status'' ''ok'')) = JObj [(''status'', JStr ''ok'')]"
    by (simp add: relay_def enc_result_def enc_string_def put_all_def gm_put_def sort_slice_def wireHost_def
        bareHost_def)
  then show ?thesis
    by (simp add: client_call_handles [OF wireHost_clean(3,1) _ example_health])
qed

text \<open>
  C14. A session survives the wire in both directions. As the parameter of a request it is decoded to
  itself; as the result of a call, where it is decoded into an \<open>interface{}\<close> and encoded once more,
  it is decoded to itself as well; only the dynamic values of its metadata are normalised, each at its
  own key. The fields left out by \<open>omitempty\<close> come back as their zero values.\<close>

theorem session_json_roundtrip:
  assumes "json_host h" and "session_ok h s"
  shows "dec_session h (enc_session h s) = Some (s\<lparr>s_Meta := recv_meta h (\<lambda>j. j) (s_Meta s)\<rparr>) \<and>
    dec_session h (relay h (enc_session h s)) = Some (s\<lparr>s_Meta := recv_meta h (relay h) (s_Meta s)\<rparr>) \<and>
    (\<forall>k. gm_get (recv_meta h (\<lambda>j. j) (s_Meta s)) k =
       map_option (\<lambda>v. goval_of (json_of h v)) (gm_get (s_Meta s) k)) \<and>
    (\<forall>k. gm_get (recv_meta h (relay h) (s_Meta s)) k =
       map_option (\<lambda>v. goval_of (relay h (json_of h v))) (gm_get (s_Meta s) k))"
proof -
  have "meta_ok h (s_Meta s)"
    using assms(2) by (simp add: session_ok_def)
  then show ?thesis
    using direct.session_carried [OF assms] relayed.session_carried [OF assms]
      direct.meta_carried(3) relayed.meta_carried(3) by simp
qed

theorem session_json_roundtrip_witness:
  "dec_session wireHost (relay wireHost (enc_session wireHost (zeroSession\<lparr>s_ID := ''a'', s_EndedAt := Some 5\<rparr>))) =
     Some (zeroSession\<lparr>s_ID := ''a'', s_EndedAt := Some 5\<rparr>)"
proof -
  have "session_ok wireHost (zeroSession\<lparr>s_ID := ''a'', s_EndedAt := Some 5\<rparr>)"
    by (simp add: session_ok_def agent_ok_def meta_ok_def zeroSession_def min_int64_def max_int64_def)
  from session_json_roundtrip [OF wireHost_clean(3) this] show ?thesis
    by (simp add: relayed.empty_meta_carried zeroSession_def)
qed

section \<open>Events arrive in order\<close>

lemma note_arrives:
  assumes "json_host h" and "event_ok h v"
  shows "readEvents h (Value (enc_notification h (notification v)) # is) =
    v\<lparr>v_Data := recv_meta h (relay h) (v_Data v)\<rparr> # readEvents h is"
proof -
  have ascii: "coerce_text h ''events/event'' = ''events/event''"
    using clean_ascii [OF assms(1), of "''events/event''"] by (simp add: clean_def ascii_char_def)
  have "decode_struct noteFields zeroNote (enc_notification h (notification v)) =
      Some \<lparr>nt_JSONRPC = coerce_text h ''2.0'', nt_Method = ''events/event'',
        nt_Params = goval_of (enc_event h v)\<rparr>"
    using ascii by (simp add: enc_notification_def notification_def present_Cons decode_struct_def
        field_for_def noteFields_def fld_def enc_string_def dec_string_def dec_any_def zeroNote_def)
  moreover have "dec_event h (json_of h (goval_of (enc_event h v))) =
      Some (v\<lparr>v_Data := recv_meta h (relay h) (v_Data v)\<rparr>)"
    using relayed.event_carried [OF assms] by (simp add: relay_def)
  ultimately show ?thesis by simp
qed

lemma notes_arrive:
  "json_host h \<Longrightarrow> list_all (event_ok h) vs \<Longrightarrow>
     readEvents h (map (\<lambda>v. Value (enc_notification h (notification v))) vs @ is) =
       map (\<lambda>v. v\<lparr>v_Data := recv_meta h (relay h) (v_Data v)\<rparr>) vs @ readEvents h is"
  by (induction vs) (simp_all add: note_arrives del: readEvents.simps)

text \<open>
  C32. A subscriber's stream: when the daemon accepts a subscription and then forwards events, the
  client delivers exactly these events in the order they were sent, until the connection ends; when the
  daemon refuses, the client returns the message of the refusal and no event.\<close>

theorem subscription_delivers:
  assumes "json_host h" and "list_all (event_ok h) vs"
  shows "SubscribeEvents h
      (Value (enc_response h (responseTo req (Inr subscribedResult))) #
       map (\<lambda>v. Value (enc_notification h (notification v))) vs @ [EOF]) =
      Inr (map (\<lambda>v. v\<lparr>v_Data := recv_meta h (relay h) (v_Data v)\<rparr>) vs) \<and>
    (\<forall>err rest. SubscribeEvents h (Value (enc_response h (responseTo req (Inl (invalidParams err)))) # rest) =
      Inl (coerce_text h err))"
proof
  obtain resp where "decodeReply h (Value (enc_response h (responseTo req (Inr subscribedResult)))) = Inr resp"
    "rp_Error resp = None"
    using reply_arrives [where r = "Inr subscribedResult" and h = h and req = req] by auto
  then show "SubscribeEvents h (Value (enc_response h (responseTo req (Inr subscribedResult))) #
       map (\<lambda>v. Value (enc_notification h (notification v))) vs @ [EOF]) =
      Inr (map (\<lambda>v. v\<lparr>v_Data := recv_meta h (relay h) (v_Data v)\<rparr>) vs)"
    by (simp add: SubscribeEvents_def notes_arrive [OF assms])
  show "\<forall>err rest. SubscribeEvents h
      (Value (enc_response h (responseTo req (Inl (invalidParams err)))) # rest) = Inl (coerce_text h err)"
  proof (intro allI)
    fix err rest
    have "\<bar>r_Code (invalidParams err)\<bar> \<le> 2 ^ 53"
      by (simp add: invalidParams_def ErrCodeInvalidParams_def)
    then obtain resp where
      "decodeReply h (Value (enc_response h (responseTo req (Inl (invalidParams err))))) = Inr resp"
      "rp_Error resp = Some ((invalidParams err)\<lparr>r_Message := coerce_text h err\<rparr>)"
      using reply_arrives [where r = "Inl (invalidParams err)" and h = h and req = req]
      by (auto simp: invalidParams_def)
    then show "SubscribeEvents h
        (Value (enc_response h (responseTo req (Inl (invalidParams err)))) # rest) = Inl (coerce_text h err)"
      by (simp add: SubscribeEvents_def)
  qed
qed

theorem subscription_delivers_witness:
  "SubscribeEvents wireHost
     (Value (enc_response wireHost (responseTo zeroRequest (Inr subscribedResult))) #
      map (\<lambda>v. Value (enc_notification wireHost (notification v))) [zeroEvent\<lparr>v_Seq := 1\<rparr>, zeroEvent\<lparr>v_Seq := 2\<rparr>] @
      [EOF]) = Inr [zeroEvent\<lparr>v_Seq := 1\<rparr>, zeroEvent\<lparr>v_Seq := 2\<rparr>]"
proof -
  have "list_all (event_ok wireHost) [zeroEvent\<lparr>v_Seq := 1\<rparr>, zeroEvent\<lparr>v_Seq := 2\<rparr>]"
    by (simp add: event_ok_def meta_ok_def zeroEvent_def min_int64_def max_int64_def)
  from subscription_delivers [OF wireHost_clean(3) this, of zeroRequest] show ?thesis
    by (simp add: relayed.empty_meta_carried zeroEvent_def)
qed

end
