(* ===== verification/Lifecycle.thy ===== *)
theory Lifecycle
  imports Client Ipc Flags "HOL-Library.Monad_Syntax"
begin

text \<open>
  \<open>score start\<close>, \<open>stop\<close> and \<open>status\<close>, \<open>cmd/score/lifecycle.go\<close>. A
  command runs against \<open>life\<close>, the answers of the operating system and of the daemon, and
  builds up a \<open>Trace\<close>: its effects in order and how many probes and clock readings it made. The
  answers are arbitrary functions. \<open>os.Exit\<close> ends a command: \<open>Exited code\<close>.
\<close>

section \<open>Environment and effects\<close>

record life =
  l_sys :: sys
  l_clock :: "nat \<Rightarrow> time"                 \<comment> \<open>successive readings of \<open>time.Now\<close>\<close>
  l_dial :: "nat \<Rightarrow> string option"        \<comment> \<open>error of \<open>DialTimeout\<close> in successive calls of \<open>daemonInfo\<close>\<close>
  l_peer :: "nat \<Rightarrow> json \<Rightarrow> string + incoming" \<comment> \<open>the other end of each of these connections\<close>
  l_sprint :: "goval option \<Rightarrow> string"    \<comment> \<open>\<open>fmt\<close>'s text of a map entry under \<open>%v\<close>\<close>
  l_dialStop :: "string option"           \<comment> \<open>error of \<open>Dial\<close> in \<open>runStop\<close>\<close>
  l_peerStop :: "json \<Rightarrow> string + incoming"
  l_executable :: "string option"         \<comment> \<open>\<open>os.Executable\<close>\<close>
  l_dir :: "string \<Rightarrow> string"             \<comment> \<open>\<open>filepath.Dir\<close> on Windows\<close>
  l_stat :: "string \<Rightarrow> (bool \<times> nat) option" \<comment> \<open>\<open>os.Stat\<close>: is a directory, mode\<close>
  l_lookPath :: "string \<Rightarrow> string option" \<comment> \<open>\<open>exec.LookPath\<close>\<close>
  l_mkdir :: "string \<Rightarrow> string option"    \<comment> \<open>error of \<open>os.MkdirAll\<close>\<close>
  l_open :: "string \<Rightarrow> string option"     \<comment> \<open>error of opening the log\<close>
  l_start :: "string \<Rightarrow> string + int"     \<comment> \<open>\<open>cmd.Start\<close>: its error or the new PID\<close>
  l_write :: "string \<Rightarrow> string option"    \<comment> \<open>error of \<open>os.WriteFile\<close>\<close>
  l_read :: "string \<Rightarrow> string + string"   \<comment> \<open>\<open>os.ReadFile\<close>\<close>
  l_signal :: "int \<Rightarrow> string option"      \<comment> \<open>error of \<open>FindProcess\<close> and \<open>Signal\<close> or \<open>Kill\<close>\<close>

datatype effect =
    Stdout string
  | PrintJSON goval
  | Stderr string
  | Remove string
  | MkdirAll string nat
  | OpenLog string nat
  | StartProcess string
  | WriteFile string string nat
  | Interrupt int
  | Kill int

record Trace =
  effects :: "effect list"
  probes :: nat
  reads :: nat

datatype outcome = Returned | Exited int

definition emit :: "effect \<Rightarrow> Trace \<Rightarrow> Trace" where
  "emit e t = t\<lparr>effects := effects t @ [e]\<rparr>"

definition nl :: string where
  "nl = [CHR 0x0A]"

definition die :: "string \<Rightarrow> Trace \<Rightarrow> outcome \<times> Trace" where
  "die err t = (Exited 1, emit (Stderr (''score: '' @ err @ nl)) t)"

definition millisecond :: time where
  "millisecond = 1000000"

definition second :: time where
  "second = 1000 * millisecond"

section \<open>Paths\<close>

definition executableName :: "life \<Rightarrow> string \<Rightarrow> string" where
  "executableName y name = (if goos_of (l_sys y) = Windows then name @ ''.exe'' else name)"

definition isExecutable :: "life \<Rightarrow> string \<Rightarrow> bool" where
  "isExecutable y path =
     (case l_stat y path of
        None \<Rightarrow> False
      | Some (isDir, mode) \<Rightarrow>
          if isDir then False
          else if goos_of (l_sys y) = Windows then True
          else and mode 73 \<noteq> 0)"

definition joinPath :: "life \<Rightarrow> string \<Rightarrow> string \<Rightarrow> string" where
  "joinPath y a b = (if goos_of (l_sys y) = Windows then win_join (l_sys y) a b else JoinPath [a, b])"

definition dirPath :: "life \<Rightarrow> string \<Rightarrow> string" where
  "dirPath y p = (if goos_of (l_sys y) = Windows then l_dir y p else Dir p)"

definition findScored :: "life \<Rightarrow> string + string" where
  "findScored y =
     (let candidate = map_option (\<lambda>exe. joinPath y (dirPath y exe) (executableName y ''scored''))
            (l_executable y)
      in case candidate of
           Some c \<Rightarrow>
             if isExecutable y c then Inr c
             else if isExecutable y (executableName y ''scored'')
             then Inr (''./'' @ executableName y ''scored'')
             else (case l_lookPath y ''scored'' of
                     Some path \<Rightarrow> Inr path
                   | None \<Rightarrow> Inl ''cannot find scored; build it with: go build -o scored ./cmd/scored'')
         | None \<Rightarrow>
             if isExecutable y (executableName y ''scored'')
             then Inr (''./'' @ executableName y ''scored'')
             else (case l_lookPath y ''scored'' of
                     Some path \<Rightarrow> Inr path
                   | None \<Rightarrow> Inl ''cannot find scored; build it with: go build -o scored ./cmd/scored''))"

definition lifecyclePaths :: "life \<Rightarrow> string \<times> string" where
  "lifecyclePaths y =
     (if goos_of (l_sys y) = Windows
      then (win_join (l_sys y) (temp_dir (l_sys y)) ''score-daemon.pid'',
            win_join (l_sys y) (temp_dir (l_sys y)) ''score-daemon.log'')
      else let address = DefaultAddress (l_sys y);
               base = TrimSuffix address (Ext (sys_host (l_sys y)) address)
           in (base @ ''.pid'', base @ ''.log''))"

definition pidPath :: "life \<Rightarrow> string" where
  "pidPath y = fst (lifecyclePaths y)"

definition readPid :: "life \<Rightarrow> string + int" where
  "readPid y =
     (case l_read y (pidPath y) of
        Inl err \<Rightarrow> Inl err
      | Inr data \<Rightarrow>
          (case Atoi (TrimSpace data) of
             (pid, ok) \<Rightarrow> if ok then Inr pid else Inl ''invalid syntax''))"

definition removeStaleSocket :: "life \<Rightarrow> Trace \<Rightarrow> Trace" where
  "removeStaleSocket y t =
     (if goos_of (l_sys y) = Windows then t
      else let address = DefaultAddress (l_sys y)
           in if Ext (sys_host (l_sys y)) address = ''.sock'' then emit (Remove address) t else t)"

section \<open>Talking to the daemon\<close>

definition dec_map :: "json \<Rightarrow> gometa option" where
  "dec_map j = dec_meta [] j"

text \<open>\<open>daemonInfo\<close>, the n-th time it is called: the decoded answer, or \<open>None\<close> for false.\<close>

definition daemonInfo :: "life \<Rightarrow> nat \<Rightarrow> gometa option" where
  "daemonInfo y n =
     (case l_dial y n of
        Some err \<Rightarrow> None
      | None \<Rightarrow>
          (case Call (sys_host (l_sys y)) (\<lambda>j s. (l_peer y n j, s)) ''daemon/info'' None dec_map newClient () of
             (Inl err, _) \<Rightarrow> None
           | (Inr info, _) \<Rightarrow> Some info))"

definition dec_bools :: "json \<Rightarrow> (string \<times> bool) list option" where
  "dec_bools j =
     (case j of
        JNull \<Rightarrow> Some []
      | JObj kvs \<Rightarrow> those (map (\<lambda>(k, v). map_option (Pair k) (dec_bool False v)) kvs)
      | _ \<Rightarrow> None)"

text \<open>\<open>usedAPI\<close> of \<open>runStop\<close>: the daemon could be reached and accepted \<open>daemon/shutdown\<close>.\<close>

definition usedAPI :: "life \<Rightarrow> bool" where
  "usedAPI y =
     (case l_dialStop y of
        Some err \<Rightarrow> False
      | None \<Rightarrow>
          (case Call (sys_host (l_sys y)) (\<lambda>j s. (l_peerStop y j, s)) ''daemon/shutdown'' None dec_bools newClient () of
             (Inl err, _) \<Rightarrow> False
           | (Inr _, _) \<Rightarrow> True))"

definition probeInfo :: "life \<Rightarrow> Trace \<Rightarrow> gometa option \<times> Trace" where
  "probeInfo y t = (daemonInfo y (probes t), t\<lparr>probes := Suc (probes t)\<rparr>)"

definition readClock :: "life \<Rightarrow> Trace \<Rightarrow> time \<times> Trace" where
  "readClock y t = (l_clock y (reads t), t\<lparr>reads := Suc (reads t)\<rparr>)"

text \<open>The loop of \<open>waitForDaemon\<close>; it need not end unless the clock advances.\<close>

partial_function (option) waitLoop :: "life \<Rightarrow> bool \<Rightarrow> time \<Rightarrow> Trace \<Rightarrow> (bool \<times> Trace) option" where
  "waitLoop y wantRunning deadline t =
     (case readClock y t of
        (now, t) \<Rightarrow>
          if Before now deadline
          then (case probeInfo y t of
                  (info, t) \<Rightarrow>
                    if (info \<noteq> None) = wantRunning then Some (True, t)
                    else waitLoop y wantRunning deadline t)
          else Some (False, t))"

text \<open>\<open>waitForDaemon\<close>: the error, or \<open>None\<close> for nil.\<close>

definition waitForDaemon :: "life \<Rightarrow> bool \<Rightarrow> time \<Rightarrow> Trace \<Rightarrow> (string option \<times> Trace) option" where
  "waitForDaemon y wantRunning timeout t =
     (case readClock y t of
        (now, t) \<Rightarrow>
          map_option (\<lambda>(ok, t).
            (if ok then None
             else Some (if wantRunning then ''daemon is not reachable'' else ''daemon is still reachable''),
             t)) (waitLoop y wantRunning (now + timeout) t))"

definition signalProcess :: "life \<Rightarrow> int \<Rightarrow> Trace \<Rightarrow> string option \<times> Trace" where
  "signalProcess y pid t =
     (l_signal y pid, emit (if goos_of (l_sys y) = Windows then Kill pid else Interrupt pid) t)"

definition killProcess :: "int \<Rightarrow> Trace \<Rightarrow> Trace" where
  "killProcess pid t = emit (Kill pid) t"

section \<open>The commands\<close>

definition startFlags :: flagset where
  "startFlags = [(''scored'', FString)]"

text \<open>\<open>runStart\<close> once the daemon has been started: pid file, then wait.\<close>

definition afterStart :: "life \<Rightarrow> int \<Rightarrow> Trace \<Rightarrow> (outcome \<times> Trace) option" where
  "afterStart y pid t =
     (let t = emit (WriteFile (pidPath y) (Itoa pid @ nl) 384) t
      in case l_write y (pidPath y) of
           Some err \<Rightarrow> Some (die err (emit (Kill pid) t))
         | None \<Rightarrow>
             map_option (\<lambda>(err, t).
               case err of
                 Some e \<Rightarrow>
                   die (''scored started pid='' @ Itoa pid @ '' but did not become reachable: '' @ e @
                     ''; log='' @ snd (lifecyclePaths y)) t
               | None \<Rightarrow>
                   (Returned, emit (Stdout (''scored started pid='' @ Itoa pid @ '' socket='' @
                     DefaultAddress (l_sys y) @ '' log='' @ snd (lifecyclePaths y) @ nl)) t))
               (waitForDaemon y True (5 * second) t))"

definition launch :: "life \<Rightarrow> string \<Rightarrow> Trace \<Rightarrow> (outcome \<times> Trace) option" where
  "launch y path t =
     (let dir = dirPath y (pidPath y); t = emit (MkdirAll dir 448) t
      in case l_mkdir y dir of
           Some err \<Rightarrow> Some (die err t)
         | None \<Rightarrow>
             (let logPath = snd (lifecyclePaths y); t = emit (OpenLog logPath 384) t
              in case l_open y logPath of
                   Some err \<Rightarrow> Some (die err t)
                 | None \<Rightarrow>
                     (let t = emit (StartProcess path) t
                      in case l_start y path of
                           Inl err \<Rightarrow> Some (die err t)
                         | Inr pid \<Rightarrow> afterStart y pid t)))"

definition runStart :: "life \<Rightarrow> string list \<Rightarrow> Trace \<Rightarrow> (outcome \<times> Trace) option" where
  "runStart y args t =
     (case parseFlags startFlags (\<lambda>_. None) [] args of
        Inl err \<Rightarrow> Some (Exited (flag_exit err), t)
      | Inr (vs, _) \<Rightarrow>
          (case probeInfo y t of
             (Some info, t) \<Rightarrow>
               Some (Returned, emit (Stdout (''scored already running pid='' @
                 l_sprint y (gm_get info ''pid'') @ '' socket='' @ DefaultAddress (l_sys y) @ nl)) t)
           | (None, t) \<Rightarrow>
               (let t = removeStaleSocket y t; path = flag_string '''' vs ''scored''
                in if path \<noteq> '''' then launch y path t
                   else case findScored y of
                     Inl err \<Rightarrow> Some (die err t)
                   | Inr path \<Rightarrow> launch y path t)))"

text \<open>\<open>runStop\<close> from the wait on.\<close>

definition finishStop :: "life \<Rightarrow> Trace \<Rightarrow> (outcome \<times> Trace) option" where
  "finishStop y t =
     do {
       (err, t) \<leftarrow> waitForDaemon y False (5 * second) t;
       t \<leftarrow> (case err of
               None \<Rightarrow> Some t
             | Some _ \<Rightarrow>
                 (case readPid y of
                    Inl _ \<Rightarrow> Some t
                  | Inr pid \<Rightarrow> map_option snd (waitForDaemon y False (2 * second) (killProcess pid t))));
       Some (Returned, emit (Stdout (''scored stopped'' @ nl)) (emit (Remove (pidPath y)) t))
     }"

definition runStop :: "life \<Rightarrow> string list \<Rightarrow> Trace \<Rightarrow> (outcome \<times> Trace) option" where
  "runStop y args t =
     (case parseFlags [] (\<lambda>_. None) [] args of
        Inl err \<Rightarrow> Some (Exited (flag_exit err), t)
      | Inr _ \<Rightarrow>
          if usedAPI y then finishStop y t
          else (case readPid y of
                  Inl _ \<Rightarrow> Some (Returned, emit (Stdout (''scored is not running'' @ nl)) t)
                | Inr pid \<Rightarrow>
                    (case signalProcess y pid t of
                       (Some err, t) \<Rightarrow> Some (die err t)
                     | (None, t) \<Rightarrow> finishStop y t)))"

definition statusFlags :: flagset where
  "statusFlags = [(''json'', FBool)]"

definition statusValue :: "life \<Rightarrow> gometa option \<Rightarrow> goval" where
  "statusValue y info =
     GMap ([(''running'', GBool (info \<noteq> None)), (''socket'', GString (DefaultAddress (l_sys y))),
            (''pidFile'', GString (pidPath y))] @
           (case info of None \<Rightarrow> [] | Some m \<Rightarrow> [(''daemon'', GMap m)]))"

definition runStatus :: "life \<Rightarrow> string list \<Rightarrow> Trace \<Rightarrow> outcome \<times> Trace" where
  "runStatus y args t =
     (case parseFlags statusFlags (\<lambda>_. None) [] args of
        Inl err \<Rightarrow> (Exited (flag_exit err), t)
      | Inr (vs, _) \<Rightarrow>
          (case probeInfo y t of
             (info, t) \<Rightarrow>
               (Returned, emit
                 (if flag_bool vs ''json'' then PrintJSON (statusValue y info)
                  else case info of
                    None \<Rightarrow> Stdout (''scored stopped socket='' @ DefaultAddress (l_sys y) @ nl)
                  | Some m \<Rightarrow>
                      Stdout (''scored running pid='' @ l_sprint y (gm_get m ''pid'') @ '' socket='' @
                        DefaultAddress (l_sys y) @ '' startedAt='' @ l_sprint y (gm_get m ''startedAt'') @ nl)) t)))"

end
