(* ===== verification/Lifecycle_Props.thy ===== *)
theory Lifecycle_Props
  imports Lifecycle
begin

text \<open>
  What \<open>score start\<close> and \<open>score stop\<close> guarantee: the waiting loop ends when time passes
  and makes a bounded number of probes, a start that reports success has seen the daemon answer, a stop
  that reports success need not have seen it gone, the pid file reads back, and the files of the
  lifecycle are distinct from the socket unless \<open>SCORE_SOCKET\<close> makes them collide.
\<close>

section \<open>Bookkeeping\<close>

lemma emit_simps [simp]:
  "effects (emit e t) = effects t @ [e]"
  "probes (emit e t) = probes t"
  "reads (emit e t) = reads t"
  by (simp_all add: emit_def)

lemma die_eq: "die err t = (Exited 1, emit (Stderr (''score: '' @ err @ nl)) t)"
  by (simp add: die_def)

section \<open>The waiting loop\<close>

definition isUp :: "life \<Rightarrow> nat \<Rightarrow> bool" where
  "isUp y i \<longleftrightarrow> daemonInfo y i \<noteq> None"

lemma waitLoop_unfold:
  "waitLoop y want deadline t =
     (if l_clock y (reads t) < deadline
      then let t' = t\<lparr>reads := Suc (reads t), probes := Suc (probes t)\<rparr>
           in if isUp y (probes t) = want then Some (True, t')
              else waitLoop y want deadline t'
      else Some (False, t\<lparr>reads := Suc (reads t)\<rparr>))"
  by (subst waitLoop.simps) (simp add: readClock_def probeInfo_def Before_def Let_def isUp_def)

text \<open>
  If some later reading reaches the deadline the loop ends; it has then probed until an answer was
  the wanted one, or until a reading reached the deadline.
\<close>

lemma waitLoop_ends:
  assumes "deadline \<le> l_clock y (reads t + d)"
  shows "\<exists>k \<le> d. \<exists>ok. waitLoop y want deadline t =
       Some (ok, t\<lparr>reads := reads t + Suc k, probes := probes t + (if ok then Suc k else k)\<rparr>) \<and>
     (\<forall>i < k. isUp y (probes t + i) \<noteq> want) \<and>
     (\<forall>i < k. l_clock y (reads t + i) < deadline) \<and>
     (if ok then isUp y (probes t + k) = want \<and> l_clock y (reads t + k) < deadline
      else deadline \<le> l_clock y (reads t + k))"
  using assms
proof (induction d arbitrary: t)
  case 0
  then show ?case
    by (intro exI [of _ 0] exI [of _ False] conjI) (simp_all add: waitLoop_unfold [of y want deadline t])
next
  case (Suc d)
  let ?t = "t\<lparr>reads := Suc (reads t), probes := Suc (probes t)\<rparr>"
  show ?case
  proof (cases "l_clock y (reads t) < deadline")
    case False
    then show ?thesis
      by (intro exI [of _ 0] exI [of _ False] conjI) (simp_all add: waitLoop_unfold [of y want deadline t])
  next
    case before: True
    show ?thesis
    proof (cases "isUp y (probes t) = want")
      case True
      with before show ?thesis
        by (intro exI [of _ 0] exI [of _ True] conjI) (simp_all add: waitLoop_unfold [of y want deadline t])
    next
      case False
      have "deadline \<le> l_clock y (reads ?t + d)"
        using Suc.prems by simp
      from Suc.IH [OF this] obtain k ok where k: "k \<le> d"
        "waitLoop y want deadline ?t =
           Some (ok, ?t\<lparr>reads := reads ?t + Suc k, probes := probes ?t + (if ok then Suc k else k)\<rparr>)"
        "\<forall>i < k. isUp y (probes ?t + i) \<noteq> want"
        "\<forall>i < k. l_clock y (reads ?t + i) < deadline"
        "if ok then isUp y (probes ?t + k) = want \<and> l_clock y (reads ?t + k) < deadline
         else deadline \<le> l_clock y (reads ?t + k)"
        by blast
      have step: "waitLoop y want deadline t = waitLoop y want deadline ?t"
        using before False by (simp add: waitLoop_unfold [of y want deadline t])
      show ?thesis
      proof (intro exI [of _ "Suc k"] exI [of _ ok] conjI)
        show "waitLoop y want deadline t =
            Some (ok, t\<lparr>reads := reads t + Suc (Suc k),
              probes := probes t + (if ok then Suc (Suc k) else Suc k)\<rparr>)"
          using k(2) by (simp add: step)
        show "\<forall>i < Suc k. isUp y (probes t + i) \<noteq> want"
          using k(3) False by (auto simp: less_Suc_eq_0_disj)
        show "\<forall>i < Suc k. l_clock y (reads t + i) < deadline"
          using k(4) before by (auto simp: less_Suc_eq_0_disj)
        show "if ok then isUp y (probes t + Suc k) = want \<and>
              l_clock y (reads t + Suc k) < deadline
            else deadline \<le> l_clock y (reads t + Suc k)"
          using k(5) by (cases ok) simp_all
      qed (use k(1) in simp)
    qed
  qed
qed

text \<open>
  \<open>time.Sleep\<close>: a reading of the loop before the deadline is followed by one at least 100
  milliseconds later. The readings of a call that starts at \<open>t\<close> are those after the first.
\<close>

definition sleeps :: "life \<Rightarrow> time \<Rightarrow> Trace \<Rightarrow> bool" where
  "sleeps y timeout t \<longleftrightarrow>
     l_clock y (reads t) \<le> l_clock y (Suc (reads t)) \<and>
     (\<forall>k > reads t. l_clock y k < l_clock y (reads t) + timeout \<longrightarrow>
        l_clock y k + 100 * millisecond \<le> l_clock y (Suc k))"

lemma sleeps_lower:
  assumes "sleeps y timeout t"
    and "\<forall>i < k. l_clock y (Suc (reads t) + i) < l_clock y (reads t) + timeout"
  shows "l_clock y (reads t) + int k * (100 * millisecond) \<le> l_clock y (Suc (reads t) + k)"
  using assms(2)
proof (induction k)
  case (Suc k)
  then have "l_clock y (Suc (reads t) + k) + 100 * millisecond \<le> l_clock y (Suc (Suc (reads t) + k))"
    using assms(1) by (simp add: sleeps_def)
  moreover have "l_clock y (reads t) + int k * (100 * millisecond) \<le> l_clock y (Suc (reads t) + k)"
    using Suc by simp
  ultimately show ?case
    by (simp add: algebra_simps)
qed (use assms(1) in \<open>simp add: sleeps_def\<close>)

lemma sleeps_reaches:
  assumes "sleeps y timeout t"
  shows "\<exists>d. l_clock y (reads t) + timeout \<le> l_clock y (Suc (reads t) + d)"
proof (rule ccontr)
  assume never: "\<nexists>d. l_clock y (reads t) + timeout \<le> l_clock y (Suc (reads t) + d)"
  have "l_clock y (reads t) + int (nat timeout) * (100 * millisecond)
      \<le> l_clock y (Suc (reads t) + nat timeout)"
    using never by (intro sleeps_lower [OF assms]) (auto simp: not_le)
  moreover have "timeout \<le> int (nat timeout) * (100 * millisecond)"
    by (simp add: millisecond_def)
  ultimately show False
    using never by (metis add_left_mono order.trans)
qed

lemma waitForDaemon_eq:
  "waitForDaemon y want timeout t =
     map_option (\<lambda>(ok, t). (if ok then None
        else Some (if want then ''daemon is not reachable'' else ''daemon is still reachable''), t))
       (waitLoop y want (l_clock y (reads t) + timeout) (t\<lparr>reads := Suc (reads t)\<rparr>))"
  by (simp add: waitForDaemon_def readClock_def)

lemma waitForDaemon_ends:
  assumes "l_clock y (reads t) + timeout \<le> l_clock y (Suc (reads t) + d)"
  shows "\<exists>k ok. waitForDaemon y want timeout t =
       Some (if ok then None
             else Some (if want then ''daemon is not reachable'' else ''daemon is still reachable''),
         t\<lparr>reads := reads t + Suc (Suc k), probes := probes t + (if ok then Suc k else k)\<rparr>) \<and>
     (\<forall>i < k. isUp y (probes t + i) \<noteq> want) \<and>
     (\<forall>i < k. l_clock y (Suc (reads t) + i) < l_clock y (reads t) + timeout) \<and>
     (if ok then isUp y (probes t + k) = want \<and>
          l_clock y (Suc (reads t) + k) < l_clock y (reads t) + timeout
      else l_clock y (reads t) + timeout \<le> l_clock y (Suc (reads t) + k))"
proof -
  let ?t = "t\<lparr>reads := Suc (reads t)\<rparr>"
  from assms waitLoop_ends [of "l_clock y (reads t) + timeout" y ?t d want]
  obtain k ok where "waitLoop y want (l_clock y (reads t) + timeout) ?t =
       Some (ok, ?t\<lparr>reads := reads ?t + Suc k, probes := probes ?t + (if ok then Suc k else k)\<rparr>)"
    "\<forall>i < k. isUp y (probes ?t + i) \<noteq> want"
    "\<forall>i < k. l_clock y (reads ?t + i) < l_clock y (reads t) + timeout"
    "if ok then isUp y (probes ?t + k) = want \<and> l_clock y (reads ?t + k) < l_clock y (reads t) + timeout
     else l_clock y (reads t) + timeout \<le> l_clock y (reads ?t + k)"
    by auto
  then show ?thesis
    by (intro exI [of _ k] exI [of _ ok] conjI; cases ok) (simp_all add: waitForDaemon_eq)
qed


section \<open>The commands return\<close>

text \<open>Time passes: every instant is reached by readings arbitrarily far on.\<close>

definition time_passes :: "life \<Rightarrow> bool" where
  "time_passes y \<longleftrightarrow> (\<forall>instant n. \<exists>d. instant \<le> l_clock y (n + d))"

text \<open>
  What a wait returns when time passes: nil after a probe that showed the wanted state, or the error
  after probes none of which did; in both cases without an effect.
\<close>

lemma waitForDaemon_cases:
  assumes "time_passes y"
  obtains (Up) t' where "waitForDaemon y want timeout t = Some (None, t')"
      "effects t' = effects t" "probes t < probes t'" "isUp y (probes t' - 1) = want"
  | (Down) t' where "waitForDaemon y want timeout t =
        Some (Some (if want then ''daemon is not reachable'' else ''daemon is still reachable''), t')"
      "effects t' = effects t" "probes t \<le> probes t'"
      "\<And>i. probes t \<le> i \<Longrightarrow> i < probes t' \<Longrightarrow> isUp y i \<noteq> want"
proof -
  obtain d where "l_clock y (reads t) + timeout \<le> l_clock y (Suc (reads t) + d)"
    using assms unfolding time_passes_def by blast
  from waitForDaemon_ends [OF this, of want] obtain k ok where r:
    "waitForDaemon y want timeout t =
       Some (if ok then None
             else Some (if want then ''daemon is not reachable'' else ''daemon is still reachable''),
         t\<lparr>reads := reads t + Suc (Suc k), probes := probes t + (if ok then Suc k else k)\<rparr>)"
    and early: "\<forall>i < k. isUp y (probes t + i) \<noteq> want"
    and final: "ok \<Longrightarrow> isUp y (probes t + k) = want"
    by (metis (no_types, lifting))
  have early': "isUp y i \<noteq> want" if "probes t \<le> i" "i < probes t + k" for i
    using early that by (metis add_diff_inverse_nat add_less_cancel_left not_le)
  show thesis
  proof (cases ok)
    case True
    with r final show thesis
      by (intro Up [of "t\<lparr>reads := reads t + Suc (Suc k), probes := probes t + Suc k\<rparr>"]) auto
  next
    case False
    with r early' show thesis
      by (intro Down [of "t\<lparr>reads := reads t + Suc (Suc k), probes := probes t + k\<rparr>"]) auto
  qed
qed

lemma finishStop_returns:
  assumes "time_passes y"
  shows "\<exists>t'. finishStop y t = Some (Returned, t') \<and>
    (\<exists>es. effects t' = effects t @ es @ [Remove (pidPath y), Stdout (''scored stopped'' @ nl)] \<and>
       (es = [] \<or> (\<exists>pid. readPid y = Inr pid \<and> es = [Kill pid])))"
  using assms
proof (cases rule: waitForDaemon_cases [where want = False and timeout = "5 * second" and t = t])
  case (Up t1)
  then show ?thesis
    by (simp add: finishStop_def)
next
  case (Down t1)
  show ?thesis
  proof (cases "readPid y")
    case (Inl e)
    with Down show ?thesis by (simp add: finishStop_def)
  next
    case (Inr pid)
    have "\<exists>err t2. waitForDaemon y False (2 * second) (killProcess pid t1) = Some (err, t2) \<and>
        effects t2 = effects t1 @ [Kill pid]"
      by (rule waitForDaemon_cases [OF assms, where want = False and timeout = "2 * second"
            and t = "killProcess pid t1"]) (auto simp: killProcess_def)
    with Down Inr show ?thesis by (auto simp: finishStop_def)
  qed
qed

lemma afterStart_returns:
  assumes "time_passes y"
  obtains (Unwritten) err where "l_write y (pidPath y) = Some err"
      "afterStart y pid t = Some (die err (emit (Kill pid)
         (emit (WriteFile (pidPath y) (Itoa pid @ nl) 384) t)))"
  | (Reachable) t' out where "l_write y (pidPath y) = None"
      "afterStart y pid t = Some (Returned, emit (Stdout out) t')"
      "effects t' = effects t @ [WriteFile (pidPath y) (Itoa pid @ nl) 384]"
      "probes t < probes t'" "isUp y (probes t' - 1)"
  | (Unreachable) t' err where "l_write y (pidPath y) = None"
      "afterStart y pid t = Some (Exited 1, emit (Stderr err) t')"
      "effects t' = effects t @ [WriteFile (pidPath y) (Itoa pid @ nl) 384]"
      "\<And>i. probes t \<le> i \<Longrightarrow> i < probes t' \<Longrightarrow> \<not> isUp y i"
proof (cases "l_write y (pidPath y)")
  case (Some err)
  then show thesis by (intro Unwritten) (simp_all add: afterStart_def)
next
  case None
  let ?t = "emit (WriteFile (pidPath y) (Itoa pid @ nl) 384) t"
  show thesis
    using assms
  proof (cases rule: waitForDaemon_cases [where want = True and timeout = "5 * second" and t = ?t])
    case (Up t1)
    then show thesis using None by (intro Reachable) (auto simp: afterStart_def)
  next
    case (Down t1)
    then show thesis using None by (intro Unreachable) (auto simp: afterStart_def die_def)
  qed
qed

lemma launch_cases:
  assumes "time_passes y"
  obtains (Failed) err es where "launch y path t = Some (Exited 1, emit (Stderr err) es)"
      "set (effects es) \<subseteq> set (effects t) \<union>
         {MkdirAll (dirPath y (pidPath y)) 448, OpenLog (snd (lifecyclePaths y)) 384, StartProcess path}"
  | (Started) pid where "l_start y path = Inr pid"
      "launch y path t = afterStart y pid (emit (StartProcess path)
         (emit (OpenLog (snd (lifecyclePaths y)) 384) (emit (MkdirAll (dirPath y (pidPath y)) 448) t)))"
proof (cases "l_mkdir y (dirPath y (pidPath y))")
  case (Some e)
  then show thesis
    by (intro Failed [of "''score: '' @ e @ nl"]) (auto simp: launch_def die_def Let_def)
next
  case mk: None
  show thesis
  proof (cases "l_open y (snd (lifecyclePaths y))")
    case (Some e)
    with mk show thesis
      by (intro Failed [of "''score: '' @ e @ nl"]) (auto simp: launch_def die_def Let_def)
  next
    case None
    with mk show thesis
      by (cases "l_start y path") (auto simp: launch_def die_def Let_def intro: Failed Started)
  qed
qed

text \<open>The whole of \<open>runStart\<close> by its branches.\<close>

lemma runStart_cases:
  obtains (Usage) err where "runStart y args t = Some (Exited (flag_exit err), t)"
  | (Running) out where "isUp y (probes t)"
      "runStart y args t = Some (Returned, emit (Stdout out) (t\<lparr>probes := Suc (probes t)\<rparr>))"
  | (Missing) err where "\<not> isUp y (probes t)"
      "runStart y args t =
         Some (die err (removeStaleSocket y (t\<lparr>probes := Suc (probes t)\<rparr>)))"
  | (Launched) path where "\<not> isUp y (probes t)"
      "runStart y args t = launch y path (removeStaleSocket y (t\<lparr>probes := Suc (probes t)\<rparr>))"
proof (cases "parseFlags startFlags (\<lambda>_. None) [] args")
  case (Inl err)
  then show thesis by (intro Usage) (simp add: runStart_def)
next
  case (Inr r)
  obtain vs rest where r: "r = (vs, rest)" by fastforce
  show thesis
  proof (cases "daemonInfo y (probes t)")
    case (Some info)
    with Inr r show thesis
      by (intro Running) (simp_all add: runStart_def probeInfo_def isUp_def)
  next
    case None
    show thesis
    proof (cases "flag_string [] vs ''scored'' = []")
      case True
      with None Inr r show thesis
        by (cases "findScored y") (auto simp: runStart_def probeInfo_def isUp_def Let_def
            intro: Missing Launched)
    next
      case False
      with None Inr r show thesis
        by (intro Launched) (simp_all add: runStart_def probeInfo_def isUp_def Let_def)
    qed
  qed
qed

lemma removeStaleSocket_simps [simp]:
  "probes (removeStaleSocket y t) = probes t"
  "set (effects (removeStaleSocket y t)) \<subseteq> set (effects t) \<union> {Remove (DefaultAddress (l_sys y))}"
  by (auto simp: removeStaleSocket_def Let_def)


section \<open>What start and stop report\<close>

definition staleSocket :: "life \<Rightarrow> effect list" where
  "staleSocket y =
     (if goos_of (l_sys y) \<noteq> Windows \<and> Ext (sys_host (l_sys y)) (DefaultAddress (l_sys y)) = ''.sock''
      then [Remove (DefaultAddress (l_sys y))] else [])"

lemma removeStaleSocket_effects: "effects (removeStaleSocket y t) = effects t @ staleSocket y"
  by (simp add: removeStaleSocket_def staleSocket_def Let_def)

definition prepared :: "life \<Rightarrow> string \<Rightarrow> effect list" where
  "prepared y path = [MkdirAll (dirPath y (pidPath y)) 448, OpenLog (snd (lifecyclePaths y)) 384,
     StartProcess path]"

text \<open>
  C35. When \<open>score start\<close> returns normally, its last probe of the daemon was answered. Either
  its first probe was answered already, and it only printed that; or it removed a stale socket, opened
  the log, started exactly one process, wrote that process's PID to the pid file with mode 0600 and
  printed once, in this order.\<close>

theorem start_success:
  assumes "time_passes y" and "runStart y args t = Some (Returned, t')"
  shows "probes t < probes t' \<and> isUp y (probes t' - 1) \<and>
    (if isUp y (probes t) then \<exists>out. effects t' = effects t @ [Stdout out]
     else \<exists>path pid out. l_start y path = Inr pid \<and>
       effects t' = effects t @ staleSocket y @ prepared y path @
         [WriteFile (pidPath y) (Itoa pid @ nl) 384, Stdout out])"
proof (cases rule: runStart_cases [of y args t])
  case (Usage err)
  with assms(2) show ?thesis by simp
next
  case (Running out)
  with assms(2) show ?thesis by auto
next
  case (Missing err)
  with assms(2) show ?thesis by (simp add: die_def)
next
  case (Launched path)
  let ?t = "removeStaleSocket y (t\<lparr>probes := Suc (probes t)\<rparr>)"
  show ?thesis
  proof (cases rule: launch_cases [OF assms(1), where path = path and t = ?t, case_names Failed Started])
    case (Failed err es)
    with Launched assms(2) show ?thesis by simp
  next
    case (Started pid)
    let ?t' = "emit (StartProcess path) (emit (OpenLog (snd (lifecyclePaths y)) 384)
      (emit (MkdirAll (dirPath y (pidPath y)) 448) ?t))"
    have run: "afterStart y pid ?t' = Some (Returned, t')"
      using Launched Started assms(2) by simp
    show ?thesis
    proof (cases rule: afterStart_returns
        [OF assms(1), where pid = pid and t = ?t', case_names Unwritten Reachable Unreachable])
      case (Reachable t1 out)
      with run Launched(1) Started(1) show ?thesis
        by (auto simp: removeStaleSocket_effects prepared_def)
    qed (use run in \<open>simp_all add: die_def\<close>)
  qed
qed

text \<open>
  C39. The pid file \<open>score start\<close> leaves is read back by \<open>score stop\<close> as the PID of
  the process that was started, for every PID of an \<open>int\<close>. If writing the file fails, start kills the process it has just started and exits with 1.\<close>

theorem start_pid_file:
  assumes "time_passes y" and "min_int64 \<le> pid" and "pid \<le> max_int64"
  shows "(\<forall>err. l_write y (pidPath y) = Some err \<longrightarrow>
      (\<exists>t'. afterStart y pid t = Some (Exited 1, t') \<and> Kill pid \<in> set (effects t'))) \<and>
    (l_write y (pidPath y) = None \<longrightarrow>
      (\<exists>out t' content. afterStart y pid t = Some (out, t') \<and>
         WriteFile (pidPath y) content 384 \<in> set (effects t') \<and>
         (\<forall>y'. l_sys y' = l_sys y \<and> l_read y' (pidPath y') = Inr content \<longrightarrow> readPid y' = Inr pid)))"
proof (intro conjI allI impI)
  fix err
  assume "l_write y (pidPath y) = Some err"
  then show "\<exists>t'. afterStart y pid t = Some (Exited 1, t') \<and> Kill pid \<in> set (effects t')"
    by (simp add: afterStart_def die_def)
next
  assume ok: "l_write y (pidPath y) = None"
  have reread: "readPid y' = Inr pid" if "l_read y' (pidPath y') = Inr (Itoa pid @ nl)" for y'
    using that assms(2,3) by (simp add: readPid_def nl_def TrimSpace_Itoa_line Atoi_Itoa)
  show "\<exists>out t' content. afterStart y pid t = Some (out, t') \<and>
      WriteFile (pidPath y) content 384 \<in> set (effects t') \<and>
      (\<forall>y'. l_sys y' = l_sys y \<and> l_read y' (pidPath y') = Inr content \<longrightarrow> readPid y' = Inr pid)"
  proof (cases rule: afterStart_returns
      [OF assms(1), where pid = pid and t = t, case_names Unwritten Reachable Unreachable])
    case (Unwritten err)
    with ok show ?thesis by simp
  next
    case (Reachable t1 out)
    with reread show ?thesis by (intro exI [of _ Returned] exI [of _ "emit (Stdout out) t1"]
          exI [of _ "Itoa pid @ nl"]) simp
  next
    case (Unreachable t1 err)
    with reread show ?thesis by (intro exI [of _ "Exited 1"] exI [of _ "emit (Stderr err) t1"]
          exI [of _ "Itoa pid @ nl"]) simp
  qed
qed

definition signalled :: "life \<Rightarrow> int \<Rightarrow> effect" where
  "signalled y pid = (if goos_of (l_sys y) = Windows then Kill pid else Interrupt pid)"

text \<open>
  C36. \<open>score stop\<close>, by its branches, when time passes: without the API and without a
  readable pid file it says the daemon is not running and does nothing; when the process cannot be
  signalled it exits with 1; in every other case it removes the pid file, prints that the daemon has
  stopped and returns normally, after at most one more kill. The last outcome does not depend on the
  probes: it is the same when the daemon answers every one of them.\<close>

theorem stop_outcomes:
  assumes "time_passes y"
  shows "\<exists>out t'. runStop y [] t = Some (out, t') \<and>
    (if \<not> usedAPI y \<and> (\<exists>e. readPid y = Inl e)
     then out = Returned \<and> effects t' = effects t @ [Stdout (''scored is not running'' @ nl)]
     else if \<not> usedAPI y \<and> (\<exists>pid e. readPid y = Inr pid \<and> l_signal y pid = Some e)
     then out = Exited 1 \<and> Remove (pidPath y) \<notin> set (drop (length (effects t)) (effects t'))
     else out = Returned \<and> (\<exists>sig es.
       effects t' = effects t @ sig @ es @ [Remove (pidPath y), Stdout (''scored stopped'' @ nl)] \<and>
       (if usedAPI y then sig = [] else \<exists>pid. readPid y = Inr pid \<and> sig = [signalled y pid]) \<and>
       (es = [] \<or> (\<exists>pid. readPid y = Inr pid \<and> es = [Kill pid]))))"
proof (cases "usedAPI y")
  case True
  with finishStop_returns [OF assms, of t] show ?thesis
    by (fastforce simp: runStop_def)
next
  case False
  show ?thesis
  proof (cases "readPid y")
    case (Inl e)
    with False show ?thesis by (simp add: runStop_def)
  next
    case (Inr pid)
    show ?thesis
    proof (cases "l_signal y pid")
      case (Some e)
      with False Inr show ?thesis
        by (simp add: runStop_def signalProcess_def die_def)
    next
      case None
      obtain t' es where "finishStop y (emit (signalled y pid) t) = Some (Returned, t')"
        "effects t' = (effects t @ [signalled y pid]) @ es @ [Remove (pidPath y), Stdout (''scored stopped'' @ nl)]"
        "es = [] \<or> (\<exists>pid. readPid y = Inr pid \<and> es = [Kill pid])"
        using finishStop_returns [OF assms, of "emit (signalled y pid) t"] by auto
      with False Inr None show ?thesis
        by (auto simp: runStop_def signalProcess_def signalled_def [symmetric])
    qed
  qed
qed


section \<open>A concrete machine\<close>

text \<open>
  A Linux machine whose clock advances by 100 milliseconds per reading and whose daemon answers from
  the given probe on.
\<close>

definition exampleReply :: incoming where
  "exampleReply = Value (JObj [(''result'', JObj [])])"

lemma example_reply:
  "decodeReply h exampleReply = Inr (zeroReply\<lparr>rp_Result := GMap []\<rparr>)"
  by (simp add: exampleReply_def decodeReply_def decode_struct_def field_for_def replyFields_def fld_def
      dec_any_def put_all_def)

definition exampleLife :: "nat \<Rightarrow> life" where
  "exampleLife up =
     \<lparr>l_sys = \<lparr>sys_host = bareHost, env = (\<lambda>_. ''''), temp_dir = ''/tmp'', uid = 1000,
        win_join = (\<lambda>a b. a @ b)\<rparr>,
      l_clock = (\<lambda>n. int n * (100 * millisecond)),
      l_dial = (\<lambda>i. if up \<le> i then None else Some ''refused''), l_peer = (\<lambda>_ _. Inr exampleReply),
      l_sprint = (\<lambda>_. ''7''), l_dialStop = None, l_peerStop = (\<lambda>_. Inr exampleReply), l_executable = Some ''/bin/score'', l_dir = (\<lambda>p. p),
      l_stat = (\<lambda>_. Some (False, 493)), l_lookPath = (\<lambda>_. None), l_mkdir = (\<lambda>_. None),
      l_open = (\<lambda>_. None), l_start = (\<lambda>_. Inr 4242), l_write = (\<lambda>_. None),
      l_read = (\<lambda>_. Inr (''4242'' @ nl)), l_signal = (\<lambda>_. None)\<rparr>"

definition emptyTrace :: Trace where
  "emptyTrace = \<lparr>effects = [], probes = 0, reads = 0\<rparr>"

lemma example_life [simp]:
  "l_clock (exampleLife up) n = int n * (100 * millisecond)"
  "isUp (exampleLife up) i \<longleftrightarrow> up \<le> i"
  "goos_of (l_sys (exampleLife up)) = Linux"
  "env (l_sys (exampleLife up)) k = ''''"
  "usedAPI (exampleLife up)"
  "l_write (exampleLife up) p = None"
  by (simp_all add: exampleLife_def isUp_def bareHost_def daemonInfo_def usedAPI_def Call_def example_reply
      zeroReply_def dec_map_def dec_meta_def dec_bools_def)

lemma example_time_passes: "time_passes (exampleLife up)"
  unfolding time_passes_def
proof (intro allI)
  fix instant :: time and n :: nat
  have "instant \<le> int (nat instant) * (100 * millisecond)"
    by (simp add: millisecond_def)
  also have "\<dots> \<le> int (n + nat instant) * (100 * millisecond)"
    by (simp add: millisecond_def)
  finally show "\<exists>d. instant \<le> l_clock (exampleLife up) (n + d)"
    by (metis example_life(1))
qed

lemma example_sleeps: "sleeps (exampleLife up) timeout t"
  by (simp add: sleeps_def millisecond_def algebra_simps)



text \<open>A start that launches the daemon, whose second probe is answered.\<close>

lemma example_start:
  "\<exists>t'. runStart (exampleLife 1) [''--scored=/bin/scored''] emptyTrace = Some (Returned, t')"
proof -
  have "parseFlags startFlags (\<lambda>_. None) [] [''--scored=/bin/scored''] =
      Inr ([(''scored'', VString ''/bin/scored'')], [])"
    by code_simp
  moreover have "launch (exampleLife 1) p t = afterStart (exampleLife 1) 4242
      (emit (StartProcess p) (emit (OpenLog (snd (lifecyclePaths (exampleLife 1))) 384)
        (emit (MkdirAll (dirPath (exampleLife 1) (pidPath (exampleLife 1))) 448) t)))" for p t
    by (simp add: launch_def exampleLife_def Let_def)
  moreover have "\<exists>t'. afterStart (exampleLife 1) 4242 t = Some (Returned, t')" if "probes t = 1" for t
    using that
    by (simp add: afterStart_def waitForDaemon_eq waitLoop_unfold second_def millisecond_def)
  moreover have "daemonInfo (exampleLife 1) 0 = None"
    by (simp add: exampleLife_def daemonInfo_def)
  ultimately show ?thesis
    by (simp add: runStart_def probeInfo_def emptyTrace_def flag_string_def)
qed

theorem start_success_witness:
  "\<exists>t' path pid. runStart (exampleLife 1) [''--scored=/bin/scored''] emptyTrace = Some (Returned, t') \<and>
     WriteFile (pidPath (exampleLife 1)) (Itoa pid @ nl) 384 \<in> set (effects t') \<and>
     StartProcess path \<in> set (effects t')"
proof -
  obtain t' where run: "runStart (exampleLife 1) [''--scored=/bin/scored''] emptyTrace = Some (Returned, t')"
    using example_start by blast
  from start_success [OF example_time_passes run]
  obtain path pid out where "effects t' = effects emptyTrace @ staleSocket (exampleLife 1) @
      prepared (exampleLife 1) path @ [WriteFile (pidPath (exampleLife 1)) (Itoa pid @ nl) 384, Stdout out]"
    by (auto simp: emptyTrace_def)
  then show ?thesis
    using run by (intro exI [of _ t'] exI [of _ path] exI [of _ pid] conjI) (simp_all add: prepared_def)
qed

theorem start_pid_file_witness:
  "\<exists>out t' content. afterStart (exampleLife 1) 4242 emptyTrace = Some (out, t') \<and>
     WriteFile (pidPath (exampleLife 1)) content 384 \<in> set (effects t')"
proof -
  have "min_int64 \<le> 4242" "(4242::int) \<le> max_int64"
    by (simp_all add: min_int64_def max_int64_def)
  from start_pid_file [OF example_time_passes this, of 1 emptyTrace] show ?thesis
    by auto
qed

text \<open>The daemon answers every probe and stop still reports that it has stopped.\<close>

theorem stop_outcomes_witness:
  "(\<forall>i. isUp (exampleLife 0) i) \<and> (\<exists>t'. runStop (exampleLife 0) [] emptyTrace = Some (Returned, t') \<and>
     Stdout (''scored stopped'' @ nl) \<in> set (effects t'))"
  using stop_outcomes [OF example_time_passes, of 0 emptyTrace] by auto


end
