(* ===== verification/Cli.thy ===== *)
theory Cli
  imports Client Ipc Flags
begin

text \<open>
  The commands of \<open>cmd/score/main.go\<close> other than start, stop and status. A command runs
  against \<open>cli\<close>, what the operating system, the clock and the daemon's end of each connection
  answer, and carries a \<open>Shell\<close>: what it has written and started so far, how often it has dialled
  and read the clock, and the state of the peer. Its result is a value or \<open>Inl code\<close>, the
  \<open>os.Exit\<close> that ended it. Tables are rows of cells; the column widths of
  \<open>text/tabwriter\<close>, the text of a JSON document and what the \<open>flag\<close> package prints about a
  wrong flag are not modelled. Durations are truncated
  exactly, where the source goes through a \<open>float64\<close>.
\<close>

section \<open>Commands as state transformers\<close>

datatype printed =
    Out string
  | Err string
  | JsonOut json
  | Table "string list list"
  | Spawn "string list" string "string list"
    \<comment> \<open>command line, working directory, additions to the environment\<close>
  | Signal string
  | KillChild

text \<open>How \<open>cmd.Wait\<close> ends: nil, an \<open>ExitError\<close> with its code, or another error.\<close>

datatype waited = WaitOK | WaitExit int string | WaitError string

record 's cli =
  y_sys :: sys
  y_dial :: "nat \<Rightarrow> string option"          \<comment> \<open>error of the n-th \<open>client.Dial\<close>\<close>
  y_peer :: "json \<Rightarrow> 's \<Rightarrow> (string + incoming) \<times> 's"
  y_stream :: "json \<Rightarrow> incoming list"       \<comment> \<open>what arrives after a subscription request\<close>
  y_clock :: "nat \<Rightarrow> time"                  \<comment> \<open>successive readings of \<open>time.Now\<close>\<close>
  y_unixNano :: "time \<Rightarrow> int"               \<comment> \<open>\<open>Time.UnixNano\<close>\<close>
  y_rfc3339 :: "time \<Rightarrow> string"             \<comment> \<open>\<open>Time.Format(time.RFC3339)\<close>\<close>
  y_parseInt :: "string \<Rightarrow> int option"      \<comment> \<open>\<open>strconv.ParseInt(s, 0, 64)\<close>\<close>
  y_getwd :: "string + string"
  y_start :: "string list \<Rightarrow> string + int"  \<comment> \<open>\<open>cmd.Start\<close>: its error or the PID\<close>
  y_wait :: waited
  y_signal :: "string option"              \<comment> \<open>signal that arrived before the command ended\<close>
  y_lingers :: bool                        \<comment> \<open>the command runs for two more seconds after it\<close>

abbreviation y_host :: "('s, 'z) cli_scheme \<Rightarrow> host" where
  "y_host y \<equiv> sys_host (y_sys y)"

record 's Shell =
  sh_out :: "printed list"
  sh_dials :: nat
  sh_reads :: nat
  sh_peer :: 's

type_synonym ('s, 'a) cmd = "'s Shell \<Rightarrow> (int + 'a) \<times> 's Shell"

definition ret :: "'a \<Rightarrow> ('s, 'a) cmd" where
  "ret x s = (Inr x, s)"

definition andThen :: "('s, 'a) cmd \<Rightarrow> ('a \<Rightarrow> ('s, 'b) cmd) \<Rightarrow> ('s, 'b) cmd" where
  "andThen m f s = (case m s of (Inl code, s) \<Rightarrow> (Inl code, s) | (Inr x, s) \<Rightarrow> f x s)"

definition put :: "printed \<Rightarrow> ('s, unit) cmd" where
  "put o' s = (Inr (), s\<lparr>sh_out := sh_out s @ [o']\<rparr>)"

definition Exit :: "int \<Rightarrow> ('s, 'a) cmd" where
  "Exit code s = (Inl code, s)"

definition now :: "'s cli \<Rightarrow> ('s, time) cmd" where
  "now y s = (Inr (y_clock y (sh_reads s)), s\<lparr>sh_reads := Suc (sh_reads s)\<rparr>)"

definition die :: "string \<Rightarrow> ('s, 'a) cmd" where
  "die err = andThen (put (Err (''score: '' @ err @ [CHR 0x0A]))) (\<lambda>_. Exit 1)"

definition dieDaemon :: "string \<Rightarrow> ('s, 'a) cmd" where
  "dieDaemon err =
     andThen (put (Err (''score: cannot reach scored: '' @ err @ [CHR 0x0A] @ ''start it with: scored'' @
       [CHR 0x0A]))) (\<lambda>_. Exit 1)"

definition parse :: "'s cli \<Rightarrow> flagset \<Rightarrow> string list \<Rightarrow> ('s, (string \<times> fval) list \<times> string list) cmd" where
  "parse y fs args =
     (case parseFlags fs (y_parseInt y) [] args of Inl err \<Rightarrow> Exit (flag_exit err) | Inr r \<Rightarrow> ret r)"

section \<open>Calling the daemon\<close>

definition callErr :: "'s cli \<Rightarrow> string \<Rightarrow> json option \<Rightarrow> (json \<Rightarrow> 'a option) \<Rightarrow> ('s, string + 'a) cmd" where
  "callErr y method params dec s =
     (let n = sh_dials s; s = s\<lparr>sh_dials := Suc n\<rparr>
      in case y_dial y n of
           Some err \<Rightarrow> dieDaemon err s
         | None \<Rightarrow>
             (case Call (y_host y) (y_peer y) method params dec newClient (sh_peer s) of
                (r, _, p) \<Rightarrow> (Inr r, s\<lparr>sh_peer := p\<rparr>)))"

definition call :: "'s cli \<Rightarrow> string \<Rightarrow> json option \<Rightarrow> (json \<Rightarrow> 'a option) \<Rightarrow> ('s, 'a) cmd" where
  "call y method params dec =
     andThen (callErr y method params dec) (\<lambda>r. case r of Inl err \<Rightarrow> die err | Inr x \<Rightarrow> ret x)"

definition strMap :: "host \<Rightarrow> (string \<times> string) list \<Rightarrow> json" where
  "strMap h m = json_of h (GMap (map (map_prod id GString) m))"

definition dec_health :: "json \<Rightarrow> (string \<times> string) list option" where
  "dec_health j =
     (case j of
        JNull \<Rightarrow> Some []
      | JObj kvs \<Rightarrow> those (map (\<lambda>(k, v). map_option (Pair k) (dec_string '''' v)) kvs)
      | _ \<Rightarrow> None)"

definition printJSON :: "json \<Rightarrow> ('s, unit) cmd" where
  "printJSON j = put (JsonOut j)"

definition printMaybeJSON :: "json \<Rightarrow> bool \<Rightarrow> ('s, unit) cmd" where
  "printMaybeJSON j asJSON = (if asJSON then printJSON j else printJSON j)"

section \<open>Texts\<close>

definition displaySource :: "Session \<Rightarrow> string" where
  "displaySource s =
     (if s_Source s \<noteq> '''' then s_Source s
      else if a_Adapter (s_Agent s) \<noteq> '''' then a_Adapter (s_Agent s)
      else a_Name (s_Agent s))"

definition displayWorkspace :: "Session \<Rightarrow> string" where
  "displayWorkspace s =
     (if s_CWD s \<noteq> '''' then s_CWD s
      else if s_WorkspaceRoots s \<noteq> [] then hd (s_WorkspaceRoots s)
      else if s_WorkspaceIDs s \<noteq> [] then hd (s_WorkspaceIDs s)
      else ''-'')"

fun firstNonEmpty :: "string list \<Rightarrow> string" where
  "firstNonEmpty [] = ''-''"
| "firstNonEmpty (value # values) = (if value \<noteq> '''' then value else firstNonEmpty values)"

text \<open>\<open>time.Since\<close> saturates at the bounds of \<open>int64\<close>.\<close>

definition Since :: "time \<Rightarrow> time \<Rightarrow> int" where
  "Since t u = max min_int64 (min max_int64 (t - u))"

definition Second :: int where
  "Second = 1000000000"

definition humanDuration :: "int \<Rightarrow> string" where
  "humanDuration d =
     (let d = (if d < 0 then 0 else d)
      in if d < 60 * Second then Itoa (d div Second) @ ''s''
         else if d < 3600 * Second then Itoa (d div (60 * Second)) @ ''m''
         else if d < 24 * (3600 * Second) then Itoa (d div (3600 * Second)) @ ''h''
         else Itoa (d div (3600 * Second) div 24) @ ''d'')"

definition activity :: "Session \<Rightarrow> string" where
  "activity s = firstNonEmpty [s_StatusDetail s, s_Summary s, s_Title s]"

section \<open>Listing commands\<close>

definition sessionsFlags :: flagset where
  "sessionsFlags = [(''all'', FBool), (''status'', FString), (''workspace'', FString), (''source'', FString),
     (''json'', FBool)]"

definition sessionsParams :: "host \<Rightarrow> (string \<times> fval) list \<Rightarrow> json" where
  "sessionsParams h vs = json_of h (GMap
     [(''all'', GBool (flag_bool vs ''all'')),
      (''status'', (let st = flag_string '''' vs ''status'' in
         if st = '''' then GNil else GSlice (map GString (ParseStatusFilter st)))),
      (''workspace'', GString (flag_string '''' vs ''workspace'')),
      (''source'', GString (flag_string '''' vs ''source''))])"

text \<open>Every row of the table reads the clock for its age.\<close>

fun sessionRows :: "'s cli \<Rightarrow> Session list \<Rightarrow> ('s, string list list) cmd" where
  "sessionRows y [] = ret []"
| "sessionRows y (s # ss) =
     andThen (now y) (\<lambda>t.
       andThen (sessionRows y ss) (\<lambda>rows.
         ret ([s_ID s, s_Status s, s_Attention s, displaySource s, displayWorkspace s, activity s,
           humanDuration (Since t (s_LastActivityAt s))] # rows)))"

definition runSessions :: "'s cli \<Rightarrow> string list \<Rightarrow> ('s, unit) cmd" where
  "runSessions y args =
     andThen (parse y sessionsFlags args) (\<lambda>(vs, _).
       andThen (call y ''sessions/list'' (Some (sessionsParams (y_host y) vs))
           (dec_slice (dec_session (y_host y)) [])) (\<lambda>sessions.
         if flag_bool vs ''json'' then printJSON (JArr (map (enc_session (y_host y)) sessions))
         else andThen (sessionRows y sessions) (\<lambda>rows.
           put (Table ([''ID'', ''STATUS'', ''ATTENTION'', ''SOURCE'', ''WORKSPACE'', ''ACTIVITY'', ''UPDATED''] #
             rows)))))"

definition jsonFlags :: flagset where
  "jsonFlags = [(''json'', FBool)]"

definition runProcesses :: "'s cli \<Rightarrow> string list \<Rightarrow> ('s, unit) cmd" where
  "runProcesses y args =
     andThen (parse y jsonFlags args) (\<lambda>(vs, _).
       andThen (call y ''processes/list'' None (dec_slice (dec_process (y_host y)) [])) (\<lambda>processes.
         if flag_bool vs ''json'' then printJSON (JArr (map (enc_process (y_host y)) processes))
         else put (Table ([''ID'', ''PID'', ''PPID'', ''COMMAND'', ''LIVENESS'', ''SOURCE''] #
           map (\<lambda>p. [p_ID p, Itoa (p_PID p), Itoa (p_PPID p), p_Command p, p_Liveness p, p_Source p])
             processes))))"

definition runWorkspaces :: "'s cli \<Rightarrow> string list \<Rightarrow> ('s, unit) cmd" where
  "runWorkspaces y args =
     andThen (parse y jsonFlags args) (\<lambda>(vs, _).
       andThen (call y ''workspaces/list'' None (dec_slice (dec_workspace (y_host y)) [])) (\<lambda>workspaces.
         if flag_bool vs ''json'' then printJSON (JArr (map (enc_workspace (y_host y)) workspaces))
         else put (Table ([''ID'', ''KIND'', ''PATH'', ''BRANCH'', ''SOURCE''] #
           map (\<lambda>ws. [w_ID ws, w_Kind ws, w_Path ws, w_Branch ws, w_Source ws]) workspaces))))"

definition runLineage :: "'s cli \<Rightarrow> string list \<Rightarrow> ('s, unit) cmd" where
  "runLineage y args =
     andThen (parse y jsonFlags args) (\<lambda>(vs, rest).
       let sessionID = (if rest \<noteq> [] then hd rest else '''')
       in andThen (call y ''lineage/get'' (Some (strMap (y_host y) [(''sessionId'', sessionID)]))
           (dec_lineage (y_host y))) (\<lambda>lineage.
         if flag_bool vs ''json'' then printJSON (enc_lineage (y_host y) lineage)
         else put (Table
           ([''SESSION'', ''STATUS'', ''PARENT'', ''ROOT'', ''ACTIVITY''] #
            map (\<lambda>s. [s_ID s, s_Status s, s_ParentSessionID s, s_RootSessionID s, activity s])
              (l_Sessions lineage) @
            (if l_Edges lineage \<noteq> []
             then [[], [''EDGE'', ''TYPE'', ''FROM'', ''TO'']] @
               map (\<lambda>e. [e_ID e, e_Type e, e_From e, e_To e]) (l_Edges lineage)
             else [])))))"

section \<open>Events\<close>

definition printEvents :: "'s cli \<Rightarrow> Event list \<Rightarrow> ('s, unit) cmd" where
  "printEvents y evs = put (Table ([''SEQ'', ''TYPE'', ''SESSION'', ''SOURCE'', ''SUMMARY'', ''OBSERVED''] #
     map (\<lambda>v. [Itoa (v_Seq v), v_Type v, v_SessionID v, v_Source v, v_Summary v, y_rfc3339 y (v_ObservedAt v)])
       evs))"

definition eventsParams :: "host \<Rightarrow> int \<Rightarrow> int \<Rightarrow> json" where
  "eventsParams h since limit = json_of h (GMap [(''since'', GInt since), (''limit'', GInt limit)])"

fun printAll :: "('a \<Rightarrow> ('s, unit) cmd) \<Rightarrow> 'a list \<Rightarrow> ('s, unit) cmd" where
  "printAll f [] = ret ()"
| "printAll f (x # xs) = andThen (f x) (\<lambda>_. printAll f xs)"

definition watchEvents :: "'s cli \<Rightarrow> int \<Rightarrow> bool \<Rightarrow> ('s, unit) cmd" where
  "watchEvents y since asJSON s =
     (let n = sh_dials s; s = s\<lparr>sh_dials := Suc n\<rparr>
      in case y_dial y n of
           Some err \<Rightarrow> dieDaemon err s
         | None \<Rightarrow>
             (case SubscribeEvents (y_host y)
                 (y_stream y (enc_request (y_host y) (fst (subscribeRequest since newClient)))) of
                Inl err \<Rightarrow> die err s
              | Inr evs \<Rightarrow>
                  printAll (\<lambda>v. if asJSON then printJSON (enc_event (y_host y) v)
                    else put (Out (Itoa (v_Seq v) @ [CHR 0x09] @ v_Type v @ [CHR 0x09] @ v_SessionID v @
                      [CHR 0x09] @ v_Summary v @ [CHR 0x0A]))) evs s))"

definition eventsFlags :: flagset where
  "eventsFlags = [(''since'', FInt64), (''watch'', FBool), (''json'', FBool)]"

definition runEvents :: "'s cli \<Rightarrow> string list \<Rightarrow> ('s, unit) cmd" where
  "runEvents y args =
     andThen (parse y eventsFlags args) (\<lambda>(vs, _).
       if flag_bool vs ''watch'' then watchEvents y (flag_int vs ''since'') (flag_bool vs ''json'')
       else andThen (call y ''events/list'' (Some (eventsParams (y_host y) (flag_int vs ''since'') 0))
           (dec_slice (dec_event (y_host y)) [])) (\<lambda>events.
         if flag_bool vs ''json'' then printJSON (JArr (map (enc_event (y_host y)) events))
         else printEvents y events))"

definition historyFlags :: flagset where
  "historyFlags = [(''since'', FInt64), (''json'', FBool)]"

definition runHistory :: "'s cli \<Rightarrow> string list \<Rightarrow> ('s, unit) cmd" where
  "runHistory y args =
     andThen (parse y historyFlags args) (\<lambda>(vs, _).
       andThen (call y ''events/list'' (Some (eventsParams (y_host y) (flag_int vs ''since'') 100))
           (dec_slice (dec_event (y_host y)) [])) (\<lambda>events.
         if flag_bool vs ''json'' then printJSON (JArr (map (enc_event (y_host y)) events))
         else printEvents y events))"

section \<open>Sources and single resources\<close>

definition printSources :: "Source list \<Rightarrow> ('s, unit) cmd" where
  "printSources xs = put (Table ([''ID'', ''STATUS'', ''SUPPORT'', ''KIND'', ''CAPABILITIES'', ''DIAGNOSTICS''] #
     map (\<lambda>x. [o_ID x, o_Status x, o_SupportLevel x, o_Kind x, Join (o_Capabilities x) '','',
       Join (o_Diagnostics x) ''; '']) xs))"

text \<open>The method and the parameters of \<open>score sources\<close>; \<open>--json\<close> counts anywhere.\<close>

definition sourcesRequest :: "host \<Rightarrow> string list \<Rightarrow> string \<times> json option" where
  "sourcesRequest h args =
     (let args = filter (\<lambda>arg. arg \<noteq> ''--json'') args
      in if args \<noteq> [] \<and> hd args = ''doctor''
         then (''sources/doctor'',
           if length args > 1 then Some (strMap h [(''id'', args ! 1)]) else None)
         else (''sources/list'', None))"

definition runSources :: "'s cli \<Rightarrow> string list \<Rightarrow> ('s, unit) cmd" where
  "runSources y args =
     (case sourcesRequest (y_host y) args of
        (method, params) \<Rightarrow>
          andThen (call y method params (\<lambda>j. Some (goval_of j))) (\<lambda>raw.
            if ''--json'' \<in> set args then printJSON (json_of (y_host y) raw)
            else let data = json_of (y_host y) raw
                 in case dec_slice (dec_source (y_host y)) [] data of
                      Some xs \<Rightarrow> printSources xs
                    | None \<Rightarrow>
                        printSources [case dec_source (y_host y) data of Some x \<Rightarrow> x | None \<Rightarrow> zeroSource]))"

definition usageText :: string where
  "usageText = concat (map (\<lambda>line. line @ [CHR 0x0A])
     [''score is the CLI client for scored.'',
      '''',
      ''Usage:'',
      ''  score start [--scored PATH]'',
      ''  score stop'',
      ''  score status [--json]'',
      ''  score sessions [--all] [--status working,blocked] [--workspace PATH] [--source ID] [--json]'',
      ''  score processes [--json]'',
      ''  score workspaces [--json]'',
      ''  score lineage [session-id] [--json]'',
      ''  score events [--since N] [--watch] [--json]'',
      ''  score history [--since N] [--json]'',
      ''  score sources [doctor [source-id]] [--json]'',
      ''  score inspect <id> [--json]'',
      ''  score observe-session --id ID --status STATUS [--source ID] [--workspace PATH] [--activity TEXT]'',
      ''  score run [--id ID] [--source ID] [--workspace PATH] [--title TEXT] -- COMMAND [ARGS...]''])"

text \<open>\<open>usage\<close> and the exit every caller follows it with.\<close>

definition usage :: "('s, 'a) cmd" where
  "usage = andThen (put (Err usageText)) (\<lambda>_. Exit 2)"

text \<open>One attempt of \<open>runInspect\<close>: print what the method finds, or go on.\<close>

definition tryInspect ::
  "'s cli \<Rightarrow> string \<Rightarrow> string \<Rightarrow> (json \<Rightarrow> 'a option) \<Rightarrow> ('a \<Rightarrow> json) \<Rightarrow> bool \<Rightarrow>
     ('s, unit) cmd \<Rightarrow> ('s, unit) cmd" where
  "tryInspect y method id' dec enc asJSON otherwise =
     andThen (callErr y method (Some (strMap (y_host y) [(''id'', id')])) dec) (\<lambda>r.
       case r of Inr x \<Rightarrow> printMaybeJSON (enc x) asJSON | Inl _ \<Rightarrow> otherwise)"

definition runInspect :: "'s cli \<Rightarrow> string list \<Rightarrow> ('s, unit) cmd" where
  "runInspect y args =
     andThen (parse y jsonFlags args) (\<lambda>(vs, rest).
       if length rest \<noteq> 1 then usage
       else let id' = hd rest; asJSON = flag_bool vs ''json''; h = y_host y
            in tryInspect y ''sessions/get'' id' (dec_session h) (enc_session h) asJSON
                 (tryInspect y ''workspaces/get'' id' (dec_workspace h) (enc_workspace h) asJSON
                   (tryInspect y ''processes/get'' id' (dec_process h) (enc_process h) asJSON
                     (die (''not found: '' @ id')))))"

section \<open>Reporting a session\<close>

definition observeFlags :: flagset where
  "observeFlags = [(''id'', FString), (''status'', FString), (''source'', FString), (''workspace'', FString),
     (''activity'', FString), (''title'', FString), (''parent'', FString), (''root'', FString), (''json'', FBool)]"

definition workspaceLit :: "string \<Rightarrow> string \<Rightarrow> string \<Rightarrow> Workspace" where
  "workspaceLit workspace sessionID source =
     zeroWorkspace\<lparr>w_ID := ''workspace:'' @ workspace, w_Kind := ''workspace'', w_Path := workspace,
       w_SessionIDs := [sessionID], w_Source := source, w_Confidence := ConfidenceHigh\<rparr>"

definition edgeLit :: "string \<Rightarrow> string \<Rightarrow> string \<Rightarrow> Edge" where
  "edgeLit id' parent source =
     zeroEdge\<lparr>e_From := id', e_To := parent, e_Type := ''spawned_by'', e_Source := source,
       e_Confidence := ConfidenceHigh\<rparr>"

definition observedSession :: "(string \<times> fval) list \<Rightarrow> time \<Rightarrow> Session" where
  "observedSession vs t =
     (let workspace = flag_string '''' vs ''workspace''
      in zeroSession\<lparr>s_ID := flag_string '''' vs ''id'',
           s_Status := flag_string ''working'' vs ''status'',
           s_StatusDetail := flag_string '''' vs ''activity'',
           s_Title := flag_string '''' vs ''title'',
           s_Source := flag_string ''native'' vs ''source'',
           s_CWD := workspace,
           s_ParentSessionID := flag_string '''' vs ''parent'',
           s_RootSessionID := flag_string '''' vs ''root'',
           s_WorkspaceIDs := (if workspace \<noteq> '''' then [''workspace:'' @ workspace] else []),
           s_Confidence := ConfidenceHigh,
           s_LastActivityAt := t\<rparr>)"

definition callUpsertSession :: "'s cli \<Rightarrow> Session \<Rightarrow> ('s, Session) cmd" where
  "callUpsertSession y s = call y ''observations/upsertSession'' (Some (enc_session (y_host y) s))
     (dec_session (y_host y))"

definition callUpsertWorkspace :: "'s cli \<Rightarrow> Workspace \<Rightarrow> ('s, Workspace) cmd" where
  "callUpsertWorkspace y w = call y ''observations/upsertWorkspace'' (Some (enc_workspace (y_host y) w))
     (dec_workspace (y_host y))"

definition callUpsertEdge :: "'s cli \<Rightarrow> Edge \<Rightarrow> ('s, Edge) cmd" where
  "callUpsertEdge y e = call y ''observations/upsertEdge'' (Some (enc_edge (y_host y) e))
     (dec_edge (y_host y))"

definition runObserveSession :: "'s cli \<Rightarrow> string list \<Rightarrow> ('s, unit) cmd" where
  "runObserveSession y args =
     andThen (parse y observeFlags args) (\<lambda>(vs, _).
       let id' = flag_string '''' vs ''id''; workspace = flag_string '''' vs ''workspace'';
           parent = flag_string '''' vs ''parent''; source = flag_string ''native'' vs ''source''
       in if id' = '''' then die ''--id is required''
          else andThen (now y) (\<lambda>t.
            andThen (callUpsertSession y (observedSession vs t)) (\<lambda>result.
            andThen (if workspace \<noteq> ''''
                     then andThen (callUpsertWorkspace y (workspaceLit workspace id' source)) (\<lambda>_. ret ())
                     else ret ()) (\<lambda>_.
            andThen (if parent \<noteq> ''''
                     then andThen (callUpsertEdge y (edgeLit id' parent source)) (\<lambda>_. ret ())
                     else ret ()) (\<lambda>_.
            if flag_bool vs ''json'' then printJSON (enc_session (y_host y) result)
            else put (Out (s_ID result @ [CHR 0x0A])))))))"

section \<open>Running a command\<close>

definition inferSource :: "host \<Rightarrow> string \<Rightarrow> string" where
  "inferSource h command =
     (let base = TrimSuffix (Base h command) ''.exe''
      in if base = '''' \<or> base = ''.'' \<or> base = [Separator h] then ''run'' else ToLower h base)"

text \<open>The options of \<open>score run\<close> once their defaults are filled in.\<close>

record runopts =
  ro_id :: string
  ro_source :: string
  ro_workspace :: string
  ro_title :: string
  ro_parent :: string
  ro_root :: string
  ro_command :: "string list"

definition runSession ::
  "runopts \<Rightarrow> string list \<Rightarrow> Status \<Rightarrow> string \<Rightarrow> time \<Rightarrow> time option \<Rightarrow> time \<Rightarrow> Session" where
  "runSession o' runtimeIDs status detail startedAt endedAt t =
     zeroSession\<lparr>s_ID := ro_id o', s_Status := status, s_StatusDetail := detail, s_Title := ro_title o',
       s_Source := ro_source o', s_CWD := ro_workspace o', s_ParentSessionID := ro_parent o',
       s_RootSessionID := ro_root o', s_RuntimeIDs := runtimeIDs,
       s_WorkspaceIDs := [''workspace:'' @ ro_workspace o'], s_Confidence := ConfidenceHigh,
       s_StartedAt := startedAt, s_LastActivityAt := t, s_EndedAt := endedAt,
       s_Meta := [(''run'', GMap [(''command'', GSlice (map GString (ro_command o')))])]\<rparr>"

definition upsertRunSession ::
  "'s cli \<Rightarrow> runopts \<Rightarrow> string list \<Rightarrow> Status \<Rightarrow> string \<Rightarrow> time \<Rightarrow> time option \<Rightarrow> ('s, unit) cmd" where
  "upsertRunSession y o' runtimeIDs status detail startedAt endedAt =
     andThen (now y) (\<lambda>t.
       andThen (callUpsertSession y (runSession o' runtimeIDs status detail startedAt endedAt t)) (\<lambda>_. ret ()))"

definition upsertRunWorkspace :: "'s cli \<Rightarrow> runopts \<Rightarrow> ('s, unit) cmd" where
  "upsertRunWorkspace y o' =
     andThen (callUpsertWorkspace y (workspaceLit (ro_workspace o') (ro_id o') (ro_source o'))) (\<lambda>_. ret ())"

definition upsertRunEdge :: "'s cli \<Rightarrow> runopts \<Rightarrow> ('s, unit) cmd" where
  "upsertRunEdge y o' =
     andThen (callUpsertEdge y (edgeLit (ro_id o') (ro_parent o') (ro_source o'))) (\<lambda>_. ret ())"

definition runFlags :: flagset where
  "runFlags = [(''id'', FString), (''source'', FString), (''workspace'', FString), (''title'', FString),
     (''parent'', FString), (''root'', FString)]"

text \<open>The defaults, from the working directory, the command, the clock and the environment.\<close>

definition runOptions :: "'s cli \<Rightarrow> (string \<times> fval) list \<Rightarrow> string list \<Rightarrow> ('s, runopts) cmd" where
  "runOptions y vs commandArgs =
     (if commandArgs = [] then die ''COMMAND is required''
      else andThen
        (let workspace = flag_string '''' vs ''workspace''
         in if workspace = '''' then (case y_getwd y of Inl err \<Rightarrow> die err | Inr wd \<Rightarrow> ret wd)
            else ret workspace) (\<lambda>workspace.
      let source = (let s = flag_string '''' vs ''source''
            in if s = '''' then inferSource (y_host y) (hd commandArgs) else s)
      in andThen
        (let id' = flag_string '''' vs ''id''
         in if id' = ''''
            then andThen (now y) (\<lambda>t. ret (source @ '':'' @ Itoa (y_unixNano y t)))
            else ret id') (\<lambda>id'.
      let title = (let s = flag_string '''' vs ''title''
            in if s = '''' then Base (y_host y) (hd commandArgs) else s);
          parent = (let s = flag_string '''' vs ''parent''
            in if s = '''' then env (y_sys y) ''SCORE_SESSION_ID'' else s);
          root = (let s = flag_string '''' vs ''root''
            in if s = '''' then env (y_sys y) ''SCORE_ROOT_SESSION_ID'' else s);
          root = (if root = '''' then if parent \<noteq> '''' then parent else id' else root)
      in ret \<lparr>ro_id = id', ro_source = source, ro_workspace = workspace, ro_title = title,
           ro_parent = parent, ro_root = root, ro_command = commandArgs\<rparr>)))"

text \<open>How the command ended: status, detail and exit code.\<close>

definition runVerdict :: "bool \<Rightarrow> waited \<Rightarrow> string list \<Rightarrow> Status \<times> string \<times> int" where
  "runVerdict stopped w commandArgs =
     (if stopped then (StatusStopped, ''stopped: '' @ Join commandArgs '' '', 130)
      else case w of
        WaitOK \<Rightarrow> (StatusCompleted, ''completed: '' @ Join commandArgs '' '', 0)
      | WaitExit code err \<Rightarrow> (StatusFailed, ''failed: '' @ err, code)
      | WaitError err \<Rightarrow> (StatusFailed, ''failed: '' @ err, 1))"

definition runEnv :: "runopts \<Rightarrow> string list" where
  "runEnv o' =
     [''SCORE_SESSION_ID='' @ ro_id o', ''SCORE_PARENT_SESSION_ID='' @ ro_parent o',
      ''SCORE_ROOT_SESSION_ID='' @ ro_root o', ''SCORE_WORKSPACE_ID=workspace:'' @ ro_workspace o',
      ''SCORE_SOURCE='' @ ro_source o']"

text \<open>
  The goroutine that passes a signal on while the command runs, and kills the command when it does not
  end in two seconds; its result is \<open>stopped\<close>.
\<close>

definition relaySignal :: "'s cli \<Rightarrow> ('s, bool) cmd" where
  "relaySignal y =
     (case y_signal y of
        None \<Rightarrow> ret False
      | Some sig \<Rightarrow>
          andThen (put (Signal sig)) (\<lambda>_.
          andThen (if y_lingers y then put KillChild else ret ()) (\<lambda>_. ret True)))"

text \<open>From the start of the command on.\<close>

definition runChild :: "'s cli \<Rightarrow> runopts \<Rightarrow> ('s, unit) cmd" where
  "runChild y o' =
     andThen (now y) (\<lambda>startedAt.
     andThen (put (Spawn (ro_command o') (ro_workspace o') (runEnv o'))) (\<lambda>_.
     case y_start y (ro_command o') of
       Inl err \<Rightarrow>
         andThen (now y) (\<lambda>endedAt.
         andThen (upsertRunSession y o' [] StatusFailed (''start failed: '' @ err) startedAt (Some endedAt))
           (\<lambda>_. die err))
     | Inr pid \<Rightarrow>
         (let runtimeIDs = [''process:'' @ Itoa pid]
          in andThen (upsertRunSession y o' runtimeIDs StatusWorking (''running: '' @ Join (ro_command o') '' '')
               startedAt None) (\<lambda>_.
             andThen (upsertRunWorkspace y o') (\<lambda>_.
             andThen (if ro_parent o' \<noteq> '''' then upsertRunEdge y o' else ret ()) (\<lambda>_.
             andThen (relaySignal y) (\<lambda>stopped.
             andThen (now y) (\<lambda>endedAt.
             case runVerdict stopped (y_wait y) (ro_command o') of
               (status, detail, exitCode) \<Rightarrow>
                 andThen (upsertRunSession y o' runtimeIDs status detail startedAt (Some endedAt)) (\<lambda>_.
                 if exitCode \<noteq> 0 then Exit exitCode else ret ())))))))))"

definition runObservedCommand :: "'s cli \<Rightarrow> string list \<Rightarrow> ('s, unit) cmd" where
  "runObservedCommand y args =
     andThen (parse y runFlags args) (\<lambda>(vs, commandArgs).
     andThen (runOptions y vs commandArgs) (\<lambda>o'.
     andThen (call y ''health/check'' None dec_health) (\<lambda>_.
     runChild y o')))"

section \<open>The program\<close>

text \<open>\<open>main\<close> without the commands of the lifecycle, which are a parameter.\<close>

definition commands :: "'s cli \<Rightarrow> (string \<times> (string list \<Rightarrow> ('s, unit) cmd)) list" where
  "commands y =
     [(''sessions'', runSessions y), (''processes'', runProcesses y), (''workspaces'', runWorkspaces y),
      (''lineage'', runLineage y), (''events'', runEvents y), (''history'', runHistory y),
      (''sources'', runSources y), (''inspect'', runInspect y), (''observe-session'', runObserveSession y),
      (''run'', runObservedCommand y)]"

definition main :: "(string \<Rightarrow> string list \<Rightarrow> ('s, unit) cmd) \<Rightarrow> 's cli \<Rightarrow> string list \<Rightarrow> ('s, unit) cmd" where
  "main lifecycle y argv =
     (if length argv < 2 then usage
      else if argv ! 1 \<in> set [''start'', ''stop'', ''status'']
      then lifecycle (argv ! 1) (drop 2 argv)
      else case map_of (commands y) (argv ! 1) of
        Some c \<Rightarrow> c (drop 2 argv)
      | None \<Rightarrow> usage)"

end
