(* ===== verification/Cli_Props.thy ===== *)
theory Cli_Props
  imports Cli
begin

text \<open>
  What the commands achieve together with the daemon at the other end of their connections:
  \<open>score run\<close> leaves a session that says how the command ended and exits with its code,
  \<open>score observe-session\<close> stores what it was told, and where the flags of a command may stand.
\<close>

section \<open>Commands against the daemon\<close>

lemma andThen_Inr: "m s = (Inr x, s') \<Longrightarrow> andThen m f s = f x s'"
  by (simp add: andThen_def)

lemma andThen_Inl: "m s = (Inl c, s') \<Longrightarrow> andThen m f s = (Inl c, s')"
  by (simp add: andThen_def)

lemma cmd_steps [simp]:
  "ret x s = (Inr x, s)"
  "put p s = (Inr (), s\<lparr>sh_out := sh_out s @ [p]\<rparr>)"
  "now y s = (Inr (y_clock y (sh_reads s)), s\<lparr>sh_reads := Suc (sh_reads s)\<rparr>)"
  "Exit c s = (Inl c, s)"
  "Cli.die err s = (Inl 1, s\<lparr>sh_out := sh_out s @ [Err (''score: '' @ err @ [CHR 0x0A])]\<rparr>)"
  by (simp_all add: ret_def put_def now_def Exit_def Cli.die_def andThen_def)

text \<open>The daemon is reachable, and JSON behaves as documented.\<close>

definition online :: "World cli \<Rightarrow> Handler \<Rightarrow> bool" where
  "online y hr \<longleftrightarrow> y_peer y = daemonPeer (y_host y) hr \<and> (\<forall>n. y_dial y n = None) \<and> json_host (y_host y)"

text \<open>Times read here and at the daemon have a JSON form.\<close>

definition clocks_ok :: "World cli \<Rightarrow> World \<Rightarrow> bool" where
  "clocks_ok y w \<longleftrightarrow> (\<forall>n. clean_time (y_host y) (y_clock y n)) \<and> (\<forall>n. clean_time (y_host y) (clock w n)) \<and>
     clean_time (y_host y) 0"

lemma call_online:
  assumes "online y hr" and "clean (y_host y) method" and "method \<noteq> ''events/subscribe''"
    and "Handle (y_host y) hr method params (sh_peer s) = (Inr r, w')"
    and "dec (relay (y_host y) (enc_result (y_host y) r)) = Some x"
  shows "call y method params dec s = (Inr x, s\<lparr>sh_dials := Suc (sh_dials s), sh_peer := w'\<rparr>)"
  using assms call_daemon [OF _ assms(2,3), of hr params dec newClient "sh_peer s"]
  by (simp add: online_def call_def callErr_def andThen_def Let_def received_def)

lemma clean_enums:
  assumes "json_host h"
  shows "clean h StatusUnknown" "clean h StatusWorking" "clean h StatusCompleted" "clean h StatusFailed"
    "clean h StatusStopped" "clean h ConfidenceUnknown" "clean h ConfidenceHigh"
    "clean h (deriveAttention st)" "clean h ''session''" "clean h ''workspace''" "clean h ''native''"
    "clean h ''workspace:''" "clean h ''''" "clean h ''spawned_by''" "clean h '':''" "clean h ''->''"
    "clean h '' ''" "clean h ''process:''" "clean h ''run''"
  by (rule clean_ascii [OF assms], simp add: enum_defs deriveAttention_def ascii_char_def)+

lemma or_default_clean: "clean h s \<Longrightarrow> clean h d \<Longrightarrow> clean h (or_default s d)"
  by (simp add: or_default_def)

lemma or_time_clean: "clean_time h s \<Longrightarrow> clean_time h d \<Longrightarrow> clean_time h (or_time s d)"
  by (simp add: or_time_def IsZero_def)

lemma clean_Cons: "json_host h \<Longrightarrow> (of_char c :: nat) < 128 \<Longrightarrow> clean h s \<Longrightarrow> clean h (c # s)"
  using clean_append [of h "[c]" s] clean_ascii [of h "[c]"] by (simp add: ascii_char_def)

lemmas clean_rules = clean_Cons clean_enums or_default_clean or_time_clean clean_append clean_Itoa clean_Join

lemma defaultSession_keeps [simp]:
  "s_Title (defaultSession t x) = s_Title x" "s_Summary (defaultSession t x) = s_Summary x"
  "s_StatusDetail (defaultSession t x) = s_StatusDetail x" "s_Agent (defaultSession t x) = s_Agent x"
  "s_WorkspaceRoots (defaultSession t x) = s_WorkspaceRoots x"
  "s_ArtifactIDs (defaultSession t x) = s_ArtifactIDs x" "s_EndedAt (defaultSession t x) = s_EndedAt x"
  by (simp_all add: defaultSession_def Let_def)

lemma session_ok_default:
  assumes "json_host h" and "session_ok h x" and "clean_time h t"
  shows "session_ok h (defaultSession t x)"
  using assms
  by (simp add: session_ok_def defaultSession_fields clean_rules)

lemma session_ok_meta:
  "session_ok h x \<Longrightarrow> session_ok h (x\<lparr>s_Meta := recv_meta h (\<lambda>j. j) (s_Meta x)\<rparr>)"
  by (simp add: session_ok_def direct.meta_ok_carried)

text \<open>What the daemon stores of a session a client reports.\<close>

definition observed :: "host \<Rightarrow> Session \<Rightarrow> Session" where
  "observed h x = x\<lparr>s_Meta := recv_meta h (\<lambda>j. j) (s_Meta x)\<rparr>"

definition upserted :: "host \<Rightarrow> Session \<Rightarrow> World \<Rightarrow> World" where
  "upserted h x w = snd (timed2 (\<lambda>n m. UpsertSession n m (observed h x)) w)"

lemma decode_observed:
  assumes "json_host h" and "session_ok h x"
  shows "decodeParams h m (sessionFields h) zeroSession (Some (enc_session h x)) = Inr (observed h x)"
  using direct.session_carried [OF assms]
  by (simp add: decodeParams_def dec_session_def observed_def enc_session_def)

lemma callUpsertSession_online:
  assumes "online y hr" and "session_ok (y_host y) x" and "s_ID x \<noteq> ''''"
    and "clocks_ok y (sh_peer s)"
  shows "\<exists>r. s_ID r = s_ID x \<and> callUpsertSession y x s =
    (Inr r, s\<lparr>sh_dials := Suc (sh_dials s), sh_peer := upserted (y_host y) x (sh_peer s)\<rparr>)"
proof -
  let ?h = "y_host y" and ?w = "sh_peer s"
  let ?x = "defaultSession (clock ?w (ticks ?w)) (observed ?h x)"
  have json: "json_host ?h" using assms(1) by (simp add: online_def)
  have name: "clean ?h ''observations/upsertSession''"
    by (rule clean_ascii [OF json]) (simp add: ascii_char_def)
  have handled: "Handle ?h hr ''observations/upsertSession'' (Some (enc_session ?h x)) ?w =
      (Inr (RSession ?x), upserted ?h x ?w)"
    using assms(3) by (simp add: Handle_writing decode_observed [OF json assms(2)] withParams_def
        observeSession_def answers_def upserted_def timed_store session_table.upsert_result observed_def)
  have "session_ok ?h ?x"
    using assms(4) by (intro session_ok_default [OF json])
      (simp_all add: observed_def session_ok_meta [OF assms(2)] clocks_ok_def)
  from relayed.session_carried [OF json this]
  have "dec_session ?h (relay ?h (enc_result ?h (RSession ?x))) =
      Some (?x\<lparr>s_Meta := recv_meta ?h (relay ?h) (s_Meta ?x)\<rparr>)"
    by (simp add: enc_result_def)
  from call_online [where dec = "dec_session ?h", OF assms(1) name _ handled this] show ?thesis
    by (intro exI [of _ "?x\<lparr>s_Meta := recv_meta ?h (relay ?h) (s_Meta ?x)\<rparr>"])
      (simp add: callUpsertSession_def observed_def)
qed

text \<open>The same for a workspace and an edge.\<close>

definition upsertedWorkspace :: "host \<Rightarrow> Workspace \<Rightarrow> World \<Rightarrow> World" where
  "upsertedWorkspace h x w =
     snd (timed2 (\<lambda>n m. UpsertWorkspace n m (x\<lparr>w_Meta := recv_meta h (\<lambda>j. j) (w_Meta x)\<rparr>)) w)"

definition upsertedEdge :: "Edge \<Rightarrow> World \<Rightarrow> World" where
  "upsertedEdge x w = snd (timed2 (\<lambda>n m. UpsertEdge n m x) w)"

lemma callUpsertWorkspace_online:
  assumes "online y hr" and "workspace_ok (y_host y) x" and "w_ID x \<noteq> ''''"
    and "clocks_ok y (sh_peer s)"
  shows "\<exists>r. callUpsertWorkspace y x s =
    (Inr r, s\<lparr>sh_dials := Suc (sh_dials s), sh_peer := upsertedWorkspace (y_host y) x (sh_peer s)\<rparr>)"
proof -
  let ?h = "y_host y" and ?w = "sh_peer s"
  let ?x = "defaultWorkspace (clock ?w (ticks ?w)) (x\<lparr>w_Meta := recv_meta ?h (\<lambda>j. j) (w_Meta x)\<rparr>)"
  have json: "json_host ?h" using assms(1) by (simp add: online_def)
  have name: "clean ?h ''observations/upsertWorkspace''"
    by (rule clean_ascii [OF json]) (simp add: ascii_char_def)
  have "decodeParams ?h m (workspaceFields ?h) zeroWorkspace (Some (enc_workspace ?h x)) =
      Inr (x\<lparr>w_Meta := recv_meta ?h (\<lambda>j. j) (w_Meta x)\<rparr>)" for m
    using direct.workspace_carried [OF json assms(2)]
    by (simp add: decodeParams_def dec_workspace_def enc_workspace_def)
  then have handled: "Handle ?h hr ''observations/upsertWorkspace'' (Some (enc_workspace ?h x)) ?w =
      (Inr (RWorkspace ?x), upsertedWorkspace ?h x ?w)"
    using assms(3) by (simp add: Handle_writing withParams_def observeWorkspace_def answers_def
        upsertedWorkspace_def timed_store UpsertWorkspace_def Let_def)
  have "workspace_ok ?h ?x"
    using assms(2,4) json
    by (simp add: workspace_ok_def defaultWorkspace_def Let_def clean_rules clocks_ok_def direct.meta_ok_carried)
  from relayed.workspace_carried [OF json this]
  have "dec_workspace ?h (relay ?h (enc_result ?h (RWorkspace ?x))) =
      Some (?x\<lparr>w_Meta := recv_meta ?h (relay ?h) (w_Meta ?x)\<rparr>)"
    by (simp add: enc_result_def)
  from call_online [where dec = "dec_workspace ?h", OF assms(1) name _ handled this] show ?thesis
    by (simp add: callUpsertWorkspace_def)
qed

lemma callUpsertEdge_online:
  assumes "online y hr" and "edge_ok (y_host y) x" and "e_From x \<noteq> ''''" and "e_To x \<noteq> ''''"
    and "e_Type x \<noteq> ''''" and "clocks_ok y (sh_peer s)"
  shows "\<exists>r. callUpsertEdge y x s =
    (Inr r, s\<lparr>sh_dials := Suc (sh_dials s), sh_peer := upsertedEdge x (sh_peer s)\<rparr>)"
proof -
  let ?h = "y_host y" and ?w = "sh_peer s"
  let ?x = "defaultEdge (clock ?w (ticks ?w)) x"
  have json: "json_host ?h" using assms(1) by (simp add: online_def)
  have name: "clean ?h ''observations/upsertEdge''"
    by (rule clean_ascii [OF json]) (simp add: ascii_char_def)
  have "decodeParams ?h m (edgeFields ?h) zeroEdge (Some (enc_edge ?h x)) = Inr x" for m
    using direct.edge_carried [OF json assms(2)]
    by (simp add: decodeParams_def dec_edge_def enc_edge_def)
  then have handled: "Handle ?h hr ''observations/upsertEdge'' (Some (enc_edge ?h x)) ?w =
      (Inr (REdge ?x), upsertedEdge x ?w)"
    using assms(3-5) by (simp add: Handle_writing withParams_def observeEdge_def answers_def
        upsertedEdge_def timed_store UpsertEdge_def Let_def)
  have "edge_ok ?h ?x"
    using assms(2,6) json
    by (simp add: edge_ok_def defaultEdge_def Let_def clean_rules clocks_ok_def)
  from relayed.edge_carried [OF json this]
  have "dec_edge ?h (relay ?h (enc_result ?h (REdge ?x))) = Some ?x"
    by (simp add: enc_result_def)
  from call_online [where dec = "dec_edge ?h", OF assms(1) name _ handled this] show ?thesis
    by (simp add: callUpsertEdge_def)
qed

section \<open>The daemon's graph after an upsert\<close>

lemma upserted_world [simp]:
  "clock (upserted h x w) = clock w" "clock (upsertedWorkspace h v w) = clock w"
  "clock (upsertedEdge e w) = clock w"
  "workspaces (store (upserted h x w)) = workspaces (store w)"
  "edges (store (upserted h x w)) = edges (store w)"
  "edges (store (upsertedWorkspace h v w)) = edges (store w)"
  "workspaces (store (upsertedEdge e w)) = workspaces (store w)"
  by (simp_all add: upserted_def upsertedWorkspace_def upsertedEdge_def timed2_def case_prod_beta store_frame)

lemma upserted_session:
  "s_ID x \<noteq> '''' \<Longrightarrow> GetSession (s_ID x) (store (upserted h x w)) =
     Some (defaultSession (clock w (ticks w)) (observed h x))"
  by (simp add: upserted_def timed_store GetSession_def session_table.upsert_table observed_def)

lemma upserted_workspace:
  "w_ID x \<noteq> '''' \<Longrightarrow> GetWorkspace (w_ID x) (store (upsertedWorkspace h x w)) =
     Some (defaultWorkspace (clock w (ticks w)) (x\<lparr>w_Meta := recv_meta h (\<lambda>j. j) (w_Meta x)\<rparr>))"
  by (simp add: upsertedWorkspace_def timed_store GetWorkspace_def UpsertWorkspace_def Let_def store_frame
      defaultWorkspace_def)

lemma upserted_edge:
  "gm_get (edges (store (upsertedEdge x w))) (e_ID (defaultEdge t x)) =
     Some (defaultEdge (clock w (ticks w)) x)"
  by (simp add: upsertedEdge_def timed_store UpsertEdge_def Let_def store_frame defaultEdge_def)

section \<open>Running a command under observation\<close>

definition opts_ok :: "host \<Rightarrow> runopts \<Rightarrow> bool" where
  "opts_ok h o' \<longleftrightarrow>
     list_all (clean h) [ro_id o', ro_source o', ro_workspace o', ro_title o', ro_parent o', ro_root o'] \<and>
     list_all (clean h) (ro_command o')"

lemma run_ok:
  assumes "json_host h" and "opts_ok h o'"
  shows "list_all (clean h) rt \<Longrightarrow> clean h st \<Longrightarrow> clean h det \<Longrightarrow> clean_time h t0 \<Longrightarrow> clean_time h t \<Longrightarrow>
      (case t1 of None \<Rightarrow> True | Some t \<Rightarrow> clean_time h t) \<Longrightarrow> session_ok h (runSession o' rt st det t0 t1 t)"
    and "clean_time h 0 \<Longrightarrow> workspace_ok h (workspaceLit (ro_workspace o') (ro_id o') (ro_source o'))"
    and "clean_time h 0 \<Longrightarrow> edge_ok h (edgeLit (ro_id o') (ro_parent o') (ro_source o'))"
  using assms
  by (simp_all add: session_ok_def workspace_ok_def edge_ok_def agent_ok_def opts_ok_def runSession_def
      workspaceLit_def edgeLit_def zero_defs meta_ok_def clean_rules)

lemma upsertRunSession_online:
  assumes "online y hr" and "opts_ok (y_host y) o'" and "ro_id o' \<noteq> ''''" and "clocks_ok y (sh_peer s)"
    and "list_all (clean (y_host y)) rt" and "clean (y_host y) st" and "clean (y_host y) det"
    and "clean_time (y_host y) t0" and "case t1 of None \<Rightarrow> True | Some t \<Rightarrow> clean_time (y_host y) t"
  shows "upsertRunSession y o' rt st det t0 t1 s =
    (Inr (), s\<lparr>sh_reads := Suc (sh_reads s), sh_dials := Suc (sh_dials s),
       sh_peer := upserted (y_host y) (runSession o' rt st det t0 t1 (y_clock y (sh_reads s))) (sh_peer s)\<rparr>)"
proof -
  let ?x = "runSession o' rt st det t0 t1 (y_clock y (sh_reads s))"
  let ?s = "s\<lparr>sh_reads := Suc (sh_reads s)\<rparr>"
  have "session_ok (y_host y) ?x"
    using assms by (intro run_ok(1)) (simp_all add: online_def clocks_ok_def)
  moreover have "s_ID ?x \<noteq> ''''"
    using assms(3) by (simp add: runSession_def)
  ultimately obtain r where "callUpsertSession y ?x ?s =
      (Inr r, ?s\<lparr>sh_dials := Suc (sh_dials s), sh_peer := upserted (y_host y) ?x (sh_peer s)\<rparr>)"
    using callUpsertSession_online [OF assms(1), of ?x ?s] assms(4) by auto
  then show ?thesis
    by (simp add: upsertRunSession_def andThen_def)
qed

lemma upsertRunWorkspace_online:
  assumes "online y hr" and "opts_ok (y_host y) o'" and "clocks_ok y (sh_peer s)"
  shows "upsertRunWorkspace y o' s =
    (Inr (), s\<lparr>sh_dials := Suc (sh_dials s), sh_peer := upsertedWorkspace (y_host y)
       (workspaceLit (ro_workspace o') (ro_id o') (ro_source o')) (sh_peer s)\<rparr>)"
  using callUpsertWorkspace_online [OF assms(1) run_ok(2) _ assms(3)] assms
  by (fastforce simp: upsertRunWorkspace_def andThen_def online_def clocks_ok_def workspaceLit_def)

lemma upsertRunEdge_online:
  assumes "online y hr" and "opts_ok (y_host y) o'" and "clocks_ok y (sh_peer s)"
    and "ro_id o' \<noteq> ''''" and "ro_parent o' \<noteq> ''''"
  shows "upsertRunEdge y o' s =
    (Inr (), s\<lparr>sh_dials := Suc (sh_dials s), sh_peer :=
       upsertedEdge (edgeLit (ro_id o') (ro_parent o') (ro_source o')) (sh_peer s)\<rparr>)"
  using callUpsertEdge_online [OF assms(1) run_ok(3) _ _ _ assms(3)] assms
  by (fastforce simp: upsertRunEdge_def andThen_def online_def clocks_ok_def edgeLit_def)

text \<open>The daemon's world once the command has been announced.\<close>

definition announced :: "host \<Rightarrow> runopts \<Rightarrow> Session \<Rightarrow> World \<Rightarrow> World" where
  "announced h o' x w =
     (let w = upsertedWorkspace h (workspaceLit (ro_workspace o') (ro_id o') (ro_source o')) (upserted h x w)
      in if ro_parent o' \<noteq> '''' then upsertedEdge (edgeLit (ro_id o') (ro_parent o') (ro_source o')) w else w)"

lemma announced_clock [simp]: "clock (announced h o' x w) = clock w"
  by (simp add: announced_def Let_def)

lemma announced_graph:
  "\<exists>v. GetWorkspace (''workspace:'' @ ro_workspace o') (store (announced h o' x w)) = Some v \<and>
     ro_id o' \<in> set (w_SessionIDs v)"
  "ro_parent o' \<noteq> '''' \<Longrightarrow>
     \<exists>e. gm_get (edges (store (announced h o' x w))) (''spawned_by:'' @ ro_id o' @ ''->'' @ ro_parent o') = Some e \<and>
       e_From e = ro_id o' \<and> e_To e = ro_parent o'"
proof -
  let ?v = "workspaceLit (ro_workspace o') (ro_id o') (ro_source o')"
  let ?e = "edgeLit (ro_id o') (ro_parent o') (ro_source o')"
  show "\<exists>v. GetWorkspace (''workspace:'' @ ro_workspace o') (store (announced h o' x w)) = Some v \<and>
      ro_id o' \<in> set (w_SessionIDs v)"
    using upserted_workspace [of ?v h "upserted h x w"]
    by (simp add: announced_def Let_def GetWorkspace_def) (simp add: workspaceLit_def defaultWorkspace_def Let_def)
  show "\<exists>e. gm_get (edges (store (announced h o' x w))) (''spawned_by:'' @ ro_id o' @ ''->'' @ ro_parent o') = Some e \<and>
      e_From e = ro_id o' \<and> e_To e = ro_parent o'" if "ro_parent o' \<noteq> ''''"
    using upserted_edge [of ?e "upsertedWorkspace h ?v (upserted h x w)" 0] that
    by (simp add: announced_def Let_def) (simp add: edgeLit_def defaultEdge_def zeroEdge_def Let_def)
qed

text \<open>What the child is sent.\<close>

definition signals :: "'s cli \<Rightarrow> printed list" where
  "signals y = (case y_signal y of
     None \<Rightarrow> [] | Some sig \<Rightarrow> Signal sig # (if y_lingers y then [KillChild] else []))"

lemma relaySignal_step:
  "relaySignal y s = (Inr (y_signal y \<noteq> None), s\<lparr>sh_out := sh_out s @ signals y\<rparr>)"
  by (simp add: relaySignal_def signals_def andThen_def split: option.splits)

lemma runVerdict_clean:
  "runVerdict b v cs = (st, det, code) \<Longrightarrow> json_host h \<Longrightarrow> clean h st \<and> st \<noteq> ''''"
  by (auto simp: runVerdict_def clean_enums split: if_splits waited.splits) (simp_all add: enum_defs)

lemma runVerdict_cases:
  assumes "runVerdict (y_signal y \<noteq> None) (y_wait y) cs = (st, det, code)"
  shows "st = StatusCompleted \<longleftrightarrow> y_signal y = None \<and> y_wait y = WaitOK"
    and "y_signal y \<noteq> None \<Longrightarrow> st = StatusStopped" and "y_signal y \<noteq> None \<Longrightarrow> code = 130"
    and "y_signal y = None \<Longrightarrow> y_wait y = WaitExit c e \<Longrightarrow> st = StatusFailed"
    and "y_signal y = None \<Longrightarrow> y_wait y = WaitExit c e \<Longrightarrow> code = c"
  using assms by (auto simp: runVerdict_def enum_defs split: if_splits waited.splits)

lemma runChild_started:
  assumes "online y hr" and "opts_ok (y_host y) o'" and "ro_id o' \<noteq> ''''" and "clocks_ok y (sh_peer s)"
    and "y_start y (ro_command o') = Inr pid"
    and "runVerdict (y_signal y \<noteq> None) (y_wait y) (ro_command o') = (st, det, code)" and "clean (y_host y) det"
  shows "\<exists>run. fst (runChild y o' s) = (if code = 0 then Inr () else Inl code) \<and>
    sh_out (snd (runChild y o' s)) = sh_out s @ [Spawn (ro_command o') (ro_workspace o') (runEnv o')] @ signals y \<and>
    sh_peer (snd (runChild y o' s)) = upserted (y_host y)
      (runSession o' [''process:'' @ Itoa pid] st det (y_clock y (sh_reads s))
        (Some (y_clock y (sh_reads s + 2))) (y_clock y (sh_reads s + 3)))
      (announced (y_host y) o' run (sh_peer s))"
proof -
  let ?h = "y_host y" and ?rt = "[''process:'' @ Itoa pid]" and ?t0 = "y_clock y (sh_reads s)"
  let ?det = "''running: '' @ Join (ro_command o') '' ''"
  let ?run = "runSession o' ?rt StatusWorking ?det ?t0 None (y_clock y (sh_reads s + 1))"
  have json: "json_host ?h" using assms(1) by (simp add: online_def)
  have clean: "list_all (clean ?h) ?rt" "clean ?h ?det" "clean_time ?h (y_clock y n)" for n
    using json assms(2,4) by (simp_all add: clean_rules opts_ok_def clocks_ok_def)
  have same: "clocks_ok y w" if "clock w = clock (sh_peer s)" for w
    using assms(4) that by (simp add: clocks_ok_def)
  note up = upsertRunSession_online [OF assms(1-3)]
  have first: "upsertRunSession y o' ?rt StatusWorking ?det ?t0 None s1 =
      (Inr (), s1\<lparr>sh_reads := Suc (sh_reads s1), sh_dials := Suc (sh_dials s1),
         sh_peer := upserted ?h ?run (sh_peer s)\<rparr>)"
    if "sh_peer s1 = sh_peer s" "sh_reads s1 = sh_reads s + 1" for s1
    using up [of s1 ?rt StatusWorking ?det ?t0 None] that clean same json
    by (simp add: clean_enums)
  have last: "upsertRunSession y o' ?rt st det ?t0 (Some (y_clock y (sh_reads s + 2))) s1 =
      (Inr (), s1\<lparr>sh_reads := Suc (sh_reads s1), sh_dials := Suc (sh_dials s1), sh_peer := upserted ?h
         (runSession o' ?rt st det ?t0 (Some (y_clock y (sh_reads s + 2))) (y_clock y (sh_reads s1))) (sh_peer s1)\<rparr>)"
    if "clock (sh_peer s1) = clock (sh_peer s)" for s1
    using up [of s1 ?rt st det ?t0 "Some (y_clock y (sh_reads s + 2))"] that clean same
      runVerdict_clean [OF assms(6) json] assms(7) by simp
  note last = last [simplified add_2_eq_Suc']
  show ?thesis
    unfolding runChild_def
    by (rule exI [of _ ?run], cases "ro_parent o' = ''''"; cases "code = 0")
      (simp_all add: numeral_3_eq_3 relaySignal_step andThen_def assms(5,6) Let_def first last same announced_def upsertRunWorkspace_online [OF assms(1,2)]
        upsertRunEdge_online [OF assms(1,2) _ assms(3)] del: append.simps not_None_eq)
qed

text \<open>The session the daemon holds after a report of \<open>score run\<close>.\<close>

lemma recorded_session:
  assumes "ro_id o' \<noteq> ''''" and "ro_root o' \<noteq> ''''" and "st \<noteq> ''''"
  shows "\<exists>x. GetSession (ro_id o') (store (upserted h (runSession o' rt st det t0 t1 t) w)) = Some x \<and>
    s_EndedAt x = t1 \<and> s_ParentSessionID x = ro_parent o' \<and> s_RootSessionID x = ro_root o' \<and>
    s_Status x = st \<and> s_StatusDetail x = det \<and> s_RuntimeIDs x = rt"
  using upserted_session [of "runSession o' rt st det t0 t1 t" h w] assms
  by (simp add: runSession_def observed_def defaultSession_fields)

lemma runChild_failed:
  assumes "online y hr" and "opts_ok (y_host y) o'" and "ro_id o' \<noteq> ''''" and "clocks_ok y (sh_peer s)"
    and "y_start y (ro_command o') = Inl err" and "clean (y_host y) err"
  shows "fst (runChild y o' s) = Inl 1 \<and>
    sh_peer (snd (runChild y o' s)) = upserted (y_host y)
      (runSession o' [] StatusFailed (''start failed: '' @ err) (y_clock y (sh_reads s))
        (Some (y_clock y (sh_reads s + 1))) (y_clock y (sh_reads s + 2))) (sh_peer s)"
proof -
  let ?h = "y_host y" and ?t0 = "y_clock y (sh_reads s)" and ?t1 = "Some (y_clock y (Suc (sh_reads s)))"
  have json: "json_host ?h" using assms(1) by (simp add: online_def)
  have "upsertRunSession y o' [] StatusFailed (''start failed: '' @ err) ?t0 ?t1 s1 =
      (Inr (), s1\<lparr>sh_reads := Suc (sh_reads s1), sh_dials := Suc (sh_dials s1), sh_peer := upserted ?h
         (runSession o' [] StatusFailed (''start failed: '' @ err) ?t0 ?t1 (y_clock y (sh_reads s1))) (sh_peer s1)\<rparr>)"
    if "sh_peer s1 = sh_peer s" for s1
    using upsertRunSession_online [OF assms(1-3), of s1 "[]" StatusFailed "''start failed: '' @ err" ?t0 ?t1]
      that assms(4,6) json by (simp add: clean_rules clocks_ok_def)
  then show ?thesis
    by (simp add: runChild_def andThen_def assms(5))
qed

lemma runOptions_spec:
  assumes "runOptions y vs cs s = (Inr o', s')"
  shows "sh_peer s' = sh_peer s \<and> ro_command o' = cs \<and> ro_id o' \<noteq> '''' \<and> ro_root o' \<noteq> ''''"
  using assms
  by (auto simp: runOptions_def andThen_def Let_def split: if_splits sum.splits prod.splits)

lemma health_online:
  assumes "online y hr"
  shows "\<exists>x. call y ''health/check'' None dec_health s = (Inr x, s\<lparr>sh_dials := Suc (sh_dials s)\<rparr>)"
proof -
  have json: "json_host (y_host y)" using assms by (simp add: online_def)
  have clean: "clean (y_host y) ''health/check''" "clean (y_host y) ''status''"
    by (rule clean_ascii [OF json], simp add: ascii_char_def)+
  have handled: "Handle (y_host y) hr ''health/check'' None (sh_peer s) = (Inr (RText ''status'' ''ok''), sh_peer s)"
    by (simp add: Handle_def methods_def)
  have "\<exists>x. dec_health (relay (y_host y) (enc_result (y_host y) (RText ''status'' ''ok''))) = Some x"
    using clean(2) by (simp add: relay_def enc_result_def enc_string_def put_all_def gm_put_def sort_slice_def
        dec_health_def dec_string_def)
  then obtain x where "dec_health (relay (y_host y) (enc_result (y_host y) (RText ''status'' ''ok''))) = Some x" ..
  from call_online [where dec = dec_health, OF assms clean(1) _ handled this] show ?thesis by simp
qed

text \<open>What the daemon holds once a started command has ended.\<close>

lemma runChild_recorded:
  assumes "online y hr" and "opts_ok (y_host y) o'" and "ro_id o' \<noteq> ''''" and "ro_root o' \<noteq> ''''"
    and "clocks_ok y (sh_peer s)" and "y_start y (ro_command o') = Inr pid"
    and "runVerdict (y_signal y \<noteq> None) (y_wait y) (ro_command o') = (st, det, code)" and "clean (y_host y) det"
  shows "fst (runChild y o' s) = (if code = 0 then Inr () else Inl code) \<and>
    sh_out (snd (runChild y o' s)) = sh_out s @ [Spawn (ro_command o') (ro_workspace o') (runEnv o')] @ signals y \<and>
    (\<exists>x. GetSession (ro_id o') (store (sh_peer (snd (runChild y o' s)))) = Some x \<and>
       s_EndedAt x \<noteq> None \<and> s_ParentSessionID x = ro_parent o' \<and> s_RootSessionID x = ro_root o' \<and>
       s_Status x = st \<and> s_StatusDetail x = det \<and> s_RuntimeIDs x = [''process:'' @ Itoa pid]) \<and>
    (\<exists>v. GetWorkspace (''workspace:'' @ ro_workspace o') (store (sh_peer (snd (runChild y o' s)))) = Some v \<and>
       ro_id o' \<in> set (w_SessionIDs v)) \<and>
    (ro_parent o' \<noteq> '''' \<longrightarrow>
       (\<exists>e. gm_get (edges (store (sh_peer (snd (runChild y o' s)))))
          (''spawned_by:'' @ ro_id o' @ ''->'' @ ro_parent o') = Some e \<and>
        e_From e = ro_id o' \<and> e_To e = ro_parent o'))"
proof -
  let ?h = "y_host y" and ?w = "sh_peer (snd (runChild y o' s))"
  obtain r where r: "fst (runChild y o' s) = (if code = 0 then Inr () else Inl code)"
    "sh_out (snd (runChild y o' s)) = sh_out s @ [Spawn (ro_command o') (ro_workspace o') (runEnv o')] @ signals y"
    "?w = upserted ?h
      (runSession o' [''process:'' @ Itoa pid] st det (y_clock y (sh_reads s))
        (Some (y_clock y (sh_reads s + 2))) (y_clock y (sh_reads s + 3))) (announced ?h o' r (sh_peer s))"
    using runChild_started [OF assms(1-3,5-8)] by blast
  have "GetWorkspace k (store ?w) = GetWorkspace k (store (announced ?h o' r (sh_peer s)))"
    "edges (store ?w) = edges (store (announced ?h o' r (sh_peer s)))" for k
    by (simp_all add: r(3) GetWorkspace_def)
  moreover have "st \<noteq> ''''"
    using runVerdict_clean [OF assms(7)] assms(1) by (auto simp: online_def)
  then have "\<exists>x. GetSession (ro_id o') (store ?w) = Some x \<and>
       s_EndedAt x \<noteq> None \<and> s_ParentSessionID x = ro_parent o' \<and> s_RootSessionID x = ro_root o' \<and>
       s_Status x = st \<and> s_StatusDetail x = det \<and> s_RuntimeIDs x = [''process:'' @ Itoa pid]"
    using recorded_session [OF assms(3,4), of st] unfolding r(3) by blast
  ultimately show ?thesis
    using r(1,2) announced_graph [of o' ?h r "sh_peer s"] by (simp del: append.simps)
qed


section \<open>Reporting a session by hand\<close>

text \<open>The daemon's world after a report with a workspace and a parent, each where one was given.\<close>

definition reportedWorld :: "host \<Rightarrow> Session \<Rightarrow> World \<Rightarrow> World" where
  "reportedWorld h x w =
     (let w = upserted h x w;
          w = (if s_CWD x \<noteq> '''' then upsertedWorkspace h (workspaceLit (s_CWD x) (s_ID x) (s_Source x)) w else w)
      in if s_ParentSessionID x \<noteq> '''' then upsertedEdge (edgeLit (s_ID x) (s_ParentSessionID x) (s_Source x)) w
         else w)"

lemma upserted_sessions [simp]:
  "sessions (store (upsertedWorkspace h v w)) = sessions (store w)"
  "sessions (store (upsertedEdge e w)) = sessions (store w)"
  by (simp_all add: upsertedWorkspace_def upsertedEdge_def timed2_def case_prod_beta store_frame)

lemma reportedWorld_session:
  "s_ID x \<noteq> '''' \<Longrightarrow>
     GetSession (s_ID x) (store (reportedWorld h x w)) = Some (defaultSession (clock w (ticks w)) (observed h x))"
  using upserted_session [of x h w] by (simp add: reportedWorld_def Let_def GetSession_def)

lemma observed_flags:
  "s_ID (observedSession vs t) = flag_string '''' vs ''id''"
  "s_CWD (observedSession vs t) = flag_string '''' vs ''workspace''"
  "s_Source (observedSession vs t) = flag_string ''native'' vs ''source''"
  "s_ParentSessionID (observedSession vs t) = flag_string '''' vs ''parent''"
  by (simp_all add: observedSession_def Let_def)

lemma runObserveSession_online:
  assumes "online y hr" and "parseFlags observeFlags (y_parseInt y) [] args = Inr (vs, rest)"
    and "clocks_ok y (sh_peer s)" and "session_ok (y_host y) (observedSession vs (y_clock y (sh_reads s)))"
    and "flag_string '''' vs ''id'' \<noteq> ''''" and "\<not> flag_bool vs ''json''"
  shows "fst (runObserveSession y args s) = Inr () \<and>
    sh_out (snd (runObserveSession y args s)) = sh_out s @ [Out (flag_string '''' vs ''id'' @ [CHR 0x0A])] \<and>
    sh_peer (snd (runObserveSession y args s)) =
      reportedWorld (y_host y) (observedSession vs (y_clock y (sh_reads s))) (sh_peer s)"
proof -
  let ?h = "y_host y" and ?x = "observedSession vs (y_clock y (sh_reads s))"
  let ?s = "s\<lparr>sh_reads := Suc (sh_reads s)\<rparr>"
  have json: "json_host ?h" using assms(1) by (simp add: online_def)
  have same: "clocks_ok y w" if "clock w = clock (sh_peer s)" for w
    using assms(3) that by (simp add: clocks_ok_def)
  obtain r where r: "s_ID r = s_ID ?x" "callUpsertSession y ?x ?s =
      (Inr r, ?s\<lparr>sh_dials := Suc (sh_dials ?s), sh_peer := upserted ?h ?x (sh_peer ?s)\<rparr>)"
    using callUpsertSession_online [OF assms(1,4), of ?s] assms(3,5) by (auto simp: observed_flags)
  have "workspace_ok ?h (workspaceLit (s_CWD ?x) (s_ID ?x) (s_Source ?x))"
    "edge_ok ?h (edgeLit (s_ID ?x) (s_ParentSessionID ?x) (s_Source ?x))"
    using assms(3,4) json by (simp_all add: session_ok_def workspace_ok_def edge_ok_def workspaceLit_def
        edgeLit_def zero_defs meta_ok_def clean_rules clocks_ok_def)
  then have ws: "\<exists>v. callUpsertWorkspace y (workspaceLit (s_CWD ?x) (s_ID ?x) (s_Source ?x)) s1 =
      (Inr v, s1\<lparr>sh_dials := Suc (sh_dials s1), sh_peer := upsertedWorkspace ?h
        (workspaceLit (s_CWD ?x) (s_ID ?x) (s_Source ?x)) (sh_peer s1)\<rparr>)"
    and es: "s_ParentSessionID ?x \<noteq> '''' \<Longrightarrow>
      \<exists>e. callUpsertEdge y (edgeLit (s_ID ?x) (s_ParentSessionID ?x) (s_Source ?x)) s1 =
      (Inr e, s1\<lparr>sh_dials := Suc (sh_dials s1),
        sh_peer := upsertedEdge (edgeLit (s_ID ?x) (s_ParentSessionID ?x) (s_Source ?x)) (sh_peer s1)\<rparr>)"
    if "clock (sh_peer s1) = clock (sh_peer s)" for s1
    using callUpsertWorkspace_online [OF assms(1) _ _ same [OF that]] assms(5) that
      callUpsertEdge_online [OF assms(1) _ _ _ _ same [OF that]]
    by (simp_all add: workspaceLit_def edgeLit_def observed_flags)
  let ?s1 = "?s\<lparr>sh_dials := Suc (sh_dials ?s), sh_peer := upserted ?h ?x (sh_peer ?s)\<rparr>"
  obtain s2 where s2: "(if s_CWD ?x \<noteq> '''' then andThen (callUpsertWorkspace y
        (workspaceLit (s_CWD ?x) (s_ID ?x) (s_Source ?x))) (\<lambda>_. ret ()) else ret ()) ?s1 = (Inr (), s2)"
    "sh_out s2 = sh_out s" "clock (sh_peer s2) = clock (sh_peer s)"
    "sh_peer s2 = (if s_CWD ?x \<noteq> '''' then upsertedWorkspace ?h
        (workspaceLit (s_CWD ?x) (s_ID ?x) (s_Source ?x)) (upserted ?h ?x (sh_peer s)) else upserted ?h ?x (sh_peer s))"
    using ws [of ?s1] by (cases "s_CWD ?x = ''''") (auto simp: andThen_def)
  obtain s3 where s3: "(if s_ParentSessionID ?x \<noteq> '''' then andThen (callUpsertEdge y
        (edgeLit (s_ID ?x) (s_ParentSessionID ?x) (s_Source ?x))) (\<lambda>_. ret ()) else ret ()) s2 = (Inr (), s3)"
    "sh_out s3 = sh_out s" "sh_peer s3 = reportedWorld ?h ?x (sh_peer s)"
    using es [OF s2(3)] s2(2,4) by (cases "s_ParentSessionID ?x = ''''") (auto simp: andThen_def reportedWorld_def Let_def)
  have "runObserveSession y args s = put (Out (s_ID r @ [CHR 0x0A])) s3"
    using assms(2,5,6) r(2) s2(1) s3(1) unfolding observed_flags
    by (simp add: runObserveSession_def parse_def andThen_def Let_def)
  with r(1) s3 show ?thesis by (simp add: observed_flags)
qed


section \<open>Where flags may stand\<close>

text \<open>
  C34. Flags end at the first argument that is none. \<open>score inspect ID --json\<close>, the order the usage
  text shows, is therefore refused with the usage text and exit code 2, without asking the daemon, and
  \<open>score lineage ID --json\<close> is the same as \<open>score lineage ID\<close>; with the flag first both
  commands see it.\<close>

theorem flags_stop_at_id:
  assumes "\<not> is_flag i"
  shows "runInspect y [i, ''--json''] s = (Inl 2, s\<lparr>sh_out := sh_out s @ [Err usageText]\<rparr>) \<and>
    runLineage y [i, ''--json''] s = runLineage y [i] s \<and>
    parse y jsonFlags [''--json'', i] s = (Inr ([(''json'', VBool True)], [i]), s)"
proof -
  have later: "parseFlags jsonFlags (y_parseInt y) [] (i # more) = Inr ([], i # more)" for more
    using assms by (rule parseFlags_positional)
  have "parseFlags jsonFlags (y_parseInt y) [] [''--json'', i] = Inr ([(''json'', VBool True)], [i])"
    using assms by (simp add: jsonFlags_def is_flag_def flag_name_def split_flag_def)
  with later [of "[''--json'']"] later [of "[]"] show ?thesis
    by (simp add: runInspect_def runLineage_def parse_def andThen_def usage_def)
qed

section \<open>A concrete command line\<close>

definition exampleCli :: "World cli" where
  "exampleCli = \<lparr>y_sys = \<lparr>sys_host = wireHost, env = (\<lambda>_. ''''), temp_dir = ''/tmp'', uid = 1000,
       win_join = (\<lambda>a b. a @ b)\<rparr>,
     y_dial = (\<lambda>_. None), y_peer = daemonPeer wireHost exampleHandler, y_stream = (\<lambda>_. []),
     y_clock = (\<lambda>_. 7), y_unixNano = (\<lambda>t. t), y_rfc3339 = Itoa, y_parseInt = (\<lambda>_. None),
     y_getwd = Inr ''/w'', y_start = (\<lambda>_. Inr 42), y_wait = WaitExit 3 ''exit status 3'', y_signal = None, y_lingers = False\<rparr>"

definition exampleShell :: "World Shell" where
  "exampleShell = \<lparr>sh_out = [], sh_dials = 0, sh_reads = 0, sh_peer = (exampleWorld [] New)\<lparr>clock := (\<lambda>_. 100)\<rparr>\<rparr>"

lemma example_cli [simp]:
  "y_host exampleCli = wireHost" "y_parseInt exampleCli = (\<lambda>_. None)" "y_clock exampleCli = (\<lambda>_. 7)"
  "y_start exampleCli = (\<lambda>_. Inr 42)" "y_wait exampleCli = WaitExit 3 ''exit status 3''"
  "y_signal exampleCli = None" "env (y_sys exampleCli) k = ''''" "y_getwd exampleCli = Inr ''/w''"
  by (simp_all add: exampleCli_def)

lemma example_online: "online exampleCli exampleHandler"
  by (simp add: online_def) (simp add: exampleCli_def)

lemma example_clocks: "clocks_ok exampleCli (sh_peer exampleShell)"
  by (simp add: clocks_ok_def exampleShell_def min_int64_def max_int64_def)

definition exampleArgs :: "string list" where
  "exampleArgs = [''--id=run:1'', ''--source=sh'', ''--title=t'', ''/bin/sh'', ''-c'']"

lemma example_args:
  "parseFlags runFlags pi [] exampleArgs =
     Inr ([(''title'', VString ''t''), (''source'', VString ''sh''), (''id'', VString ''run:1'')], [''/bin/sh'', ''-c''])"
  by (simp add: exampleArgs_def runFlags_def is_flag_def flag_name_def split_flag_def set_flag_def)



theorem flags_stop_at_id_witness:
  "fst (runInspect exampleCli [''codex:1'', ''--json''] exampleShell) = Inl 2"
  using flags_stop_at_id [of "''codex:1''" exampleCli exampleShell] by (simp add: is_flag_def)

end
