(* ===== verification/Spec2Isabelle.thy ===== *)
theory Spec2Isabelle
  imports Store_Props Runtime_Props Handle_Props Pubsub Scored Lifecycle_Props Cli_Props
begin

text \<open>
  Verification of The Score: the daemon \<open>scored\<close>, which keeps a graph of coding-agent sessions,
  workspaces, edges and sources and a log of events, and its command line client \<open>score\<close>.

  \<^bold>\<open>The program.\<close> \<open>cmd/scored/main.go\<close> listens on a socket (\<open>internal/ipc\<close>), creates
  a server (\<open>internal/daemon\<close>) and starts the JSON-RPC handler (\<open>internal/api\<close>) for each
  connection. The handler works on an in-memory store (\<open>internal/store\<close>) of the structs of
  \<open>internal/model\<close>; before it lists sessions it reads the process table (\<open>internal/runtime\<close>)
  and reconciles the sessions it infers from it with the store. \<open>cmd/score\<close> calls the daemon through
  \<open>internal/client\<close> and starts and stops it.

  \<^bold>\<open>The theories\<close>, in the order they build on each other:

  \<^item> \<open>Go_Prelude\<close>: times, 64-bit integers, slices and their sorting, maps as association lists with an
    explicit iteration order, and the locales \<open>strict_weak_order\<close>, \<open>invariant_system\<close> and
    \<open>functional_refinement\<close>. \<open>Go_Strings\<close>: the functions of \<open>strings\<close>, \<open>strconv\<close>
    and \<open>path/filepath\<close> the program calls, and the record \<open>host\<close>, what the program asks of the
    machine and of library code whose text is not modelled.
  \<^item> \<open>Model\<close>: the structs of \<open>model.go\<close> as records, its enumerations as strings.
  \<^item> \<open>Store\<close>: every operation of \<open>store.go\<close>. A clock reading and the order of a range over a map
    are arguments; a channel is an index into a heap of buffers. \<open>Store_Laws\<close>: the contract of a table
    of the store as locales, interpreted for the four tables. \<open>Store_Inv\<close>: the invariant and its
    preservation, and the abstract graph the store refines. \<open>Store_Props\<close>: what each operation promises.
  \<^item> \<open>Pubsub\<close>: \<open>appendEvent\<close>, \<open>Subscribe\<close>, the backlog goroutine, receivers and
    \<open>cancel\<close> interleaved at the lock and at single sends, as a step relation.
  \<^item> \<open>Runtime\<close>, \<open>Runtime_Props\<close>: recognising agents in the process table, parsing the output of
    ps, tasklist and lsof; the locale \<open>process_lister\<close> is the interface \<open>ProcessLister\<close>.
  \<^item> \<open>Json\<close>: \<open>json.Unmarshal\<close> by field tables. \<open>Encode\<close>: \<open>json.Marshal\<close> of every
    struct that crosses a connection. \<open>Wire\<close>: the locale \<open>transport\<close>, interpreted for a value sent
    directly and for one that passes through an \<open>interface{}\<close>, and the round trips of the structs.
  \<^item> \<open>Api\<close>: \<open>handler.go\<close> and \<open>jsonrpc.go\<close>, one definition per method, the four loops of
    \<open>reconcileProcessSessions\<close>, \<open>ServeConn\<close> and \<open>handleSubscribe\<close>; the state is a
    \<open>World\<close> (store, clock, iteration orders, process tables). \<open>Api_Laws\<close> and \<open>Api_Links\<close>:
    an invariant per loop. \<open>Api_Props\<close>: what reconciliation achieves. \<open>Handle_Props\<close>: the methods and
    the connections.
  \<^item> \<open>Daemon\<close>: \<open>server.go\<close>. \<open>Ipc\<close>: the address and the calls of \<open>listen\<close>.
    \<open>Flags\<close>: Go's \<open>flag\<close> package. \<open>Scored\<close>: the daemon's \<open>main\<close>.
  \<^item> \<open>Client\<close>: \<open>client.go\<close> over a peer, which may be the daemon's \<open>ServeConn\<close>.
  \<^item> \<open>Lifecycle\<close>, \<open>Lifecycle_Props\<close>: \<open>score start\<close>, \<open>stop\<close> and \<open>status\<close>
    (\<open>lifecycle.go\<close>) against arbitrary answers of the operating system, as a trace of effects.
  \<^item> \<open>Cli\<close>, \<open>Cli_Props\<close>: every other command of \<open>cmd/score/main.go\<close>, as transformers of a
    shell state with exit codes.

  \<^bold>\<open>What is shown.\<close>

  \<^item> The store: every store reachable by any sequence of calls satisfies the invariant (records under
    their own key and complete, log numbered without gaps and bounded, channels owned by one subscriber),
    and runs refine the abstract graph; queries return exactly the records they should, in order.
  \<^item> Publishing: an event reaches a subscriber at most once; without \<open>cancel\<close> no run panics; with it
    a run that sends on a closed channel exists, and so does one in which a live event overtakes the backlog.
  \<^item> Reconciliation: sessions reported by clients are never changed; the inferred sessions and edges are
    exactly those of the current process table; the record, parent and root of each is determined.
  \<^item> The API: errors and reads leave the store as it was, observations are validated, a connection answers
    its requests in order, and every world reachable by requests keeps the store's invariant.
  \<^item> Client and command line: a call is a call of the handler; sessions and events survive the wire;
    \<open>score run\<close> and \<open>score observe-session\<close> are followed from their arguments through JSON, the
    connection and the handler to the daemon's store.
  \<^item> Lifecycle: waiting ends and probes a bounded number of times, start reports success only after the
    daemon answered, the pid file reads back, stop may report success while the daemon still answers.

  \<^bold>\<open>Bounds.\<close> All functions are total; no fuel is used. Sequence numbers, client ids and parsed integers wrap or
  saturate at 64 bits as in Go; a channel holds 128 events and the log \<open>maxEvents\<close>. The only loop that
  may not end, \<open>waitForDaemon\<close>, is a partial function into an option, proved to return when the clock advances.

  \<^bold>\<open>Assumptions.\<close> Theorems about JSON assume \<open>json_host\<close> (ASCII and valid text and integers up to
  2 to the 53 are written as they are) and that the times involved have a JSON form; theorems about waiting
  assume that time passes. Witnesses instantiate both.

  \<^bold>\<open>Not modelled.\<close> The bytes of sockets and pipes, the calls that dial them and detaching a process (operating system;
  the results are parameters), the text of JSON documents and the column layout of tables (library code), log
  output, the time zone of a time, and the difference between a nil and an empty slice or map. Handlers of
  different connections are interleaved at whole requests; the finer interleaving is modelled where it matters,
  in \<open>Pubsub\<close>. \<open>humanDuration\<close> truncates exactly where the source divides \<open>float64\<close> values.
\<close>

end
